theory Spec2Isabelle
  imports Complex_Main
begin

section \<open>Numbers and library primitives\<close>

text \<open>
  The simulator is JavaScript; every number in it is an IEEE double.  The embedding reads
  a JavaScript number as a \<^typ>\<open>real\<close>: rounding error, NaN, infinities and the sign of
  zero are not represented.  \<open>Math.PI\<close> is \<^term>\<open>pi\<close>, \<open>Math.sqrt\<close> is \<^term>\<open>sqrt\<close> (only
  ever applied to sums of squares), \<open>Math.acos\<close> is \<^term>\<open>arccos\<close> (only ever applied after
  the source has clamped its argument into \<open>[-1, 1]\<close>), \<open>Math.max\<close> and \<open>Math.min\<close> are
  \<^term>\<open>max\<close> and \<^term>\<open>min\<close>.
\<close>

text \<open>
  \<open>Math.atan2(y, x)\<close> is a library function of the language, written here from its
  definition: the angle of the point \<open>(x, y)\<close>, in \<open>(-pi, pi]\<close>, and 0 at the origin.
\<close>

definition Math_atan2 :: "real \<Rightarrow> real \<Rightarrow> real" where
  "Math_atan2 y x =
     (if 0 < x then arctan (y / x)
      else if x < 0 then (if 0 \<le> y then arctan (y / x) + pi else arctan (y / x) - pi)
      else if 0 < y then pi / 2
      else if y < 0 then - (pi / 2)
      else 0)"

text \<open>
  The two normalisation loops \<open>while (a > Math.PI) a -= 2 * Math.PI\<close> and
  \<open>while (a < -Math.PI) a += 2 * Math.PI\<close>, which \<open>solveIK\<close> and \<open>lerpAngle\<close> both
  write inline.
\<close>

function while_gt_pi :: "real \<Rightarrow> real" where
  "while_gt_pi a = (if a > pi then while_gt_pi (a - 2 * pi) else a)"
  by pat_completeness auto
termination
proof (relation "measure (\<lambda>a. nat \<lceil>a / (2 * pi)\<rceil>)")
  show "wf (measure (\<lambda>a. nat \<lceil>a / (2 * pi)\<rceil>))" by simp
next
  fix a :: real
  assume gt: "pi < a"
  have eq: "(a - 2 * pi) / (2 * pi) = a / (2 * pi) - 1"
    by (simp add: diff_divide_distrib)
  have "0 < a" using gt pi_gt_zero by linarith
  then have "0 < a / (2 * pi)" by simp
  then have "0 < \<lceil>a / (2 * pi)\<rceil>" by linarith
  then show "(a - 2 * pi, a) \<in> measure (\<lambda>a. nat \<lceil>a / (2 * pi)\<rceil>)"
    by (simp add: eq)
qed

function while_lt_neg_pi :: "real \<Rightarrow> real" where
  "while_lt_neg_pi a = (if a < - pi then while_lt_neg_pi (a + 2 * pi) else a)"
  by pat_completeness auto
termination
proof (relation "measure (\<lambda>a. nat \<lceil>- a / (2 * pi)\<rceil>)")
  show "wf (measure (\<lambda>a. nat \<lceil>- a / (2 * pi)\<rceil>))" by simp
next
  fix a :: real
  assume lt: "a < - pi"
  define m where "m = - a / (2 * pi)"
  have eq: "- (a + 2 * pi) / (2 * pi) = m - 1"
    unfolding m_def by (simp add: field_simps)
  have "0 < - a" using lt pi_gt_zero by linarith
  then have "0 < m" unfolding m_def by (intro divide_pos_pos) simp_all
  then have "nat \<lceil>m - 1\<rceil> < nat \<lceil>m\<rceil>" by linarith
  then show "(a + 2 * pi, a) \<in> measure (\<lambda>a. nat \<lceil>- a / (2 * pi)\<rceil>)"
    by (simp only: in_measure eq m_def [symmetric])
qed

declare while_gt_pi.simps [simp del]
declare while_lt_neg_pi.simps [simp del]

section \<open>Configuration\<close>

text \<open>\<open>CONFIG.segments\<close>: the link lengths, in world units.\<close>

definition baseHeight :: real where "baseHeight = 0.4"
definition shoulderLength :: real where "shoulderLength = 1.5"
definition elbowLength :: real where "elbowLength = 1.5"
definition wristLength :: real where "wristLength = 0.4"
definition gripperLength :: real where "gripperLength = 0.25"

text \<open>\<open>CONFIG.limits\<close>: the joint limits, in degrees.\<close>

record joint_limit =
  lim_min :: real
  lim_max :: real

definition limits_base :: joint_limit where
  "limits_base = \<lparr>lim_min = - 180, lim_max = 180\<rparr>"
definition limits_shoulder :: joint_limit where
  "limits_shoulder = \<lparr>lim_min = - 90, lim_max = 90\<rparr>"
definition limits_elbow :: joint_limit where
  "limits_elbow = \<lparr>lim_min = - 135, lim_max = 135\<rparr>"
definition limits_wrist :: joint_limit where
  "limits_wrist = \<lparr>lim_min = - 90, lim_max = 90\<rparr>"
definition limits_wristRotate :: joint_limit where
  "limits_wristRotate = \<lparr>lim_min = - 180, lim_max = 180\<rparr>"

section \<open>Inverse kinematics: \<open>solveIK\<close>\<close>

text \<open>
  The result object \<open>{ success, error }\<close> or \<open>{ success, angles }\<close> is a sum: \<open>Inl\<close> carries
  the reason of a failure, \<open>Inr\<close> the four angles in degrees.  The error strings of the
  source are the constructors; the numbers that the source formats into two of the
  messages are kept as arguments, unformatted:
  \<^item> \<open>BelowFloor\<close>: "Target is below the floor (Z must be >= 0)";
  \<^item> \<open>TooFar need reach\<close>: "Target too far (need ..cm, arm reach: ..cm)";
  \<^item> \<open>TooClose\<close>: "Target is too close to shoulder pivot";
  \<^item> \<open>CannotReach out up\<close>: "Cannot reach (..cm out, ..cm up) with gripper pointing down
    - try a different height or distance".
\<close>

datatype ik_error =
  is_BelowFloor: BelowFloor
| is_TooFar: TooFar real real
| is_TooClose: TooClose
| is_CannotReach: CannotReach real real

record ik_angles =
  ik_base :: real
  ik_shoulder :: real
  ik_elbow :: real
  ik_wrist :: real

record ik_config =
  cfg_shoulder :: real
  cfg_elbow :: real
  cfg_wrist :: real
  cfg_name :: string

definition solveIK :: "real \<Rightarrow> real \<Rightarrow> real \<Rightarrow> ik_error + ik_angles" where
  "solveIK targetX targetY targetZ =
    (let L1 = shoulderLength;
         L2 = elbowLength;
         L3 = wristLength + 0.06 + gripperLength;
         baseHeight' = baseHeight + 0.15;
         armReach = L1 + L2
     in
     if targetZ < 0 then Inl BelowFloor
     else
     let baseAngle = while_lt_neg_pi (while_gt_pi (pi - Math_atan2 targetY targetX));
         r = sqrt (targetX * targetX + targetY * targetY);
         h = targetZ - baseHeight';
         wristR = r;
         wristH = h + L3;
         wristDist = sqrt (wristR * wristR + wristH * wristH)
     in
     if wristDist > armReach * 0.98 then Inl (TooFar (wristDist * 100) (armReach * 100))
     else
     let minWristDist = 0.02 in
     if wristDist < minWristDist then Inl TooClose
     else
     let cosElbowInternal = max (- 1) (min 1
           ((L1 * L1 + L2 * L2 - wristDist * wristDist) / (2 * L1 * L2)));
         elbowInternalAngle = arccos cosElbowInternal;
         angleToWristFromVertical = Math_atan2 wristR wristH;
         cosAlpha = max (- 1) (min 1
           ((L1 * L1 + wristDist * wristDist - L2 * L2) / (2 * L1 * wristDist)));
         alpha = arccos cosAlpha;
         desiredGripperAngle = pi;
         shoulderLimitMin = lim_min limits_shoulder * pi / 180;
         shoulderLimitMax = lim_max limits_shoulder * pi / 180;
         elbowLimitMin = lim_min limits_elbow * pi / 180;
         elbowLimitMax = lim_max limits_elbow * pi / 180;
         wristLimitMin = lim_min limits_wrist * pi / 180;
         wristLimitMax = lim_max limits_wrist * pi / 180;
         shoulderDown = angleToWristFromVertical + alpha;
         elbowDown = - (pi - elbowInternalAngle);
         wristDown = desiredGripperAngle - shoulderDown - elbowDown;
         configs1 =
           (if shoulderDown \<ge> shoulderLimitMin \<and> shoulderDown \<le> shoulderLimitMax \<and>
               elbowDown \<ge> elbowLimitMin \<and> elbowDown \<le> elbowLimitMax \<and>
               wristDown \<ge> wristLimitMin \<and> wristDown \<le> wristLimitMax
            then [\<lparr>cfg_shoulder = shoulderDown, cfg_elbow = elbowDown,
                   cfg_wrist = wristDown, cfg_name = ''elbow-down''\<rparr>]
            else []);
         shoulderUp = angleToWristFromVertical - alpha;
         elbowUp = pi - elbowInternalAngle;
         wristUp = desiredGripperAngle - shoulderUp - elbowUp;
         configs =
           (if shoulderUp \<ge> shoulderLimitMin \<and> shoulderUp \<le> shoulderLimitMax \<and>
               elbowUp \<ge> elbowLimitMin \<and> elbowUp \<le> elbowLimitMax \<and>
               wristUp \<ge> wristLimitMin \<and> wristUp \<le> wristLimitMax
            then configs1 @ [\<lparr>cfg_shoulder = shoulderUp, cfg_elbow = elbowUp,
                   cfg_wrist = wristUp, cfg_name = ''elbow-up''\<rparr>]
            else configs1)
     in
     case configs of
       [] \<Rightarrow> Inl (CannotReach (r * 100) (targetZ * 100))
     | chosen # _ \<Rightarrow>
         Inr \<lparr>ik_base = baseAngle * 180 / pi,
              ik_shoulder = cfg_shoulder chosen * 180 / pi,
              ik_elbow = cfg_elbow chosen * 180 / pi,
              ik_wrist = cfg_wrist chosen * 180 / pi\<rparr>)"

subsection \<open>The quantities \<open>solveIK\<close> computes on the way\<close>

text \<open>
  The local constants of \<open>solveIK\<close>, as functions of the target, so that statements can
  name them; lemma \<open>solveIK_unfold\<close> below shows that \<open>solveIK\<close> is built from exactly
  these.
\<close>

definition ik_r :: "real \<Rightarrow> real \<Rightarrow> real" where
  "ik_r targetX targetY = sqrt (targetX * targetX + targetY * targetY)"

definition ik_wristH :: "real \<Rightarrow> real" where
  "ik_wristH targetZ = targetZ - (baseHeight + 0.15) + (wristLength + 0.06 + gripperLength)"

definition ik_wristDist :: "real \<Rightarrow> real \<Rightarrow> real \<Rightarrow> real" where
  "ik_wristDist targetX targetY targetZ =
     sqrt (ik_r targetX targetY * ik_r targetX targetY + ik_wristH targetZ * ik_wristH targetZ)"

definition ik_armReach :: real where
  "ik_armReach = shoulderLength + elbowLength"

definition ik_elbowInternalAngle :: "real \<Rightarrow> real" where
  "ik_elbowInternalAngle wristDist =
     arccos (max (- 1) (min 1
       ((shoulderLength * shoulderLength + elbowLength * elbowLength - wristDist * wristDist)
          / (2 * shoulderLength * elbowLength))))"

definition ik_alpha :: "real \<Rightarrow> real" where
  "ik_alpha wristDist =
     arccos (max (- 1) (min 1
       ((shoulderLength * shoulderLength + wristDist * wristDist - elbowLength * elbowLength)
          / (2 * shoulderLength * wristDist))))"

definition ik_baseAngle :: "real \<Rightarrow> real \<Rightarrow> real" where
  "ik_baseAngle targetX targetY = while_lt_neg_pi (while_gt_pi (pi - Math_atan2 targetY targetX))"

definition ik_elbow_down :: "real \<Rightarrow> real \<Rightarrow> real \<Rightarrow> ik_config" where
  "ik_elbow_down targetX targetY targetZ =
     (let d = ik_wristDist targetX targetY targetZ;
          shoulderDown = Math_atan2 (ik_r targetX targetY) (ik_wristH targetZ) + ik_alpha d;
          elbowDown = - (pi - ik_elbowInternalAngle d)
      in \<lparr>cfg_shoulder = shoulderDown, cfg_elbow = elbowDown,
          cfg_wrist = pi - shoulderDown - elbowDown, cfg_name = ''elbow-down''\<rparr>)"

definition ik_elbow_up :: "real \<Rightarrow> real \<Rightarrow> real \<Rightarrow> ik_config" where
  "ik_elbow_up targetX targetY targetZ =
     (let d = ik_wristDist targetX targetY targetZ;
          shoulderUp = Math_atan2 (ik_r targetX targetY) (ik_wristH targetZ) - ik_alpha d;
          elbowUp = pi - ik_elbowInternalAngle d
      in \<lparr>cfg_shoulder = shoulderUp, cfg_elbow = elbowUp,
          cfg_wrist = pi - shoulderUp - elbowUp, cfg_name = ''elbow-up''\<rparr>)"

definition within_limit :: "joint_limit \<Rightarrow> real \<Rightarrow> bool" where
  "within_limit limits a = (a \<ge> lim_min limits * pi / 180 \<and> a \<le> lim_max limits * pi / 180)"

definition config_ok :: "ik_config \<Rightarrow> bool" where
  "config_ok c =
     (within_limit limits_shoulder (cfg_shoulder c) \<and>
      within_limit limits_elbow (cfg_elbow c) \<and>
      within_limit limits_wrist (cfg_wrist c))"

definition ik_result :: "real \<Rightarrow> ik_config \<Rightarrow> ik_angles" where
  "ik_result baseAngle chosen =
     \<lparr>ik_base = baseAngle * 180 / pi,
      ik_shoulder = cfg_shoulder chosen * 180 / pi,
      ik_elbow = cfg_elbow chosen * 180 / pi,
      ik_wrist = cfg_wrist chosen * 180 / pi\<rparr>"

text \<open>The angles of a result, in degrees, against \<open>CONFIG.limits\<close>.\<close>

definition angles_within_limits :: "ik_angles \<Rightarrow> bool" where
  "angles_within_limits a =
     (lim_min limits_shoulder \<le> ik_shoulder a \<and> ik_shoulder a \<le> lim_max limits_shoulder \<and>
      lim_min limits_elbow \<le> ik_elbow a \<and> ik_elbow a \<le> lim_max limits_elbow \<and>
      lim_min limits_wrist \<le> ik_wrist a \<and> ik_wrist a \<le> lim_max limits_wrist)"


section \<open>Vectors, rotations and boxes\<close>

text \<open>
  \<open>THREE.Vector3\<close> with the methods the simulator calls.  The library is not part of the
  repository; each method is written from its mathematical definition.  \<open>normalize\<close> (here \<open>v_normalize\<close>)
  divides by the length, or by 1 when the length is 0.
\<close>

datatype vec3 = Vector3 (vec_x: real) (vec_y: real) (vec_z: real)

definition v_add :: "vec3 \<Rightarrow> vec3 \<Rightarrow> vec3" where
  "v_add a b = Vector3 (vec_x a + vec_x b) (vec_y a + vec_y b) (vec_z a + vec_z b)"

definition v_sub :: "vec3 \<Rightarrow> vec3 \<Rightarrow> vec3" where
  "v_sub a b = Vector3 (vec_x a - vec_x b) (vec_y a - vec_y b) (vec_z a - vec_z b)"

definition multiplyScalar :: "vec3 \<Rightarrow> real \<Rightarrow> vec3" where
  "multiplyScalar a k = Vector3 (vec_x a * k) (vec_y a * k) (vec_z a * k)"

definition v_dot :: "vec3 \<Rightarrow> vec3 \<Rightarrow> real" where
  "v_dot a b = vec_x a * vec_x b + vec_y a * vec_y b + vec_z a * vec_z b"

definition lengthSq :: "vec3 \<Rightarrow> real" where
  "lengthSq a = vec_x a * vec_x a + vec_y a * vec_y a + vec_z a * vec_z a"

definition v_length :: "vec3 \<Rightarrow> real" where
  "v_length a = sqrt (lengthSq a)"

definition v_normalize :: "vec3 \<Rightarrow> vec3" where
  "v_normalize a = multiplyScalar a (1 / (if v_length a = 0 then 1 else v_length a))"

definition v_multiply :: "vec3 \<Rightarrow> vec3 \<Rightarrow> vec3" where
  "v_multiply a b = Vector3 (vec_x a * vec_x b) (vec_y a * vec_y b) (vec_z a * vec_z b)"

definition distanceTo :: "vec3 \<Rightarrow> vec3 \<Rightarrow> real" where
  "distanceTo a b = v_length (v_sub a b)"

definition set_x :: "vec3 \<Rightarrow> real \<Rightarrow> vec3" where
  "set_x a v = Vector3 v (vec_y a) (vec_z a)"

definition set_y :: "vec3 \<Rightarrow> real \<Rightarrow> vec3" where
  "set_y a v = Vector3 (vec_x a) v (vec_z a)"

definition set_z :: "vec3 \<Rightarrow> real \<Rightarrow> vec3" where
  "set_z a v = Vector3 (vec_x a) (vec_y a) v"

text \<open>
  A \<open>THREE.Quaternion\<close> stands for a rotation.  The embedding keeps the rotation by the
  images of the three coordinate axes (the columns of its matrix): \<open>applyQuaternion\<close> is
  the linear map, \<open>invert\<close> the transpose, \<open>multiply\<close> the composition.
\<close>

datatype rotation = Rotation (axis_x: vec3) (axis_y: vec3) (axis_z: vec3)

definition identity_rotation :: rotation where
  "identity_rotation = Rotation (Vector3 1 0 0) (Vector3 0 1 0) (Vector3 0 0 1)"

definition applyQuaternion :: "vec3 \<Rightarrow> rotation \<Rightarrow> vec3" where
  "applyQuaternion v q =
     v_add (v_add (multiplyScalar (axis_x q) (vec_x v)) (multiplyScalar (axis_y q) (vec_y v)))
       (multiplyScalar (axis_z q) (vec_z v))"

definition invert :: "rotation \<Rightarrow> rotation" where
  "invert q =
     Rotation (Vector3 (vec_x (axis_x q)) (vec_x (axis_y q)) (vec_x (axis_z q)))
              (Vector3 (vec_y (axis_x q)) (vec_y (axis_y q)) (vec_y (axis_z q)))
              (Vector3 (vec_z (axis_x q)) (vec_z (axis_y q)) (vec_z (axis_z q)))"

definition q_multiply :: "rotation \<Rightarrow> rotation \<Rightarrow> rotation" where
  "q_multiply a b =
     Rotation (applyQuaternion (axis_x b) a) (applyQuaternion (axis_y b) a)
       (applyQuaternion (axis_z b) a)"

text \<open>\<open>THREE.Box3\<close>: an axis-aligned box, by its two corners.\<close>

record box3 =
  box_min :: vec3
  box_max :: vec3

definition getCenter :: "box3 \<Rightarrow> vec3" where
  "getCenter b = multiplyScalar (v_add (box_min b) (box_max b)) 0.5"

definition getSize :: "box3 \<Rightarrow> vec3" where
  "getSize b = v_sub (box_max b) (box_min b)"

definition intersectsBox :: "box3 \<Rightarrow> box3 \<Rightarrow> bool" where
  "intersectsBox a b =
     (\<not> (vec_x (box_max b) < vec_x (box_min a) \<or> vec_x (box_min b) > vec_x (box_max a) \<or>
         vec_y (box_max b) < vec_y (box_min a) \<or> vec_y (box_min b) > vec_y (box_max a) \<or>
         vec_z (box_max b) < vec_z (box_min a) \<or> vec_z (box_min b) > vec_z (box_max a)))"

definition expandByScalar :: "box3 \<Rightarrow> real \<Rightarrow> box3" where
  "expandByScalar b k =
     \<lparr>box_min = v_sub (box_min b) (Vector3 k k k), box_max = v_add (box_max b) (Vector3 k k k)\<rparr>"

section \<open>The simulation state\<close>

text \<open>The objects \<open>jointAngles\<close> and \<open>targetAngles\<close>: five angles in radians.\<close>

record angles =
  base :: real
  shoulder :: real
  elbow :: real
  wrist :: real
  wristRotate :: real

text \<open>
  \<open>class PhysicsObject\<close>.  \<open>obj_position\<close> and \<open>obj_quaternion\<close> are \<open>mesh.position\<close> and
  \<open>mesh.quaternion\<close>; \<open>null\<close> is \<open>None\<close>.
\<close>

record physics_object =
  obj_position :: vec3
  obj_quaternion :: rotation
  obj_type :: string
  obj_size :: vec3
  obj_name :: string
  velocity :: vec3
  isGripped :: bool
  grippedOffset :: "vec3 option"
  grippedRotation :: "rotation option"

definition getRadius :: "physics_object \<Rightarrow> real" where
  "getRadius obj = max (vec_x (obj_size obj)) (vec_z (obj_size obj)) / 2"

definition getHalfHeight :: "physics_object \<Rightarrow> real" where
  "getHalfHeight obj = vec_y (obj_size obj) / 2"

text \<open>\<open>runningProgram\<close>: \<open>null\<close> or a program with its name, commands and position.\<close>

record program =
  prog_name :: string
  prog_commands :: "string list"
  prog_index :: nat

text \<open>
  The module-level variables.  JavaScript objects are shared by reference, so the physics
  objects live in a store (\<open>heap\<close>, from references to objects); \<open>sceneObjects\<close> is the
  array of references and \<open>grippedObject\<close> a reference or \<open>null\<close>.  \<open>pivots\<close> holds the
  rotations of the five pivots of the scene graph (\<open>robotArm.basePivot.rotation.y\<close>,
  \<open>shoulderPivot.rotation.z\<close>, \<open>elbowPivot.rotation.z\<close>, \<open>wristPivot.rotation.z\<close>,
  \<open>wristRotatePivot.rotation.y\<close>), \<open>leftFingerX\<close> and \<open>rightFingerX\<close> the positions of the
  two fingers, \<open>animationDuration\<close> is \<open>CONFIG.animation.duration\<close>, and \<open>terminalOutput\<close>
  the lines printed so far, each with its type.  \<open>randomIndex\<close> counts the calls of
  \<open>Math.random\<close>, and \<open>nextRef\<close> is the next unused reference of the store.  The page (DOM) is not part of the state.
\<close>

record sim =
  jointAngles :: angles
  targetAngles :: angles
  pivots :: angles
  leftFingerX :: real
  rightFingerX :: real
  isAnimating :: bool
  animationQueue :: "string list"
  gripperOpenness :: real
  targetGripperOpenness :: real
  gripperAnimating :: bool
  heap :: "nat \<Rightarrow> physics_object"
  sceneObjects :: "nat list"
  grippedObject :: "nat option"
  objectCounter :: nat
  nextRef :: nat
  animationStartTime :: real
  animationStartAngles :: angles
  lastSafeAngles :: "angles option"
  lastSafeProgress :: real
  animationDuration :: real
  runningProgram :: "program option"
  terminalOutput :: "(string \<times> string) list"
  randomIndex :: nat

definition terminal_print :: "string \<Rightarrow> string \<Rightarrow> sim \<Rightarrow> sim" where
  "terminal_print text' type' s = s\<lparr>terminalOutput := terminalOutput s @ [(text', type')]\<rparr>"

text \<open>
  The state when the module has been loaded, before the arm is built: the initialisers of
  the module-level variables.  Store cells that no object occupies yet hold a blank
  object; \<open>animationStartAngles\<close>, an empty object in the source, is never read before
  \<open>startAnimation\<close> has set it.
\<close>

definition blank_object :: physics_object where
  "blank_object =
     \<lparr>obj_position = Vector3 0 0 0, obj_quaternion = identity_rotation, obj_type = [],
      obj_size = Vector3 0 0 0, obj_name = [], velocity = Vector3 0 0 0, isGripped = False,
      grippedOffset = None, grippedRotation = None\<rparr>"

definition zero_angles :: angles where
  "zero_angles = \<lparr>base = 0, shoulder = 0, elbow = 0, wrist = 0, wristRotate = 0\<rparr>"

definition initial_sim :: sim where
  "initial_sim =
     \<lparr>jointAngles = zero_angles, targetAngles = zero_angles, pivots = zero_angles,
      leftFingerX = - 0.05, rightFingerX = 0.05,
      isAnimating = False, animationQueue = [],
      gripperOpenness = 50, targetGripperOpenness = 50, gripperAnimating = False,
      heap = (\<lambda>_. blank_object), sceneObjects = [], grippedObject = None, objectCounter = 0,
      nextRef = 0,
      animationStartTime = 0, animationStartAngles = zero_angles,
      lastSafeAngles = None, lastSafeProgress = 0, animationDuration = 1000,
      runningProgram = None, terminalOutput = [], randomIndex = 0\<rparr>"

section \<open>Kinematics\<close>

definition clampAngle :: "real \<Rightarrow> joint_limit \<Rightarrow> real" where
  "clampAngle angle limits = max (lim_min limits) (min (lim_max limits) angle)"

text \<open>\<open>applyJointAngles\<close> copies the joint angles into the scene graph (and refreshes the page).\<close>

definition applyJointAngles :: "sim \<Rightarrow> sim" where
  "applyJointAngles s =
     s\<lparr>pivots := \<lparr>base = base (jointAngles s), shoulder = shoulder (jointAngles s),
                    elbow = elbow (jointAngles s), wrist = wrist (jointAngles s),
                    wristRotate = wristRotate (jointAngles s)\<rparr>\<rparr>"

text \<open>
  \<open>startAnimation\<close>; \<open>now\<close> is the value of \<open>performance.now()\<close>.  The variable
  \<open>previousArmPositions\<close>, which it also sets, is never read and is left out.
\<close>

definition startAnimation :: "real \<Rightarrow> sim \<Rightarrow> sim" where
  "startAnimation now s =
     (if \<not> isAnimating s then
        s\<lparr>animationStartTime := now,
          animationStartAngles := jointAngles s,
          lastSafeAngles := Some (jointAngles s),
          lastSafeProgress := 0,
          isAnimating := True\<rparr>
      else s)"

definition setJointAngles :: "real \<Rightarrow> real \<Rightarrow> real \<Rightarrow> real \<Rightarrow> real \<Rightarrow> bool \<Rightarrow> sim \<Rightarrow> sim" where
  "setJointAngles now base' shoulder' elbow' wrist' animated s =
     (let baseRad = clampAngle base' limits_base * pi / 180;
          shoulderRad = clampAngle shoulder' limits_shoulder * pi / 180;
          elbowRad = clampAngle elbow' limits_elbow * pi / 180;
          wristRad = clampAngle wrist' limits_wrist * pi / 180
      in
      if animated then
        startAnimation now
          (s\<lparr>targetAngles := (targetAngles s)\<lparr>base := baseRad, shoulder := shoulderRad,
                elbow := elbowRad, wrist := wristRad\<rparr>\<rparr>)
      else
        applyJointAngles
          (s\<lparr>jointAngles := (jointAngles s)\<lparr>base := baseRad, shoulder := shoulderRad,
                elbow := elbowRad, wrist := wristRad\<rparr>\<rparr>))"


text \<open>
  Forward kinematics.  \<open>getEndEffectorPosition\<close> asks the scene graph for the world
  position of \<open>endEffectorMarker\<close>.  The graph is the chain that
  \<open>createProceduralRobotArm\<close>, \<open>createHierarchyFromFlatGLB\<close> and \<open>ensurePivotStructure\<close>
  all build: the base pivot at height 0.15 turning about Y; the shoulder pivot
  \<open>baseHeight\<close> above it, the elbow pivot \<open>shoulderLength\<close> further and the wrist pivot
  \<open>elbowLength\<close> further, each turning about Z; the wrist-roll pivot \<open>wristLength\<close>
  further, turning about Y; the gripper group 0.06 further; the marker
  \<open>gripperLength\<close> further.  A child's point \<open>v\<close> is \<open>position + rotation v\<close> in its
  parent.  The result swaps Y and Z (the scene is Y-up, the robot frame Z-up).
\<close>

definition rotateY :: "real \<Rightarrow> vec3 \<Rightarrow> vec3" where
  "rotateY a v =
     Vector3 (vec_x v * cos a + vec_z v * sin a) (vec_y v) (- vec_x v * sin a + vec_z v * cos a)"




section \<open>Animation: interpolation\<close>

text \<open>\<open>easingFunctions.easeInOutCubic\<close>, the easing that \<open>CONFIG.animation.easing\<close> names.\<close>

definition easeInOutCubic :: "real \<Rightarrow> real" where
  "easeInOutCubic t =
     (if t < 0.5 then 4 * t * t * t else (t - 1) * (2 * t - 2) * (2 * t - 2) + 1)"

definition lerp :: "real \<Rightarrow> real \<Rightarrow> real \<Rightarrow> real" where
  "lerp a b t = a + (b - a) * t"

definition lerpAngle :: "real \<Rightarrow> real \<Rightarrow> real \<Rightarrow> real" where
  "lerpAngle a b t =
     (let diff = while_lt_neg_pi (while_gt_pi (b - a));
          result = a + diff * t
      in while_lt_neg_pi (while_gt_pi result))"

text \<open>The local \<open>diff\<close> of \<open>lerpAngle\<close> after its two loops.\<close>

definition lerpAngle_diff :: "real \<Rightarrow> real \<Rightarrow> real" where
  "lerpAngle_diff a b = while_lt_neg_pi (while_gt_pi (b - a))"

definition getAnglesAtProgress :: "angles \<Rightarrow> angles \<Rightarrow> real \<Rightarrow> angles" where
  "getAnglesAtProgress startAngles target progress =
     (let easedProgress = easeInOutCubic progress in
      \<lparr>base = lerpAngle (base startAngles) (base target) easedProgress,
       shoulder = lerp (shoulder startAngles) (shoulder target) easedProgress,
       elbow = lerp (elbow startAngles) (elbow target) easedProgress,
       wrist = lerp (wrist startAngles) (wrist target) easedProgress,
       wristRotate = lerpAngle (wristRotate startAngles) (wristRotate target) easedProgress\<rparr>)"

section \<open>The rendered scene\<close>

text \<open>
  The collision code asks the rendering library for world-space geometry: the bounding
  box of a mesh (\<open>new THREE.Box3().setFromObject(mesh)\<close>), the world position and
  orientation of a node of the arm.  That geometry is a function of the scene graph and
  of meshes that are built or loaded outside the code modelled here, so the embedding
  takes it as a parameter, the \<open>world\<close>:
  \<^item> \<open>objectBox\<close> gives the bounding box of a physics object's mesh;
  \<^item> \<open>armPose\<close> gives, for the pivot rotations and the two finger positions, what the
    library reports about the arm: the world positions of the pivots, of the two finger
    tips and of the end-effector marker (\<open>gripperCenter\<close>), the world orientation of the
    gripper group (\<open>gripperQuat\<close>), and the meshes of the arm (\<open>robotArmMeshes\<close>) and of
    the two fingers (\<open>gripperMeshes.left\<close>, \<open>gripperMeshes.right\<close>), each with its name and
    world bounding box;
  \<^item> \<open>random\<close> is the sequence of values that \<open>Math.random()\<close> returns.
\<close>

record mesh =
  mesh_name :: string
  mesh_box :: box3

record arm_pose =
  basePivotPos :: vec3
  elbowPivotPos :: vec3
  wristPivotPos :: vec3
  wristRotatePivotPos :: vec3
  leftTip :: vec3
  rightTip :: vec3
  gripperCenter :: vec3
  gripperQuat :: rotation
  gripperMeshes_left :: "mesh list"
  gripperMeshes_right :: "mesh list"
  robotArmMeshes :: "mesh list"

record world =
  objectBox :: "physics_object \<Rightarrow> box3"
  armPose :: "angles \<Rightarrow> real \<Rightarrow> real \<Rightarrow> arm_pose"
  random :: "nat \<Rightarrow> real"

definition pose_of :: "world \<Rightarrow> sim \<Rightarrow> arm_pose" where
  "pose_of w s = armPose w (pivots s) (leftFingerX s) (rightFingerX s)"

text \<open>
  The bounding box of an object that has not been turned: the cube of its size around
  its position.  The scenarios below use it for \<open>objectBox\<close>.
\<close>

definition uprightBox :: "physics_object \<Rightarrow> box3" where
  "uprightBox obj =
     \<lparr>box_min = v_sub (obj_position obj) (multiplyScalar (obj_size obj) 0.5),
      box_max = v_add (obj_position obj) (multiplyScalar (obj_size obj) 0.5)\<rparr>"

text \<open>A write to one object of the store.\<close>

definition modify :: "nat \<Rightarrow> (physics_object \<Rightarrow> physics_object) \<Rightarrow> sim \<Rightarrow> sim" where
  "modify r f s = s\<lparr>heap := (heap s)(r := f (heap s r))\<rparr>"

text \<open>\<open>String.prototype.toLowerCase\<close> (on ASCII) and \<open>String.prototype.includes\<close>.\<close>

definition toLowerCase :: "string \<Rightarrow> string" where
  "toLowerCase str =
     map (\<lambda>c. if 65 \<le> (of_char c :: nat) \<and> (of_char c :: nat) \<le> 90
              then char_of (of_char c + 32 :: nat) else c) str"

primrec tails :: "'a list \<Rightarrow> 'a list list" where
  "tails [] = [[]]"
| "tails (x # xs) = (x # xs) # tails xs"

definition str_includes :: "string \<Rightarrow> string \<Rightarrow> bool" where
  "str_includes str sub = list_ex (\<lambda>t. take (length sub) t = sub) (tails str)"

section \<open>Collision geometry\<close>

record separation =
  sep_axis :: vec3
  sep_depth :: real

definition computeAABBSeparation :: "box3 \<Rightarrow> box3 \<Rightarrow> separation option" where
  "computeAABBSeparation boxA boxB =
     (let centerA = getCenter boxA;
          centerB = getCenter boxB;
          sizeA = getSize boxA;
          sizeB = getSize boxB;
          diff = v_sub centerB centerA;
          overlapX = (vec_x sizeA + vec_x sizeB) / 2 - \<bar>vec_x diff\<bar>;
          overlapY = (vec_y sizeA + vec_y sizeB) / 2 - \<bar>vec_y diff\<bar>;
          overlapZ = (vec_z sizeA + vec_z sizeB) / 2 - \<bar>vec_z diff\<bar>
      in
      if overlapX \<le> 0 \<or> overlapY \<le> 0 \<or> overlapZ \<le> 0 then None
      else if overlapX \<le> overlapY \<and> overlapX \<le> overlapZ then
        Some \<lparr>sep_axis = Vector3 (if vec_x diff > 0 then 1 else - 1) 0 0, sep_depth = overlapX\<rparr>
      else if overlapY \<le> overlapX \<and> overlapY \<le> overlapZ then
        Some \<lparr>sep_axis = Vector3 0 (if vec_y diff > 0 then 1 else - 1) 0, sep_depth = overlapY\<rparr>
      else
        Some \<lparr>sep_axis = Vector3 0 0 (if vec_z diff > 0 then 1 else - 1), sep_depth = overlapZ\<rparr>)"

text \<open>
  The collision objects that \<open>checkMeshObjectCollision\<close> and \<open>checkArmMeshCollision\<close>
  return; \<open>{ collision: false }\<close> is \<open>None\<close>.  \<open>pushDirection\<close> and \<open>separationAxis\<close> are
  two copies of the same axis.
\<close>

record mesh_collision =
  mc_mesh :: mesh
  mc_penetration :: real
  mc_point :: vec3
  mc_pushDirection :: vec3
  mc_separationAxis :: vec3

text \<open>
  The loop of \<open>checkMeshObjectCollision\<close>, with \<open>bestCollision\<close> and \<open>maxPenetration\<close> as
  the accumulator.
\<close>

primrec checkMeshObjectCollision_loop ::
  "mesh list \<Rightarrow> box3 \<Rightarrow> real \<Rightarrow> mesh_collision option \<times> real \<Rightarrow> mesh_collision option \<times> real"
where
  "checkMeshObjectCollision_loop [] objBox tolerance acc = acc"
| "checkMeshObjectCollision_loop (m # meshes) objBox tolerance acc =
     (let (bestCollision, maxPenetration) = acc;
          meshBox = mesh_box m;
          testBox = (if tolerance > 0 then expandByScalar meshBox tolerance else meshBox)
      in
      checkMeshObjectCollision_loop meshes objBox tolerance
        (if intersectsBox testBox objBox then
           (case computeAABBSeparation meshBox objBox of
              None \<Rightarrow> acc
            | Some separation \<Rightarrow>
                if sep_depth separation > maxPenetration then
                  (Some \<lparr>mc_mesh = m,
                         mc_penetration = sep_depth separation,
                         mc_point = v_add (getCenter meshBox)
                           (multiplyScalar (sep_axis separation)
                              (v_dot (getSize meshBox)
                                 (v_multiply (sep_axis separation) (sep_axis separation)) / 2)),
                         mc_pushDirection = sep_axis separation,
                         mc_separationAxis = sep_axis separation\<rparr>,
                   sep_depth separation)
                else acc)
         else acc))"

definition checkMeshObjectCollision :: "mesh list \<Rightarrow> box3 \<Rightarrow> real \<Rightarrow> mesh_collision option" where
  "checkMeshObjectCollision meshes objBox tolerance =
     (if meshes = [] then None
      else fst (checkMeshObjectCollision_loop meshes objBox tolerance (None, 0)))"

text \<open>
  The result of \<open>checkGripperMeshCollision\<close>.  Its other fields are functions of the two
  collisions: \<open>leftContact\<close> is \<open>leftCollision.collision\<close>, \<open>collision\<close> is either contact,
  \<open>bothContact\<close> both, and \<open>leftPenetration\<close> is \<open>leftCollision.penetration || 0\<close>.
\<close>

record gripper_collision =
  leftCollision :: "mesh_collision option"
  rightCollision :: "mesh_collision option"

definition gc_collision :: "gripper_collision \<Rightarrow> bool" where
  "gc_collision g = (leftCollision g \<noteq> None \<or> rightCollision g \<noteq> None)"

definition gc_leftContact :: "gripper_collision \<Rightarrow> bool" where
  "gc_leftContact g = (leftCollision g \<noteq> None)"

definition gc_rightContact :: "gripper_collision \<Rightarrow> bool" where
  "gc_rightContact g = (rightCollision g \<noteq> None)"

definition gc_bothContact :: "gripper_collision \<Rightarrow> bool" where
  "gc_bothContact g = (leftCollision g \<noteq> None \<and> rightCollision g \<noteq> None)"

definition penetration_or_0 :: "mesh_collision option \<Rightarrow> real" where
  "penetration_or_0 c = (case c of None \<Rightarrow> 0 | Some col \<Rightarrow> mc_penetration col)"

definition checkGripperMeshCollision :: "world \<Rightarrow> sim \<Rightarrow> physics_object \<Rightarrow> gripper_collision" where
  "checkGripperMeshCollision w s obj =
     \<lparr>leftCollision =
        checkMeshObjectCollision (gripperMeshes_left (pose_of w s)) (objectBox w obj) 0,
      rightCollision =
        checkMeshObjectCollision (gripperMeshes_right (pose_of w s)) (objectBox w obj) 0\<rparr>"

text \<open>The meshes that \<open>checkArmMeshCollision\<close> skips, by name.\<close>

definition isGripperMeshName :: "string \<Rightarrow> bool" where
  "isGripperMeshName n =
     (let name = toLowerCase n
      in str_includes name ''left'' \<or> str_includes name ''right'' \<or> str_includes name ''pad'' \<or>
         str_includes name ''finger'' \<or> str_includes name ''claw'' \<or>
         str_includes name ''gripper'')"

primrec checkArmMeshCollision_loop ::
  "mesh list \<Rightarrow> box3 \<Rightarrow> mesh_collision option \<times> real \<Rightarrow> mesh_collision option \<times> real"
where
  "checkArmMeshCollision_loop [] objBox acc = acc"
| "checkArmMeshCollision_loop (m # meshes) objBox acc =
     (let (bestCollision, maxPenetration) = acc;
          meshBox = mesh_box m
      in
      checkArmMeshCollision_loop meshes objBox
        (if isGripperMeshName (mesh_name m) then acc
         else if intersectsBox meshBox objBox then
           (case computeAABBSeparation meshBox objBox of
              None \<Rightarrow> acc
            | Some separation \<Rightarrow>
                if sep_depth separation > maxPenetration then
                  (Some \<lparr>mc_mesh = m,
                         mc_penetration = sep_depth separation,
                         mc_point = getCenter meshBox,
                         mc_pushDirection = sep_axis separation,
                         mc_separationAxis = sep_axis separation\<rparr>,
                   sep_depth separation)
                else acc)
         else acc))"

definition checkArmMeshCollision :: "world \<Rightarrow> sim \<Rightarrow> physics_object \<Rightarrow> mesh_collision option" where
  "checkArmMeshCollision w s obj =
     fst (checkArmMeshCollision_loop (robotArmMeshes (pose_of w s)) (objectBox w obj) (None, 0))"

definition pointToSegmentDistance :: "vec3 \<Rightarrow> vec3 \<Rightarrow> vec3 \<Rightarrow> real" where
  "pointToSegmentDistance point segStart segEnd =
     (let line = v_sub segEnd segStart;
          len = v_length line
      in
      if len < 0.001 then distanceTo point segStart
      else
      let line' = v_normalize line;
          toPoint = v_sub point segStart;
          proj = v_dot toPoint line'
      in
      if proj \<le> 0 then distanceTo point segStart
      else if proj \<ge> len then distanceTo point segEnd
      else distanceTo point (v_add segStart (multiplyScalar line' proj)))"

definition closestPointOnSegment :: "vec3 \<Rightarrow> vec3 \<Rightarrow> vec3 \<Rightarrow> vec3" where
  "closestPointOnSegment point segStart segEnd =
     (let line = v_sub segEnd segStart;
          len = v_length line
      in
      if len < 0.001 then segStart
      else
      let line' = v_normalize line;
          toPoint = v_sub point segStart;
          proj = v_dot toPoint line'
      in
      if proj \<le> 0 then segStart
      else if proj \<ge> len then segEnd
      else v_add segStart (multiplyScalar line' proj))"

text \<open>
  \<open>getArmJointPositions\<close>: the named points of the arm.  The first is the world position
  of the base pivot raised by \<open>baseHeight\<close>.
\<close>

definition getArmJointPositions :: "world \<Rightarrow> sim \<Rightarrow> (string \<times> vec3) list" where
  "getArmJointPositions w s =
     (let p = pose_of w s in
      [(''shoulder'', v_add (basePivotPos p) (Vector3 0 baseHeight 0)),
       (''elbow'', elbowPivotPos p),
       (''wrist'', wristPivotPos p),
       (''gripperBase'', wristRotatePivotPos p),
       (''leftTip'', leftTip p),
       (''rightTip'', rightTip p),
       (''gripperCenter'', gripperCenter p)])"

text \<open>
  \<open>checkArmObjectCollision\<close> (with its default \<open>buffer\<close> of 0, the only value it is called
  with).  The closest contact so far is the accumulator; \<open>closestDist = Infinity\<close> is
  \<open>None\<close>.
\<close>

record segment_collision =
  sc_distance :: real
  sc_segment_name :: string
  sc_segment_radius :: real
  sc_point :: vec3
  sc_penetration :: real

record closest_contact =
  cc_dist :: real
  cc_name :: string
  cc_radius :: real
  cc_point :: vec3

definition closer :: "real \<Rightarrow> closest_contact option \<Rightarrow> bool" where
  "closer distance closest = (case closest of None \<Rightarrow> True | Some c \<Rightarrow> distance < cc_dist c)"

definition armSegments :: "(string \<times> string \<times> real \<times> string) list" where
  "armSegments =
     [(''shoulder'', ''elbow'', 0.08, ''upper arm''),
      (''elbow'', ''wrist'', 0.06, ''lower arm''),
      (''wrist'', ''gripperBase'', 0.05, ''wrist''),
      (''gripperBase'', ''gripperCenter'', 0.04, ''gripper'')]"

definition jointRadii :: "(string \<times> real) list" where
  "jointRadii = [(''elbow'', 0.2), (''wrist'', 0.15)]"

primrec segments_loop ::
  "(string \<times> string \<times> real \<times> string) list \<Rightarrow> (string \<rightharpoonup> vec3) \<Rightarrow> vec3 \<Rightarrow> real \<Rightarrow> real
     \<Rightarrow> closest_contact option \<Rightarrow> closest_contact option"
where
  "segments_loop [] posLookup objPos radius buffer closest = closest"
| "segments_loop (seg # segs) posLookup objPos radius buffer closest =
     (let (start, end', segRadius, name) = seg in
      segments_loop segs posLookup objPos radius buffer
        (case (posLookup start, posLookup end') of
           (Some startPos, Some endPos) \<Rightarrow>
             (let distance = pointToSegmentDistance objPos startPos endPos;
                  collisionThreshold = radius + segRadius + buffer
              in if distance < collisionThreshold \<and> closer distance closest
                 then Some \<lparr>cc_dist = distance, cc_name = name, cc_radius = segRadius,
                            cc_point = closestPointOnSegment objPos startPos endPos\<rparr>
                 else closest)
         | _ \<Rightarrow> closest))"

primrec joints_loop ::
  "(string \<times> real) list \<Rightarrow> (string \<rightharpoonup> vec3) \<Rightarrow> vec3 \<Rightarrow> real
     \<Rightarrow> closest_contact option \<Rightarrow> closest_contact option"
where
  "joints_loop [] posLookup objPos radius closest = closest"
| "joints_loop (j # js) posLookup objPos radius closest =
     (let (jointName, jointRadius) = j in
      joints_loop js posLookup objPos radius
        (case posLookup jointName of
           Some jointPos \<Rightarrow>
             (let distance = distanceTo jointPos objPos;
                  collisionThreshold = radius + jointRadius
              in if distance < collisionThreshold \<and> closer distance closest
                 then Some \<lparr>cc_dist = distance, cc_name = jointName @ '' joint'',
                            cc_radius = jointRadius, cc_point = jointPos\<rparr>
                 else closest)
         | None \<Rightarrow> closest))"

definition checkArmObjectCollision :: "world \<Rightarrow> sim \<Rightarrow> physics_object \<Rightarrow> segment_collision option" where
  "checkArmObjectCollision w s obj =
     (let positions = getArmJointPositions w s;
          objPos = obj_position obj;
          radius = getRadius obj;
          posLookup = map_of (rev positions);
          closest = joints_loop jointRadii posLookup objPos radius
                      (segments_loop armSegments posLookup objPos radius 0 None)
      in
      case closest of
        Some c \<Rightarrow>
          Some \<lparr>sc_distance = cc_dist c, sc_segment_name = cc_name c,
                 sc_segment_radius = cc_radius c, sc_point = cc_point c,
                 sc_penetration = (radius + cc_radius c) - cc_dist c\<rparr>
      | None \<Rightarrow> None)"

section \<open>The gripper and the objects\<close>

text \<open>
  The gripper's frame: the world position of the end-effector marker
  (\<open>getGripperCenter\<close>) and the three local axes of the gripper group in world space.
\<close>

definition gripperXAxis :: "arm_pose \<Rightarrow> vec3" where
  "gripperXAxis p = applyQuaternion (Vector3 1 0 0) (gripperQuat p)"

definition gripperYAxis :: "arm_pose \<Rightarrow> vec3" where
  "gripperYAxis p = applyQuaternion (Vector3 0 1 0) (gripperQuat p)"

definition gripperZAxis :: "arm_pose \<Rightarrow> vec3" where
  "gripperZAxis p = applyQuaternion (Vector3 0 0 1) (gripperQuat p)"

definition isObjectInGripZone :: "world \<Rightarrow> sim \<Rightarrow> physics_object \<Rightarrow> bool" where
  "isObjectInGripZone w s obj =
     (let objPos = obj_position obj;
          radius = getRadius obj;
          halfHeight = getHalfHeight obj;
          p = pose_of w s;
          relPos = v_sub objPos (gripperCenter p);
          objX = v_dot relPos (gripperXAxis p);
          objY = v_dot relPos (gripperYAxis p);
          objZ = v_dot relPos (gripperZAxis p);
          minOffset = 0.03;
          maxOffset = 0.12;
          clampLength = gripperLength;
          gripperDepth = 0.10;
          currentOffset = minOffset + (maxOffset - minOffset) * (gripperOpenness s / 100);
          maxCenterOffset = currentOffset * 0.5;
          isCentered = (\<bar>objX\<bar> < maxCenterOffset);
          objectDiameter = radius * 2;
          minGripWidth = minOffset * 1.8;
          maxGripWidth = maxOffset * 2;
          fitsInGripper = (objectDiameter \<ge> minGripWidth * 0.3 \<and> objectDiameter \<le> maxGripWidth * 0.9);
          fingerTolerance = halfHeight * 0.5;
          inYRange = (objY > - clampLength - fingerTolerance \<and> objY < halfHeight + fingerTolerance);
          depthTolerance = radius * 0.5;
          inZRange = (\<bar>objZ\<bar> < gripperDepth + depthTolerance);
          objLeftEdge = objX - radius;
          objRightEdge = objX + radius;
          leftFingerPos = - currentOffset;
          rightFingerPos = currentOffset;
          betweenFingers = (objLeftEdge > leftFingerPos - 0.01 \<and> objRightEdge < rightFingerPos + 0.01)
      in isCentered \<and> fitsInGripper \<and> inYRange \<and> inZRange \<and> betweenFingers)"

text \<open>
  The result of \<open>checkGripperFingerCollision\<close>; the early return leaves \<open>inGripZone\<close>
  undefined, which the caller reads as false.
\<close>

record finger_collision =
  fc_collision :: bool
  fc_minOpenness :: real
  fc_leftContact :: bool
  fc_rightContact :: bool
  fc_bothContact :: bool
  fc_inGripZone :: bool

definition checkGripperFingerCollision :: "world \<Rightarrow> sim \<Rightarrow> physics_object \<Rightarrow> finger_collision" where
  "checkGripperFingerCollision w s obj =
     (let objPos = obj_position obj;
          radius = getRadius obj;
          halfHeight = getHalfHeight obj;
          p = pose_of w s;
          relPos = v_sub objPos (gripperCenter p);
          objX = v_dot relPos (gripperXAxis p);
          objY = v_dot relPos (gripperYAxis p);
          objZ = v_dot relPos (gripperZAxis p);
          clampLength = gripperLength;
          clampDepth = 0.15;
          padInnerOffset = 0.01;
          minOffset = 0.03;
          maxOffset = 0.12;
          currentOffset = minOffset + (maxOffset - minOffset) * (gripperOpenness s / 100);
          leftFingerInnerX = - currentOffset + padInnerOffset;
          rightFingerInnerX = currentOffset - padInnerOffset;
          objLeftEdge = objX - radius;
          objRightEdge = objX + radius;
          objTopY = objY - halfHeight;
          objBottomY = objY + halfHeight;
          inYRange = (objBottomY > - clampLength \<and> objTopY < 0);
          inZRange = (\<bar>objZ\<bar> < clampDepth / 2 + radius);
          maxLeftFingerInnerX = - maxOffset + padInnerOffset;
          maxRightFingerInnerX = maxOffset - padInnerOffset;
          inXRange = (objLeftEdge < maxRightFingerInnerX \<and> objRightEdge > maxLeftFingerInnerX)
      in
      if \<not> inYRange \<or> \<not> inZRange \<or> \<not> inXRange then
        \<lparr>fc_collision = False, fc_minOpenness = 0, fc_leftContact = False,
         fc_rightContact = False, fc_bothContact = False, fc_inGripZone = False\<rparr>
      else
      let requiredOffsetForLeft = padInnerOffset - objLeftEdge;
          requiredOffsetForRight = objRightEdge + padInnerOffset;
          requiredOffset = max requiredOffsetForLeft requiredOffsetForRight;
          minOpenness = max 0 (min 100 ((requiredOffset - minOffset) / (maxOffset - minOffset) * 100));
          contactThreshold = 0.02;
          leftContact = (leftFingerInnerX \<ge> objLeftEdge - contactThreshold \<and>
                         leftFingerInnerX \<le> objRightEdge + contactThreshold);
          rightContact = (rightFingerInnerX \<le> objRightEdge + contactThreshold \<and>
                          rightFingerInnerX \<ge> objLeftEdge - contactThreshold)
      in
        \<lparr>fc_collision = (minOpenness > gripperOpenness s), fc_minOpenness = minOpenness,
         fc_leftContact = leftContact, fc_rightContact = rightContact,
         fc_bothContact = (leftContact \<and> rightContact),
         fc_inGripZone = (inYRange \<and> inZRange \<and> inXRange)\<rparr>)"

subsection \<open>Blocking contacts\<close>

text \<open>
  The result of \<open>checkArmCollisionWithBlockedObject\<close>: \<open>None\<close> is
  \<open>{ collision: false, object: null }\<close>; otherwise the blocking object, the name of the
  part in contact and the penetration.
\<close>

record blocked =
  blk_object :: nat
  blk_segment :: string
  blk_penetration :: real

text \<open>The inner loop over \<open>[leftCol, rightCol]\<close>: the first contact that blocks.\<close>

primrec firstBlockingFinger :: "mesh_collision option list \<Rightarrow> mesh_collision option" where
  "firstBlockingFinger [] = None"
| "firstBlockingFinger (col # cols) =
     (case col of
        Some c \<Rightarrow>
          if vec_y (mc_separationAxis c) < - 0.95 \<and> mc_penetration c > 0.02 then Some c
          else firstBlockingFinger cols
      | None \<Rightarrow> firstBlockingFinger cols)"

text \<open>One turn of the loop over \<open>sceneObjects\<close>: \<open>Some\<close> when the turn returns.\<close>

definition checkBlockedObject :: "world \<Rightarrow> sim \<Rightarrow> nat \<Rightarrow> blocked option" where
  "checkBlockedObject w s r =
     (let obj = heap s r in
      if isGripped obj then None
      else
      let objPos = obj_position obj;
          halfHeight = getHalfHeight obj;
          floorTolerance = 0.03;
          onFloor = (vec_y objPos \<le> halfHeight + floorTolerance)
      in
      if \<not> onFloor then None
      else if isObjectInGripZone w s obj then None
      else
      let gripperCol = checkGripperMeshCollision w s obj in
      case (if gc_collision gripperCol
            then firstBlockingFinger [leftCollision gripperCol, rightCollision gripperCol]
            else None) of
        Some col \<Rightarrow>
          Some \<lparr>blk_object = r, blk_segment = ''gripper'', blk_penetration = mc_penetration col\<rparr>
      | None \<Rightarrow>
          (case checkArmMeshCollision w s obj of
             Some armCol \<Rightarrow>
               if mc_penetration armCol > 0.02 \<and> vec_y (mc_separationAxis armCol) < - 0.95
               then Some \<lparr>blk_object = r,
                          blk_segment = (if mesh_name (mc_mesh armCol) = [] then ''arm''
                                         else mesh_name (mc_mesh armCol)),
                          blk_penetration = mc_penetration armCol\<rparr>
               else None
           | None \<Rightarrow> None))"

primrec checkBlocked_loop :: "world \<Rightarrow> sim \<Rightarrow> nat list \<Rightarrow> blocked option" where
  "checkBlocked_loop w s [] = None"
| "checkBlocked_loop w s (r # rs) =
     (case checkBlockedObject w s r of
        Some b \<Rightarrow> Some b
      | None \<Rightarrow> checkBlocked_loop w s rs)"

definition checkArmCollisionWithBlockedObject :: "world \<Rightarrow> sim \<Rightarrow> blocked option" where
  "checkArmCollisionWithBlockedObject w s = checkBlocked_loop w s (sceneObjects s)"

subsection \<open>Pushing\<close>

record push_force =
  pf_direction :: vec3
  pf_penetration :: real
  pf_source :: string

text \<open>The helper \<open>addPushForce\<close>, a closure over \<open>onFloor\<close> and \<open>pushForces\<close>.\<close>

definition addPushForce ::
  "bool \<Rightarrow> vec3 \<Rightarrow> real \<Rightarrow> string \<Rightarrow> push_force list \<Rightarrow> push_force list" where
  "addPushForce onFloor direction penetration source pushForces =
     (if penetration < 0.001 then pushForces
      else
      let dir = (if onFloor \<and> vec_y direction < 0 then set_y direction 0 else direction)
      in if lengthSq dir > 0.0001
         then pushForces @ [\<lparr>pf_direction = v_normalize dir, pf_penetration = penetration,
                               pf_source = source\<rparr>]
         else pushForces)"

text \<open>The forces that one object collects in \<open>pushObjectsFromArm\<close>.\<close>

definition collectPushForces :: "world \<Rightarrow> sim \<Rightarrow> physics_object \<Rightarrow> push_force list" where
  "collectPushForces w s obj =
     (let objPos = obj_position obj;
          halfHeight = getHalfHeight obj;
          floorTolerance = 0.03;
          onFloor = (vec_y objPos \<le> halfHeight + floorTolerance);
          inGripZone = isObjectInGripZone w s obj;
          gripperCol = checkGripperMeshCollision w s obj;
          isActiveGrip = (inGripZone \<and> gc_bothContact gripperCol);
          forces1 =
            (if gc_collision gripperCol \<and> \<not> isActiveGrip then
               (let fl = (case leftCollision gripperCol of
                            Some c \<Rightarrow> addPushForce onFloor (mc_pushDirection c)
                                        (penetration_or_0 (leftCollision gripperCol))
                                        ''left_finger'' []
                          | None \<Rightarrow> [])
                in case rightCollision gripperCol of
                     Some c \<Rightarrow> addPushForce onFloor (mc_pushDirection c)
                                 (penetration_or_0 (rightCollision gripperCol))
                                 ''right_finger'' fl
                   | None \<Rightarrow> fl)
             else []);
          forces2 =
            (case checkArmMeshCollision w s obj of
               Some armMeshCol \<Rightarrow>
                 addPushForce onFloor (mc_pushDirection armMeshCol) (mc_penetration armMeshCol)
                   (if mesh_name (mc_mesh armMeshCol) = [] then ''arm''
                    else mesh_name (mc_mesh armMeshCol))
                   forces1
             | None \<Rightarrow> forces1)
      in
      case checkArmObjectCollision w s obj of
        Some armSegCol \<Rightarrow>
          (let isGripperSeg = (sc_segment_name armSegCol = ''gripper'') in
           if \<not> (isGripperSeg \<and> inGripZone) then
             addPushForce onFloor (v_sub objPos (sc_point armSegCol)) (sc_penetration armSegCol)
               (if sc_segment_name armSegCol = [] then ''segment'' else sc_segment_name armSegCol)
               forces2
           else forces2)
      | None \<Rightarrow> forces2)"

text \<open>One turn of the loop of \<open>pushObjectsFromArm\<close>.\<close>

definition pushObject :: "world \<Rightarrow> nat \<Rightarrow> sim \<Rightarrow> sim" where
  "pushObject w r s =
     (let obj = heap s r in
      if isGripped obj then s
      else
      let halfHeight = getHalfHeight obj;
          pushForces = collectPushForces w s obj
      in
      if length pushForces > 0 then
        (let combinedPush = foldl (\<lambda>acc force.
                 v_add acc (multiplyScalar (pf_direction force) (pf_penetration force)))
               (Vector3 0 0 0) pushForces;
             totalWeight = foldl (\<lambda>acc force. acc + pf_penetration force) 0 pushForces;
             maxPenetration = foldl (\<lambda>acc force. max acc (pf_penetration force)) 0 pushForces;
             s1 =
               (if totalWeight > 0 \<and> lengthSq combinedPush > 0.0001 then
                  (let combined = v_normalize combinedPush;
                       separationStrength = max (maxPenetration * 4.0) 0.02;
                       impulseStrength = min (maxPenetration * 20) 5.0;
                       s' = modify r (\<lambda>ob.
                              ob\<lparr>obj_position := v_add (obj_position ob)
                                    (multiplyScalar combined separationStrength),
                                velocity := v_add (velocity ob)
                                    (multiplyScalar combined impulseStrength)\<rparr>) s
                   in
                   if maxPenetration > 0.005 then
                     (modify r (\<lambda>ob.
                        ob\<lparr>velocity :=
                            set_z (set_x (velocity ob)
                                     (vec_x (velocity ob) + (random w (randomIndex s) - 0.5) * 0.2))
                                  (vec_z (velocity ob)
                                     + (random w (randomIndex s + 1) - 0.5) * 0.2)\<rparr>) s')
                       \<lparr>randomIndex := randomIndex s + 2\<rparr>
                   else s')
                else s)
         in
         if vec_y (obj_position (heap s1 r)) < halfHeight then
           modify r (\<lambda>ob.
             ob\<lparr>obj_position := set_y (obj_position ob) halfHeight,
               velocity := (if vec_y (velocity ob) < 0 then set_y (velocity ob) 0
                            else velocity ob)\<rparr>) s1
         else s1)
      else s)"

definition pushObjectsFromArm :: "world \<Rightarrow> sim \<Rightarrow> sim" where
  "pushObjectsFromArm w s = foldl (\<lambda>st r. pushObject w r st) s (sceneObjects s)"

subsection \<open>Creating and removing objects\<close>

text \<open>The decimal digits of a number, as template literals print it.\<close>

function natToString :: "nat \<Rightarrow> string" where
  "natToString n =
     (if n < 10 then [char_of (48 + n)]
      else natToString (n div 10) @ [char_of (48 + n mod 10)])"
  by pat_completeness auto
termination
  by (relation "measure (\<lambda>n. n)") auto

declare natToString.simps [simp del]

text \<open>
  \<open>createObject\<close>.  The three shapes get the same bounding size; the mesh, its geometry,
  material and colour belong to the rendering.  The new object takes the next unused
  reference of the store; the function returns that reference with the new state.
\<close>

definition createObject :: "string \<Rightarrow> real \<Rightarrow> real \<Rightarrow> real \<Rightarrow> real \<Rightarrow> sim \<Rightarrow> nat \<times> sim" where
  "createObject type' x y z sizeMm s =
     (let posX = x / 100;
          posY = z / 100;
          posZ = y / 100;
          objectSize = sizeMm / 1000;
          size = Vector3 objectSize objectSize objectSize;
          type'' = (if type' = ''cylinder'' then ''cylinder''
                    else if type' = ''sphere'' then ''sphere'' else ''cube'');
          halfHeight = vec_y size / 2;
          counter = objectCounter s + 1;
          name = type'' @ ''_'' @ natToString counter;
          physicsObj =
            \<lparr>obj_position = Vector3 posX (max posY halfHeight) posZ,
             obj_quaternion = identity_rotation, obj_type = type'', obj_size = size,
             obj_name = name, velocity = Vector3 0 0 0, isGripped = False,
             grippedOffset = None, grippedRotation = None\<rparr>;
          r = nextRef s
      in (r, s\<lparr>heap := (heap s)(r := physicsObj),
               sceneObjects := sceneObjects s @ [r],
               objectCounter := counter,
               nextRef := r + 1\<rparr>))"

text \<open>
  \<open>removeObject\<close>: \<open>indexOf\<close> and \<open>splice\<close> take the first occurrence.  What follows in the
  source (the shrinking of the mesh and its disposal) belongs to the rendering.
\<close>

definition removeObject :: "nat \<Rightarrow> sim \<Rightarrow> sim" where
  "removeObject obj s =
     (if obj \<notin> set (sceneObjects s) then s
      else s\<lparr>grippedObject := (if grippedObject s = Some obj then None else grippedObject s),
             sceneObjects := remove1 obj (sceneObjects s)\<rparr>)"

function removeAllObjects_loop :: "sim \<Rightarrow> sim" where
  "removeAllObjects_loop s =
     (case sceneObjects s of
        [] \<Rightarrow> s
      | r # _ \<Rightarrow> removeAllObjects_loop (removeObject r s))"
  by pat_completeness auto
termination
  by (relation "measure (\<lambda>s. length (sceneObjects s))") (auto simp add: removeObject_def)

declare removeAllObjects_loop.simps [simp del]

definition removeAllObjects :: "sim \<Rightarrow> sim" where
  "removeAllObjects s = (removeAllObjects_loop s)\<lparr>objectCounter := 0\<rparr>"

subsection \<open>Gripping and releasing\<close>

definition gripObject :: "world \<Rightarrow> nat \<Rightarrow> sim \<Rightarrow> sim" where
  "gripObject w obj s =
     (if isGripped (heap s obj) \<or> grippedObject s \<noteq> None then s
      else
      let p = pose_of w s;
          gripperQuatInv = invert (gripperQuat p);
          worldOffset = v_sub (obj_position (heap s obj)) (gripperCenter p);
          s1 = (modify obj (\<lambda>ob.
                  ob\<lparr>isGripped := True,
                    grippedOffset := Some (applyQuaternion worldOffset gripperQuatInv),
                    grippedRotation := Some (q_multiply gripperQuatInv (obj_quaternion ob)),
                    velocity := Vector3 0 0 0\<rparr>) s)
                \<lparr>grippedObject := Some obj\<rparr>;
          objectWidth = getRadius (heap s obj) * 2;
          minOffset = 0.03;
          maxOffset = 0.12;
          fingerPadding = 0.015;
          targetOffset = objectWidth / 2 + fingerPadding;
          finalOpenness = ((targetOffset - minOffset) / (maxOffset - minOffset)) * 100
      in terminal_print (''Gripped '' @ obj_name (heap s obj)) ''success''
           (s1\<lparr>targetGripperOpenness := max 5 (min 100 finalOpenness),
               gripperAnimating := True\<rparr>))"

definition releaseObject :: "sim \<Rightarrow> sim" where
  "releaseObject s =
     (case grippedObject s of
        None \<Rightarrow> s
      | Some obj \<Rightarrow>
          terminal_print (''Released '' @ obj_name (heap s obj)) ''info''
            (modify obj (\<lambda>ob.
               ob\<lparr>isGripped := False, grippedOffset := None, grippedRotation := None,
                 velocity := Vector3 0 (- 0.5) 0\<rparr>)
               (s\<lparr>grippedObject := None\<rparr>)))"

text \<open>
  \<open>updateGrippedObjectPosition\<close>.  The stored offset and the stored orientation are set
  and cleared together; were the orientation missing, the source would fail on it, and
  the embedding leaves the orientation of the object as it is.
\<close>

definition updateGrippedObjectPosition :: "world \<Rightarrow> nat \<Rightarrow> sim \<Rightarrow> sim" where
  "updateGrippedObjectPosition w r s =
     (let obj = heap s r in
      case grippedOffset obj of
        None \<Rightarrow> s
      | Some offset \<Rightarrow>
          if \<not> isGripped obj then s
          else
          let p = pose_of w s;
              rotatedOffset = applyQuaternion offset (gripperQuat p)
          in modify r (\<lambda>ob.
               ob\<lparr>obj_position := v_add (gripperCenter p) rotatedOffset,
                 obj_quaternion := (case grippedRotation ob of
                                      Some q \<Rightarrow> q_multiply (gripperQuat p) q
                                    | None \<Rightarrow> obj_quaternion ob)\<rparr>) s)"

text \<open>\<open>applyGripperOpenness\<close>, for an arm that has its two fingers.\<close>

definition applyGripperOpenness :: "sim \<Rightarrow> sim" where
  "applyGripperOpenness s =
     (let minOffset = 0.03;
          maxOffset = 0.12;
          offset = minOffset + (maxOffset - minOffset) * (gripperOpenness s / 100)
      in s\<lparr>leftFingerX := - offset, rightFingerX := offset\<rparr>)"

definition setGripperOpenness :: "real \<Rightarrow> bool \<Rightarrow> sim \<Rightarrow> sim" where
  "setGripperOpenness percent animated s =
     (let clampedPercent = max 0 (min 100 percent);
          s1 = (if grippedObject s \<noteq> None \<and> clampedPercent > gripperOpenness s + 1
                then releaseObject s else s)
      in
      if animated then
        s1\<lparr>targetGripperOpenness := clampedPercent, gripperAnimating := True\<rparr>
      else
        applyGripperOpenness
          (s1\<lparr>gripperOpenness := clampedPercent, targetGripperOpenness := clampedPercent,
              gripperAnimating := False\<rparr>))"

section \<open>Physics\<close>

subsection \<open>Collisions between objects\<close>

text \<open>
  The body of the two inner loops of \<open>resolveObjectCollisions\<close>, for one pair of objects
  in pass \<open>iter\<close>, in the four parts the source marks by its comments: how the correction
  is split, the correction of the two positions (written in place, then kept above the
  floor), the velocity impulse, and the friction of a stack.
\<close>

definition correctionRatios :: "vec3 \<Rightarrow> bool \<Rightarrow> bool \<Rightarrow> real \<times> real" where
  "correctionRatios normal aOnFloor bOnFloor =
     (if \<bar>vec_y normal\<bar> > 0.7 then
        (if vec_y normal > 0
         then (if aOnFloor then 0 else 0.2, if aOnFloor then 1 else 0.8)
         else (if bOnFloor then 1 else 0.8, if bOnFloor then 0 else 0.2))
      else if aOnFloor \<and> \<not> bOnFloor then (0.3, 0.7)
      else if \<not> aOnFloor \<and> bOnFloor then (0.7, 0.3)
      else (0.5, 0.5))"

definition keepAboveFloor :: "nat \<Rightarrow> real \<Rightarrow> sim \<Rightarrow> sim" where
  "keepAboveFloor r halfHeight s =
     (if vec_y (obj_position (heap s r)) < halfHeight
      then modify r (\<lambda>ob. ob\<lparr>obj_position := set_y (obj_position ob) halfHeight\<rparr>) s
      else s)"

definition correctPositions ::
  "nat \<Rightarrow> nat \<Rightarrow> vec3 \<Rightarrow> vec3 \<Rightarrow> real \<Rightarrow> real \<Rightarrow> sim \<Rightarrow> sim" where
  "correctPositions a b correctionA correctionB halfHeightA halfHeightB s =
     keepAboveFloor b halfHeightB
       (keepAboveFloor a halfHeightA
          (modify b (\<lambda>ob. ob\<lparr>obj_position := v_add (obj_position ob) correctionB\<rparr>)
             (modify a (\<lambda>ob. ob\<lparr>obj_position := v_add (obj_position ob) correctionA\<rparr>) s)))"

definition applyImpulse :: "nat \<Rightarrow> nat \<Rightarrow> vec3 \<Rightarrow> real \<Rightarrow> real \<Rightarrow> sim \<Rightarrow> sim" where
  "applyImpulse a b normal ratioA ratioB s =
     (let restitution = 0.25;
          relVel = v_sub (velocity (heap s b)) (velocity (heap s a));
          velAlongNormal = v_dot relVel normal
      in
      if velAlongNormal < 0 then
        (let impulse = - (1 + restitution) * velAlongNormal;
             impulseA = multiplyScalar normal (- impulse * ratioA);
             impulseB = multiplyScalar normal (impulse * ratioB)
         in modify b (\<lambda>ob. ob\<lparr>velocity := v_add (velocity ob) impulseB\<rparr>)
              (modify a (\<lambda>ob. ob\<lparr>velocity := v_add (velocity ob) impulseA\<rparr>) s))
      else s)"

definition stackFriction :: "nat \<Rightarrow> nat \<Rightarrow> sim \<Rightarrow> sim" where
  "stackFriction a b s =
     (let topObj = (if vec_y (obj_position (heap s a)) > vec_y (obj_position (heap s b))
                    then a else b);
          friction = 0.6;
          s1 = modify topObj (\<lambda>ob.
                 ob\<lparr>velocity := set_z (set_x (velocity ob) (vec_x (velocity ob) * friction))
                                   (vec_z (velocity ob) * friction)\<rparr>) s
      in
      if \<bar>vec_y (velocity (heap s1 topObj))\<bar> < 0.3
      then modify topObj (\<lambda>ob.
             ob\<lparr>velocity := set_y (velocity ob) (vec_y (velocity ob) * 0.3)\<rparr>) s1
      else s1)"

definition resolvePair :: "world \<Rightarrow> nat \<Rightarrow> nat \<Rightarrow> nat \<Rightarrow> sim \<Rightarrow> sim" where
  "resolvePair w iter a b s =
     (let biasFactor = 0.3;
          slop = 0.001;
          objA = heap s a;
          objB = heap s b
      in
      if isGripped objA \<or> isGripped objB then s
      else
      let boxA = objectBox w objA;
          boxB = objectBox w objB
      in
      if \<not> intersectsBox boxA boxB then s
      else
      case computeAABBSeparation boxA boxB of
        None \<Rightarrow> s
      | Some separation \<Rightarrow>
          if sep_depth separation < slop then s
          else
          let halfHeightA = getHalfHeight objA;
              halfHeightB = getHalfHeight objB;
              aOnFloor = (vec_y (obj_position objA) \<le> halfHeightA + 0.02);
              bOnFloor = (vec_y (obj_position objB) \<le> halfHeightB + 0.02);
              normal = sep_axis separation;
              penetration = sep_depth separation;
              correctionMagnitude = max (penetration - slop) 0 * biasFactor;
              (ratioA, ratioB) = correctionRatios normal aOnFloor bOnFloor;
              correctionA = multiplyScalar normal (- correctionMagnitude * ratioA);
              correctionB = multiplyScalar normal (correctionMagnitude * ratioB);
              s1 = correctPositions a b correctionA correctionB halfHeightA halfHeightB s
          in
          if iter = 0 then
            (let s2 = applyImpulse a b normal ratioA ratioB s1
             in if \<bar>vec_y normal\<bar> > 0.7 then stackFriction a b s2 else s2)
          else s1)"

text \<open>The pairs \<open>(sceneObjects[i], sceneObjects[j])\<close> with \<open>i < j\<close>, in the order of the loops.\<close>

primrec objectPairs :: "nat list \<Rightarrow> (nat \<times> nat) list" where
  "objectPairs [] = []"
| "objectPairs (a # rest) = map (Pair a) rest @ objectPairs rest"

definition resolvePass :: "world \<Rightarrow> nat \<Rightarrow> sim \<Rightarrow> sim" where
  "resolvePass w iter s =
     foldl (\<lambda>st (a, b). resolvePair w iter a b st) s (objectPairs (sceneObjects s))"

definition resolveObjectCollisions :: "world \<Rightarrow> sim \<Rightarrow> sim" where
  "resolveObjectCollisions w s =
     (let iterations = 5 :: nat
      in foldl (\<lambda>st iter. resolvePass w iter st) s [0..<iterations])"

subsection \<open>Integration\<close>

text \<open>
  What \<open>updatePhysics\<close> does to one object that is not gripped, in one sub-step of
  length \<open>dt\<close>.
\<close>

definition integrateObject :: "real \<Rightarrow> physics_object \<Rightarrow> physics_object" where
  "integrateObject dt obj =
     (let GRAVITY = 9.8;
          FLOOR_BOUNCE = 0.2;
          FLOOR_FRICTION = 6.0;
          AIR_RESISTANCE = 0.5;
          LINEAR_DAMPING = 0.995;
          VELOCITY_THRESHOLD = 0.002;
          halfHeight = getHalfHeight obj;
          v1 = set_y (velocity obj) (vec_y (velocity obj) - GRAVITY * dt);
          speed = v_length v1;
          v2 = (if speed > 0.01 then
                  (let dragDecel = AIR_RESISTANCE * speed * dt;
                       dragFactor = max 0.9 (1 - dragDecel / speed)
                   in multiplyScalar v1 dragFactor)
                else v1);
          v3 = multiplyScalar v2 LINEAR_DAMPING;
          pos1 = Vector3 (vec_x (obj_position obj) + vec_x v3 * dt)
                         (vec_y (obj_position obj) + vec_y v3 * dt)
                         (vec_z (obj_position obj) + vec_z v3 * dt);
          (pos2, v4) =
            (if vec_y pos1 < halfHeight then
               (let impactVelocity = vec_y v3 in
                if impactVelocity < - 0.1 then
                  (let impactFriction = min 0.9 (0.7 + \<bar>impactVelocity\<bar> * 0.05)
                   in (set_y pos1 halfHeight,
                       Vector3 (vec_x v3 * impactFriction) (- impactVelocity * FLOOR_BOUNCE)
                               (vec_z v3 * impactFriction)))
                else
                  (let frictionFactor = exp (- FLOOR_FRICTION * dt)
                   in (set_y pos1 halfHeight,
                       Vector3 (vec_x v3 * frictionFactor) 0 (vec_z v3 * frictionFactor))))
             else (pos1, v3));
          v5 = Vector3 (if \<bar>vec_x v4\<bar> < VELOCITY_THRESHOLD then 0 else vec_x v4)
                       (if \<bar>vec_y v4\<bar> < VELOCITY_THRESHOLD then 0 else vec_y v4)
                       (if \<bar>vec_z v4\<bar> < VELOCITY_THRESHOLD then 0 else vec_z v4);
          maxVelocity = 10.0;
          v6 = (if v_length v5 > maxVelocity then multiplyScalar (v_normalize v5) maxVelocity
                else v5)
      in obj\<lparr>obj_position := pos2, velocity := v6\<rparr>)"

definition physicsObjectStep :: "world \<Rightarrow> real \<Rightarrow> nat \<Rightarrow> sim \<Rightarrow> sim" where
  "physicsObjectStep w dt r s =
     (if isGripped (heap s r) then updateGrippedObjectPosition w r s
      else modify r (integrateObject dt) s)"

definition physicsSubstep :: "world \<Rightarrow> real \<Rightarrow> sim \<Rightarrow> sim" where
  "physicsSubstep w dt s =
     resolveObjectCollisions w (foldl (\<lambda>st r. physicsObjectStep w dt r st) s (sceneObjects s))"

text \<open>
  \<open>updatePhysics\<close>.  The loop runs \<open>substeps\<close> times, or not at all when \<open>substeps\<close> is
  not positive; \<open>dt\<close> is only used inside the loop.
\<close>

definition updatePhysics :: "world \<Rightarrow> real \<Rightarrow> sim \<Rightarrow> sim" where
  "updatePhysics w deltaTime s =
     (let maxDeltaTime = 0.02;
          substeps = \<lceil>deltaTime / maxDeltaTime\<rceil>;
          dt = deltaTime / real_of_int substeps;
          s1 = ((physicsSubstep w dt) ^^ (nat substeps)) s
      in if \<not> isAnimating s1 then pushObjectsFromArm w s1 else s1)"

section \<open>The gripper animation\<close>

text \<open>
  The push of an object that only one finger touches, in \<open>updateGripperAnimation\<close>.
\<close>

definition fingerPush :: "world \<Rightarrow> nat \<Rightarrow> bool \<Rightarrow> gripper_collision \<Rightarrow> sim \<Rightarrow> sim" where
  "fingerPush w r leftOnly meshCollision s =
     (let axis = gripperXAxis (pose_of w s);
          pushDir = set_y (if leftOnly then axis else multiplyScalar axis (- 1)) 0
      in
      if lengthSq pushDir > 0.001 then
        (let pushDir' = v_normalize pushDir;
             leftPenetration = penetration_or_0 (leftCollision meshCollision);
             rightPenetration = penetration_or_0 (rightCollision meshCollision);
             penetration = (if leftPenetration \<noteq> 0 then leftPenetration
                            else if rightPenetration \<noteq> 0 then rightPenetration else 0.01);
             halfHeight = getHalfHeight (heap s r)
         in keepAboveFloor r halfHeight
              (modify r (\<lambda>ob.
                 ob\<lparr>obj_position := v_add (obj_position ob)
                       (multiplyScalar pushDir' (max (penetration * 2) 0.01)),
                    velocity := v_add (velocity ob) (multiplyScalar pushDir' 0.5)\<rparr>) s))
      else s)"

text \<open>
  One turn of the loop of \<open>updateGripperAnimation\<close> over the objects; the boolean tells
  whether the turn ends the loop (\<open>break\<close>).
\<close>

definition gripperLoopBody :: "world \<Rightarrow> nat \<Rightarrow> sim \<Rightarrow> sim \<times> bool" where
  "gripperLoopBody w r s =
     (let obj = heap s r in
      if isGripped obj then (s, False)
      else
      let geoCollision = checkGripperFingerCollision w s obj;
          meshCollision = checkGripperMeshCollision w s obj;
          bothContact = (gc_bothContact meshCollision \<or> fc_bothContact geoCollision);
          leftOnly = ((gc_leftContact meshCollision \<or> fc_leftContact geoCollision) \<and>
                      \<not> (gc_rightContact meshCollision \<or> fc_rightContact geoCollision));
          rightOnly = ((gc_rightContact meshCollision \<or> fc_rightContact geoCollision) \<and>
                       \<not> (gc_leftContact meshCollision \<or> fc_leftContact geoCollision))
      in
      if bothContact then
        (if fc_inGripZone geoCollision \<or> isObjectInGripZone w s obj
         then (gripObject w r s, True)
         else ((terminal_print
                  (''Cannot grip '' @ obj_name obj @ '' - object too large or misaligned'')
                  ''warning'' s)
                 \<lparr>targetGripperOpenness := gripperOpenness s + 5\<rparr>, True))
      else if leftOnly \<or> rightOnly then (fingerPush w r leftOnly meshCollision s, False)
      else (s, False))"

primrec gripperLoop :: "world \<Rightarrow> nat list \<Rightarrow> sim \<Rightarrow> sim" where
  "gripperLoop w [] s = s"
| "gripperLoop w (r # rs) s =
     (let (s', stop) = gripperLoopBody w r s
      in if stop then s' else gripperLoop w rs s')"

definition updateGripperAnimation :: "world \<Rightarrow> sim \<Rightarrow> sim" where
  "updateGripperAnimation w s =
     (if \<not> gripperAnimating s then s
      else
      let speed = 0.12;
          diff = targetGripperOpenness s - gripperOpenness s;
          isClosing = (diff < 0);
          s1 = (if isClosing \<and> grippedObject s = None
                then gripperLoop w (sceneObjects s) s else s);
          s2 = (if \<bar>diff\<bar> < 0.5
                then s1\<lparr>gripperOpenness := targetGripperOpenness s1, gripperAnimating := False\<rparr>
                else s1\<lparr>gripperOpenness := gripperOpenness s1 + diff * speed\<rparr>)
      in applyGripperOpenness s2)"

section \<open>The motion executor\<close>

definition applyAnglesSet :: "angles \<Rightarrow> sim \<Rightarrow> sim" where
  "applyAnglesSet a s =
     applyJointAngles
       (s\<lparr>jointAngles := \<lparr>base = base a, shoulder = shoulder a, elbow = elbow a,
                           wrist = wrist a, wristRotate = wristRotate a\<rparr>\<rparr>)"

text \<open>
  The sub-step loop of \<open>updateAnimation\<close>, from sub-step \<open>step\<close> on, with \<open>n\<close> sub-steps
  left to run; the result carries \<open>blockingCollision\<close>, which is \<open>None\<close> when the loop
  ran to its end.  \<open>lastSafeProgress\<close> is the module-level variable, read for
  \<open>stepProgress\<close> and written at the end of every sub-step.
\<close>

primrec substepLoop :: "world \<Rightarrow> real \<Rightarrow> nat \<Rightarrow> nat \<Rightarrow> nat \<Rightarrow> sim \<Rightarrow> sim \<times> blocked option" where
  "substepLoop w progressDelta SUBSTEPS step 0 s = (s, None)"
| "substepLoop w progressDelta SUBSTEPS step (Suc n) s =
     (let stepProgress = lastSafeProgress s + (progressDelta * real step / real SUBSTEPS);
          proposedAngles = getAnglesAtProgress (animationStartAngles s) (targetAngles s) stepProgress;
          s1 = applyAnglesSet proposedAngles s;
          s2 = pushObjectsFromArm w s1
      in
      case checkArmCollisionWithBlockedObject w s2 of
        Some collisionCheck \<Rightarrow>
          (let safeProgress = max (lastSafeProgress s2)
                                (stepProgress - (progressDelta / real SUBSTEPS) * 0.5);
               safeAngles = getAnglesAtProgress (animationStartAngles s2) (targetAngles s2)
                              safeProgress;
               s3 = applyAnglesSet safeAngles s2
           in (s3\<lparr>lastSafeAngles := Some safeAngles, lastSafeProgress := safeProgress\<rparr>,
               Some collisionCheck))
      | None \<Rightarrow>
          substepLoop w progressDelta SUBSTEPS (Suc step) n
            (s2\<lparr>lastSafeAngles := Some proposedAngles, lastSafeProgress := stepProgress\<rparr>))"

text \<open>
  The end of an animation: the flag is cleared and the next queued command, if any, is
  taken off the queue and handed to \<open>processCommand\<close>.  The command interpreter is outside
  the executor; the embedding returns the command to dispatch beside the state.
\<close>

definition finishAnimation :: "sim \<Rightarrow> sim \<times> string option" where
  "finishAnimation s =
     (let s1 = s\<lparr>isAnimating := False\<rparr>
      in case animationQueue s1 of
           [] \<Rightarrow> (s1, None)
         | nextCommand # rest \<Rightarrow> (s1\<lparr>animationQueue := rest\<rparr>, Some nextCommand))"

text \<open>\<open>updateAnimation\<close>; \<open>now\<close> is the value of \<open>performance.now()\<close>.\<close>

definition updateAnimation :: "world \<Rightarrow> real \<Rightarrow> sim \<Rightarrow> sim \<times> string option" where
  "updateAnimation w now s =
     (if \<not> isAnimating s then (s, None)
      else
      let elapsed = now - animationStartTime s;
          targetProgress = min (elapsed / animationDuration s) 1;
          progressDelta = targetProgress - lastSafeProgress s
      in
      if progressDelta < 0.0001 then
        (if targetProgress \<ge> 1 then finishAnimation s else (s, None))
      else
      let SUBSTEPS = max 2 (nat \<lceil>progressDelta * 10\<rceil>);
          (s1, blockingCollision) = substepLoop w progressDelta SUBSTEPS 1 SUBSTEPS s
      in
      case blockingCollision of
        Some collision \<Rightarrow>
          (let s2 = s1\<lparr>isAnimating := False, animationQueue := []\<rparr>;
               s3 = (case runningProgram s2 of
                       Some prog \<Rightarrow>
                         (terminal_print
                            (''Program \"'' @ prog_name prog @ ''\" cancelled due to collision.'')
                            ''warning'' s2)\<lparr>runningProgram := None\<rparr>
                     | None \<Rightarrow> s2);
               objName = (if obj_name (heap s3 (blk_object collision)) = [] then ''object''
                          else obj_name (heap s3 (blk_object collision)));
               s4 = terminal_print (''COLLISION: Arm blocked by '' @ objName) ''error'' s3
           in (terminal_print
                 ''Object cannot be pushed through floor. Try a different approach.''
                 ''warning'' s4, None))
      | None \<Rightarrow>
          if targetProgress \<ge> 1 then finishAnimation s1 else (s1, None))"

text \<open>
  The locals \<open>progressDelta\<close> and \<open>SUBSTEPS\<close> of \<open>updateAnimation\<close>, as functions of the
  time and the state in which it is called.
\<close>

definition progressDelta_at :: "real \<Rightarrow> sim \<Rightarrow> real" where
  "progressDelta_at now s =
     min ((now - animationStartTime s) / animationDuration s) 1 - lastSafeProgress s"

definition SUBSTEPS_at :: "real \<Rightarrow> sim \<Rightarrow> nat" where
  "SUBSTEPS_at now s = max 2 (nat \<lceil>progressDelta_at now s * 10\<rceil>)"

section \<open>Reachable states and the grip invariant\<close>

text \<open>
  The states the simulator can be in: the initial state, and every state that one of the
  state-changing operations above produces from a reachable state, for any arguments,
  any time and any world.  \<open>gripObject\<close> is only ever called on an element of
  \<open>sceneObjects\<close> (by \<open>updateGripperAnimation\<close>).
\<close>

inductive reachable :: "sim \<Rightarrow> bool" where
  r_initial: "reachable initial_sim"
| r_createObject: "reachable s \<Longrightarrow> reachable (snd (createObject t x y z sz s))"
| r_removeObject: "reachable s \<Longrightarrow> reachable (removeObject obj s)"
| r_removeAllObjects: "reachable s \<Longrightarrow> reachable (removeAllObjects s)"
| r_gripObject: "reachable s \<Longrightarrow> obj \<in> set (sceneObjects s) \<Longrightarrow> reachable (gripObject w obj s)"
| r_releaseObject: "reachable s \<Longrightarrow> reachable (releaseObject s)"
| r_setGripperOpenness: "reachable s \<Longrightarrow> reachable (setGripperOpenness percent animated s)"
| r_setJointAngles: "reachable s \<Longrightarrow> reachable (setJointAngles now b sh e wr animated s)"
| r_updateGripperAnimation: "reachable s \<Longrightarrow> reachable (updateGripperAnimation w s)"
| r_updateAnimation: "reachable s \<Longrightarrow> reachable (fst (updateAnimation w now s))"
| r_pushObjectsFromArm: "reachable s \<Longrightarrow> reachable (pushObjectsFromArm w s)"
| r_updatePhysics: "reachable s \<Longrightarrow> reachable (updatePhysics w deltaTime s)"

text \<open>
  Two states agree on the grip when they have the same scene objects, the same gripped
  object, the same store size and the same \<open>isGripped\<close> flag on every object.
\<close>

definition same_grip :: "sim \<Rightarrow> sim \<Rightarrow> bool" where
  "same_grip s s' =
     (sceneObjects s' = sceneObjects s \<and> grippedObject s' = grippedObject s \<and>
      nextRef s' = nextRef s \<and> (\<forall>r. isGripped (heap s' r) = isGripped (heap s r)))"

text \<open>
  The invariant behind the single grip: a scene object whose flag is set is the gripped
  object; references in use are below \<open>nextRef\<close>; no object is in the scene twice.
\<close>

definition grip_inv :: "sim \<Rightarrow> bool" where
  "grip_inv s =
     ((\<forall>r. r \<in> set (sceneObjects s) \<and> isGripped (heap s r) \<longrightarrow> grippedObject s = Some r) \<and>
      (\<forall>r. grippedObject s = Some r \<longrightarrow> r < nextRef s) \<and>
      (\<forall>r. r \<in> set (sceneObjects s) \<longrightarrow> r < nextRef s) \<and>
      distinct (sceneObjects s))"




text \<open>
  Two states agree on the motion when they differ at most in the store of objects and in
  the count of random numbers drawn.
\<close>

definition same_motion :: "sim \<Rightarrow> sim \<Rightarrow> bool" where
  "same_motion s s' = (s' = s\<lparr>heap := heap s', randomIndex := randomIndex s'\<rparr>)"

section \<open>A concrete scene\<close>

text \<open>
  A world for the scenarios below.  The arm stands in the plane \<open>z = 0\<close> with its
  gripper pointing straight down: shoulder at (0, 0.55, 0), elbow at (0.42, 1.99, 0),
  wrist at (1.32, 0.79, 0), the wrist-roll pivot 0.4 below the wrist and the finger tips
  0.31 below that, at height 0.08.  The gripper's local X axis is the world's -X and its
  local Y axis (along the fingers) the world's -Y.  Each finger is a bar 0.03 wide, 0.25
  long and 0.08 deep that ends at the tips and follows its finger position; the wrist is
  a box between the wrist and the wrist-roll pivot.  The wrist and the gripper come down
  by one centimetre for every degree of the shoulder pivot (\<open>scenario_drop\<close>); the
  heights above are those at 0 degrees.  Objects are upright, and \<open>Math.random()\<close>
  returns 0.5.
\<close>

definition scenario_drop :: "angles \<Rightarrow> real" where
  "scenario_drop a = shoulder a * 180 / pi / 100"

definition scenario_bar :: "string \<Rightarrow> real \<Rightarrow> real \<Rightarrow> mesh" where
  "scenario_bar name fingerX d =
     \<lparr>mesh_name = name,
      mesh_box = \<lparr>box_min = Vector3 (1.32 - fingerX - 0.015) (0.08 - d) (- 0.04),
                  box_max = Vector3 (1.32 - fingerX + 0.015) (0.33 - d) 0.04\<rparr>\<rparr>"

definition scenario_wrist :: "real \<Rightarrow> mesh" where
  "scenario_wrist d =
     \<lparr>mesh_name = ''wrist'',
      mesh_box = \<lparr>box_min = Vector3 1.27 (0.39 - d) (- 0.05),
                  box_max = Vector3 1.37 (0.79 - d) 0.05\<rparr>\<rparr>"

definition scenario_pose :: "angles \<Rightarrow> real \<Rightarrow> real \<Rightarrow> arm_pose" where
  "scenario_pose a l r =
     (let d = scenario_drop a in
      \<lparr>basePivotPos = Vector3 0 0.15 0,
       elbowPivotPos = Vector3 0.42 1.99 0,
       wristPivotPos = Vector3 1.32 (0.79 - d) 0,
       wristRotatePivotPos = Vector3 1.32 (0.39 - d) 0,
       leftTip = Vector3 (1.32 - l) (0.08 - d) 0,
       rightTip = Vector3 (1.32 - r) (0.08 - d) 0,
       gripperCenter = Vector3 1.32 (0.08 - d) 0,
       gripperQuat = Rotation (Vector3 (- 1) 0 0) (Vector3 0 (- 1) 0) (Vector3 0 0 1),
       gripperMeshes_left = [scenario_bar ''left_bar'' l d],
       gripperMeshes_right = [scenario_bar ''right_bar'' r d],
       robotArmMeshes =
         [scenario_wrist d, scenario_bar ''left_bar'' l d, scenario_bar ''right_bar'' r d]\<rparr>)"

definition scenario_world :: world where
  "scenario_world =
     \<lparr>objectBox = uprightBox, armPose = scenario_pose, random = (\<lambda>_. 0.5)\<rparr>"

text \<open>
  Four states over it.  In \<open>scenario_beneath\<close> the gripper is closed and a cube of
  110 mm stands on the floor right under it, so that both fingers press 0.03 into the
  cube from above.  In \<open>scenario_beside\<close> the gripper is half open and the cube stands
  beside the left finger, which reaches 0.025 into it from the side.  In
  \<open>scenario_held\<close> the gripper holds the cube.  In \<open>scenario_descending\<close> the closed
  gripper has been raised by 10 degrees of the shoulder above the cube of
  \<open>scenario_beneath\<close>, and a motion to 90 degrees, which takes it down through the cube,
  has been started at time 0.
\<close>

definition scenario_beneath :: sim where
  "scenario_beneath =
     setGripperOpenness 0 False (snd (createObject ''cube'' 132 0 0 110 initial_sim))"


definition scenario_held :: sim where
  "scenario_held =
     gripObject scenario_world 0 (snd (createObject ''cube'' 132 0 0 110 initial_sim))"

definition scenario_descending :: sim where
  "scenario_descending =
     setJointAngles 0 0 90 0 0 True (setJointAngles 0 0 (- 10) 0 0 False scenario_beneath)"

text \<open>
  The bounding boxes of the cube in \<open>scenario_beneath\<close> and in \<open>scenario_beside\<close>.
\<close>

definition scenario_cube_box :: box3 where
  "scenario_cube_box =
     \<lparr>box_min = Vector3 1.265 0 (- 0.055), box_max = Vector3 1.375 0.11 0.055\<rparr>"


text \<open>
  \<open>over_cube s d\<close>: the scene of \<open>scenario_beneath\<close>, with the wrist and the gripper
  lowered by \<open>d\<close>.
\<close>

definition over_cube :: "sim \<Rightarrow> real \<Rightarrow> bool" where
  "over_cube s d =
     (sceneObjects s = [0] \<and> obj_position (heap s 0) = Vector3 1.32 0.055 0 \<and>
      obj_size (heap s 0) = Vector3 0.11 0.11 0.11 \<and> \<not> isGripped (heap s 0) \<and>
      gripperOpenness s = 0 \<and> leftFingerX s = - 0.03 \<and> rightFingerX s = 0.03 \<and>
      scenario_drop (pivots s) = d)"

text \<open>
  The motion of \<open>scenario_descending\<close>: its start and target angles, the state after its
  first sub-step (at progress 0.1), and the state that the sub-step loop leaves when its
  second sub-step blocks (the angles at progress 0.25).
\<close>

definition descent_start :: angles where
  "descent_start = \<lparr>base = 0, shoulder = - 10 * pi / 180, elbow = 0, wrist = 0, wristRotate = 0\<rparr>"

definition descent_target :: angles where
  "descent_target = \<lparr>base = 0, shoulder = 90 * pi / 180, elbow = 0, wrist = 0, wristRotate = 0\<rparr>"

definition descent_step1 :: sim where
  "descent_step1 =
     (applyAnglesSet (getAnglesAtProgress descent_start descent_target 0.1) scenario_descending)
       \<lparr>lastSafeAngles := Some (getAnglesAtProgress descent_start descent_target 0.1),
        lastSafeProgress := 0.1\<rparr>"

definition descent_blocked :: sim where
  "descent_blocked =
     (applyAnglesSet (getAnglesAtProgress descent_start descent_target 0.25) descent_step1)
       \<lparr>lastSafeAngles := Some (getAnglesAtProgress descent_start descent_target 0.25),
        lastSafeProgress := 0.25\<rparr>"

section \<open>Properties of \<open>solveIK\<close>\<close>

lemma first_config:
  "(case (if b then (if a then [p] else []) @ [q] else (if a then [p] else [])) of
      [] \<Rightarrow> e | chosen # _ \<Rightarrow> f chosen)
   = (if a then f p else if b then f q else e)"
  by simp

lemma solveIK_unfold:
  "solveIK x y z =
    (if z < 0 then Inl BelowFloor
     else if ik_wristDist x y z > ik_armReach * 0.98
       then Inl (TooFar (ik_wristDist x y z * 100) (ik_armReach * 100))
     else if ik_wristDist x y z < 0.02 then Inl TooClose
     else if config_ok (ik_elbow_down x y z)
       then Inr (ik_result (ik_baseAngle x y) (ik_elbow_down x y z))
     else if config_ok (ik_elbow_up x y z)
       then Inr (ik_result (ik_baseAngle x y) (ik_elbow_up x y z))
     else Inl (CannotReach (ik_r x y * 100) (z * 100)))"
  unfolding solveIK_def Let_def ik_wristDist_def ik_armReach_def ik_elbow_down_def
    ik_elbow_up_def config_ok_def within_limit_def ik_result_def ik_baseAngle_def
    ik_r_def ik_wristH_def ik_alpha_def ik_elbowInternalAngle_def
  by (simp only: first_config ik_config.select_convs conj_assoc)


lemma ik_armReach_val: "ik_armReach = 3"
  by (simp add: ik_armReach_def shoulderLength_def elbowLength_def)

lemma ik_wristH_val: "ik_wristH z = z + 4 / 25"
  by (simp add: ik_wristH_def baseHeight_def wristLength_def gripperLength_def)

lemma ik_wristDist_val: "ik_wristDist x y z = sqrt (x\<^sup>2 + y\<^sup>2 + (z + 4 / 25)\<^sup>2)"
proof -
  have "ik_r x y * ik_r x y = x\<^sup>2 + y\<^sup>2"
    by (simp add: ik_r_def power2_eq_square)
  then show ?thesis
    by (simp add: ik_wristDist_def ik_wristH_val power2_eq_square)
qed


text \<open>
  Claim C1.  \<open>solveIK\<close> fails exactly when one of four conditions holds, tested in this
  order: the target height is negative (\<open>BelowFloor\<close>); the distance from the shoulder
  pivot to the wrist point exceeds 98% of the two-link reach (\<open>TooFar\<close>); that distance
  is below 0.02 (\<open>TooClose\<close>); neither the elbow-down nor the elbow-up candidate has its
  shoulder, elbow and wrist angle inside the static limits (\<open>CannotReach\<close>).  In every
  other case it succeeds, with the elbow-down candidate when that one is admissible and
  the elbow-up candidate otherwise.  The function reads its three arguments and the
  configuration only and returns a value: there is no state for it to change.
\<close>

theorem solveIK_failure_cases:
  "solveIK x y z =
    (if z < 0 then Inl BelowFloor
     else if ik_wristDist x y z > ik_armReach * 0.98
       then Inl (TooFar (ik_wristDist x y z * 100) (ik_armReach * 100))
     else if ik_wristDist x y z < 0.02 then Inl TooClose
     else if \<not> config_ok (ik_elbow_down x y z) \<and> \<not> config_ok (ik_elbow_up x y z)
       then Inl (CannotReach (ik_r x y * 100) (z * 100))
     else Inr (ik_result (ik_baseAngle x y)
       (if config_ok (ik_elbow_down x y z) then ik_elbow_down x y z else ik_elbow_up x y z)))
   \<and> (isl (solveIK x y z) \<longleftrightarrow>
        z < 0 \<or> ik_wristDist x y z > ik_armReach * 0.98 \<or> ik_wristDist x y z < 0.02 \<or>
        (\<not> config_ok (ik_elbow_down x y z) \<and> \<not> config_ok (ik_elbow_up x y z)))"
  by (simp add: solveIK_unfold)

text \<open>The theorem at a target one unit below the floor.\<close>

theorem solveIK_failure_cases_witness:
  "solveIK 0 0 (- 1) = Inl BelowFloor \<and> isl (solveIK 0 0 (- 1))"
  using solveIK_failure_cases [of 0 0 "- 1"] by simp

subsection \<open>The two concrete targets\<close>

lemma too_far_200: "ik_wristDist 0 200 50 > ik_armReach * 0.98"
proof -
  have "(3 * 0.98 :: real)\<^sup>2 < 0\<^sup>2 + 200\<^sup>2 + (50 + 4 / 25)\<^sup>2"
    by (simp add: power2_eq_square)
  then have "3 * 0.98 < sqrt (0\<^sup>2 + 200\<^sup>2 + (50 + 4 / 25)\<^sup>2)"
    by (rule real_less_rsqrt)
  then show ?thesis
    by (simp only: ik_wristDist_val ik_armReach_val)
qed

lemma cfg_sel:
  "cfg_shoulder (ik_elbow_up x y z) = Math_atan2 (ik_r x y) (ik_wristH z) - ik_alpha (ik_wristDist x y z)"
  "cfg_elbow (ik_elbow_up x y z) = pi - ik_elbowInternalAngle (ik_wristDist x y z)"
  "cfg_wrist (ik_elbow_up x y z) = pi - cfg_shoulder (ik_elbow_up x y z) - cfg_elbow (ik_elbow_up x y z)"
  "cfg_shoulder (ik_elbow_down x y z) = Math_atan2 (ik_r x y) (ik_wristH z) + ik_alpha (ik_wristDist x y z)"
  "cfg_elbow (ik_elbow_down x y z) = - (pi - ik_elbowInternalAngle (ik_wristDist x y z))"
  "cfg_wrist (ik_elbow_down x y z) = pi - cfg_shoulder (ik_elbow_down x y z) - cfg_elbow (ik_elbow_down x y z)"
  by (simp_all add: ik_elbow_up_def ik_elbow_down_def Let_def)

text \<open>Closed forms of the two law-of-cosines angles, where the clamps are idle.\<close>
lemma ik_alpha_closed:
  assumes "0 < d" "d \<le> 3"
  shows "ik_alpha d = arccos (d / 3)"
proof -
  have "(shoulderLength * shoulderLength + d * d - elbowLength * elbowLength) / (2 * shoulderLength * d) = d / 3"
    using assms by (simp add: shoulderLength_def elbowLength_def field_simps)
  moreover have "max (- 1) (min 1 (d / 3)) = d / 3" using assms by simp
  ultimately show ?thesis by (simp only: ik_alpha_def)
qed

lemma ik_elbowInternalAngle_closed:
  assumes "0 \<le> d" "d \<le> 3"
  shows "ik_elbowInternalAngle d = arccos (1 - 2 * d\<^sup>2 / 9)"
proof -
  have e: "(shoulderLength * shoulderLength + elbowLength * elbowLength - d * d) / (2 * shoulderLength * elbowLength) = 1 - 2 * d\<^sup>2 / 9"
    by (simp add: shoulderLength_def elbowLength_def field_simps power2_eq_square)
  have "d\<^sup>2 \<le> 3\<^sup>2" using assms by (intro power_mono) simp_all
  then have "- 1 \<le> 1 - 2 * d\<^sup>2 / 9" "1 - 2 * d\<^sup>2 / 9 \<le> 1" by simp_all
  then have "max (- 1) (min 1 (1 - 2 * d\<^sup>2 / 9)) = 1 - 2 * d\<^sup>2 / 9" by simp
  with e show ?thesis by (simp only: ik_elbowInternalAngle_def)
qed


lemma arctan_sqrt3: "arctan (sqrt 3) = pi / 3"
proof -
  have "arctan (tan (pi / 3)) = pi / 3"
    by (rule arctan_tan) (use pi_gt_zero in linarith)+
  then show ?thesis by (simp only: tan_60)
qed

lemma arccos_half_sqrt3: "arccos (sqrt 3 / 2) = pi / 6"
proof -
  have "arccos (cos (pi / 6)) = pi / 6"
    by (rule arccos_cos) (use pi_gt_zero in linarith)+
  then show ?thesis by (simp only: cos_30)
qed

lemma arccos_half: "arccos (1 / 2) = pi / 3"
proof -
  have "arccos (cos (pi / 3)) = pi / 3"
    by (rule arccos_cos) (use pi_gt_zero in linarith)+
  then show ?thesis by (simp only: cos_60)
qed

lemma arccos_half_sqrt2: "arccos (sqrt 2 / 2) = pi / 4"
proof -
  have "arccos (cos (pi / 4)) = pi / 4"
    by (rule arccos_cos) (use pi_gt_zero in linarith)+
  then show ?thesis by (simp only: cos_45)
qed

text \<open>
  The wrist distance of a target 2 units out and 0.5 up is \<open>sqrt (11089 / 2500)\<close>, about
  2.106.
\<close>

lemma d2_sq: "(sqrt (11089 / 2500))\<^sup>2 = (11089 / 2500 :: real)"
  by simp
lemma d2_lower: "21 / 10 < (sqrt (11089 / 2500))"
  by (rule real_less_rsqrt) (simp add: power2_eq_square)
lemma d2_upper: "(sqrt (11089 / 2500)) < 211 / 100"
  by (rule real_less_lsqrt) (simp_all add: power2_eq_square)

lemma wristDist_0_2: "ik_wristDist 0 2 (1 / 2) = (sqrt (11089 / 2500))"
  by (simp add: ik_wristDist_val power2_eq_square)
lemma wristDist_2_0: "ik_wristDist 2 0 (1 / 2) = (sqrt (11089 / 2500))"
  by (simp add: ik_wristDist_val power2_eq_square)

lemma ik_r_0_2: "ik_r 0 2 = 2" "ik_r 2 0 = 2"
  by (simp_all add: ik_r_def)

lemma theta2: "Math_atan2 2 (ik_wristH (1 / 2)) = arctan (100 / 33)"
  by (simp add: Math_atan2_def ik_wristH_val)

lemma theta2_lower: "pi / 3 \<le> arctan (100 / 33)"
proof -
  have "(sqrt 3)\<^sup>2 \<le> (100 / 33 :: real)\<^sup>2" by (simp add: power2_eq_square)
  then have "sqrt 3 \<le> 100 / 33" by (rule power2_le_imp_le) simp
  then have "arctan (sqrt 3) \<le> arctan (100 / 33)" by (rule arctan_monotone')
  then show ?thesis by (simp only: arctan_sqrt3)
qed

lemma theta2_upper: "arctan (100 / 33) < pi / 2"
  by (rule arctan_ubound)

lemma alpha2: "ik_alpha (sqrt (11089 / 2500)) = arccos ((sqrt (11089 / 2500)) / 3)"
  using d2_lower d2_upper by (intro ik_alpha_closed) linarith+

lemma alpha2_lower: "pi / 6 < ik_alpha (sqrt (11089 / 2500))"
proof -
  have "(211 / 100 :: real) / 3 < sqrt 3 / 2"
  proof -
    have "(211 / 150 :: real)\<^sup>2 < 3" by (simp add: power2_eq_square)
    then have "211 / 150 < sqrt 3" by (rule real_less_rsqrt)
    then show ?thesis by simp
  qed
  then have lt: "(sqrt (11089 / 2500)) / 3 < sqrt 3 / 2" using d2_upper by linarith
  have "sqrt 3 \<le> 2"
    by (rule real_le_lsqrt) simp_all
  then have le1: "sqrt 3 / 2 \<le> 1" by simp
  have "- 1 \<le> (sqrt (11089 / 2500)) / 3" using d2_lower by linarith
  then have "arccos (sqrt 3 / 2) < arccos ((sqrt (11089 / 2500)) / 3)"
    using lt le1 by (rule arccos_less_arccos)
  then show ?thesis by (simp only: alpha2 arccos_half_sqrt3)
qed

lemma alpha2_upper: "ik_alpha (sqrt (11089 / 2500)) \<le> pi / 3"
proof -
  have "arccos ((sqrt (11089 / 2500)) / 3) \<le> arccos (1 / 2)"
    using d2_lower d2_upper by (intro arccos_le_arccos) linarith+
  then show ?thesis by (simp only: alpha2 arccos_half)
qed

lemma gamma2: "ik_elbowInternalAngle (sqrt (11089 / 2500)) = arccos (161 / 11250)"
proof -
  have "ik_elbowInternalAngle (sqrt (11089 / 2500)) = arccos (1 - 2 * (sqrt (11089 / 2500))\<^sup>2 / 9)"
    using d2_lower d2_upper by (intro ik_elbowInternalAngle_closed) linarith+
  then show ?thesis by (simp add: d2_sq)
qed

lemma gamma2_upper: "ik_elbowInternalAngle (sqrt (11089 / 2500)) \<le> pi / 2"
  unfolding gamma2 by (rule arccos_le_pi2) simp_all

lemma gamma2_lower: "pi / 4 \<le> ik_elbowInternalAngle (sqrt (11089 / 2500))"
proof -
  have "1 \<le> sqrt 2" by simp
  then have a: "(161 / 11250 :: real) \<le> sqrt 2 / 2" by linarith
  have "sqrt 2 \<le> 2" by (rule real_le_lsqrt) simp_all
  then have b: "sqrt 2 / 2 \<le> 1" by simp
  have "arccos (sqrt 2 / 2) \<le> arccos (161 / 11250)"
    by (rule arccos_le_arccos [OF _ a b]) simp
  then show ?thesis by (simp only: gamma2 arccos_half_sqrt2)
qed

lemma down2_not_ok: "ik_wristDist x y (1 / 2) = (sqrt (11089 / 2500)) \<Longrightarrow> ik_r x y = 2 \<Longrightarrow> \<not> config_ok (ik_elbow_down x y (1 / 2))"
  using theta2_lower alpha2_lower
  by (simp add: config_ok_def within_limit_def cfg_sel theta2 limits_shoulder_def)

lemma up2_ok: "ik_wristDist x y (1 / 2) = (sqrt (11089 / 2500)) \<Longrightarrow> ik_r x y = 2 \<Longrightarrow> config_ok (ik_elbow_up x y (1 / 2))"
  using theta2_lower theta2_upper alpha2_lower alpha2_upper gamma2_lower gamma2_upper pi_gt_zero
  by (simp add: config_ok_def within_limit_def cfg_sel theta2 limits_shoulder_def
      limits_elbow_def limits_wrist_def)


lemma within_limit_degrees:
  "within_limit l a \<longleftrightarrow> lim_min l \<le> a * 180 / pi \<and> a * 180 / pi \<le> lim_max l"
  using pi_gt_zero by (simp add: within_limit_def field_simps)

lemma config_ok_degrees: "config_ok c \<longleftrightarrow> angles_within_limits (ik_result b c)"
  by (simp add: config_ok_def angles_within_limits_def ik_result_def within_limit_degrees)

lemma baseAngle_0_2: "ik_baseAngle 0 2 = pi / 2"
  using pi_gt_zero
  by (simp add: ik_baseAngle_def Math_atan2_def while_gt_pi.simps while_lt_neg_pi.simps)

lemma baseAngle_2_0: "ik_baseAngle 2 0 = pi"
  using pi_gt_zero
  by (simp add: ik_baseAngle_def Math_atan2_def while_gt_pi.simps while_lt_neg_pi.simps)

lemma solveIK_d2:
  assumes "ik_wristDist x y (1 / 2) = (sqrt (11089 / 2500))" "ik_r x y = 2"
  shows "solveIK x y (1 / 2) = Inr (ik_result (ik_baseAngle x y) (ik_elbow_up x y (1 / 2)))"
  using d2_lower d2_upper down2_not_ok [OF assms] up2_ok [OF assms] assms(1)
  by (simp add: solveIK_unfold ik_armReach_val)

lemma too_far_500: "ik_wristDist 0 500 50 > ik_armReach * 0.98"
proof -
  have "(3 * 0.98 :: real)\<^sup>2 < 0\<^sup>2 + 500\<^sup>2 + (50 + 4 / 25)\<^sup>2"
    by (simp add: power2_eq_square)
  then have "3 * 0.98 < sqrt (0\<^sup>2 + 500\<^sup>2 + (50 + 4 / 25)\<^sup>2)"
    by (rule real_less_rsqrt)
  then show ?thesis
    by (simp only: ik_wristDist_val ik_armReach_val)
qed


text \<open>
  Claim C3, as the spec states it, fails on the code: the solver works in world units
  (two links of 1.5 each), so a target 200 units out is far beyond 98% of the reach of 3
  and \<open>solveIK(0, 200, 50)\<close> is the too-far failure, not a success.
\<close>

theorem solveIK_0_200_50_too_far: "is_TooFar (projl (solveIK 0 200 50)) \<and> isl (solveIK 0 200 50)"
  using too_far_200 by (simp add: solveIK_unfold)

text \<open>
  Claim C3, amended.  \<open>solveIK(0, 200, 50)\<close> and \<open>solveIK(0, 500, 50)\<close> both return the
  too-far failure.  At the scale of the \<open>goto\<close> command, which divides centimetres by 100
  before it calls the solver, \<open>solveIK(0, 2, 0.5)\<close> succeeds with a base angle of 90
  degrees and the shoulder, elbow and wrist inside their limits; the base angle of 180
  degrees belongs to the target on the X axis, \<open>solveIK(2, 0, 0.5)\<close>.
\<close>

theorem solveIK_scenarios:
  "isl (solveIK 0 200 50) \<and> is_TooFar (projl (solveIK 0 200 50)) \<and>
   isl (solveIK 0 500 50) \<and> is_TooFar (projl (solveIK 0 500 50)) \<and>
   \<not> isl (solveIK 0 2 (1 / 2)) \<and> ik_base (projr (solveIK 0 2 (1 / 2))) = 90 \<and>
   angles_within_limits (projr (solveIK 0 2 (1 / 2))) \<and>
   \<not> isl (solveIK 2 0 (1 / 2)) \<and> ik_base (projr (solveIK 2 0 (1 / 2))) = 180 \<and>
   angles_within_limits (projr (solveIK 2 0 (1 / 2)))"
proof -
  have far: "isl (solveIK 0 200 50) \<and> is_TooFar (projl (solveIK 0 200 50)) \<and>
      isl (solveIK 0 500 50) \<and> is_TooFar (projl (solveIK 0 500 50))"
    using too_far_200 too_far_500 by (simp add: solveIK_unfold)
  have a: "solveIK 0 2 (1 / 2) = Inr (ik_result (ik_baseAngle 0 2) (ik_elbow_up 0 2 (1 / 2)))"
    by (rule solveIK_d2 [OF wristDist_0_2 ik_r_0_2(1)])
  have b: "solveIK 2 0 (1 / 2) = Inr (ik_result (ik_baseAngle 2 0) (ik_elbow_up 2 0 (1 / 2)))"
    by (rule solveIK_d2 [OF wristDist_2_0 ik_r_0_2(2)])
  have oka: "angles_within_limits (ik_result (ik_baseAngle 0 2) (ik_elbow_up 0 2 (1 / 2)))"
    using up2_ok [OF wristDist_0_2 ik_r_0_2(1)] by (rule config_ok_degrees [THEN iffD1])
  have okb: "angles_within_limits (ik_result (ik_baseAngle 2 0) (ik_elbow_up 2 0 (1 / 2)))"
    using up2_ok [OF wristDist_2_0 ik_r_0_2(2)] by (rule config_ok_degrees [THEN iffD1])
  have basea: "ik_base (ik_result (ik_baseAngle 0 2) (ik_elbow_up 0 2 (1 / 2))) = 90"
    by (simp add: ik_result_def baseAngle_0_2)
  have baseb: "ik_base (ik_result (ik_baseAngle 2 0) (ik_elbow_up 2 0 (1 / 2))) = 180"
    by (simp add: ik_result_def baseAngle_2_0)
  show ?thesis
    using far oka okb basea baseb by (simp only: a b sum.sel sum.disc simp_thms)
qed

section \<open>Properties of \<open>setJointAngles\<close>\<close>






section \<open>Properties of the interpolation\<close>

lemma while_gt_pi_le: "while_gt_pi a \<le> pi"
  by (induction a rule: while_gt_pi.induct) (simp add: while_gt_pi.simps)

lemma while_gt_pi_id: "a \<le> pi \<Longrightarrow> while_gt_pi a = a"
  by (simp add: while_gt_pi.simps)

lemma while_gt_pi_gt: "- pi < a \<Longrightarrow> - pi < while_gt_pi a"
proof (induction a rule: while_gt_pi.induct)
  case (1 a)
  show ?case
  proof (cases "a > pi")
    case True
    then have "- pi < a - 2 * pi" by simp
    with 1 True show ?thesis by (simp add: while_gt_pi.simps)
  next
    case False
    with 1 show ?thesis by (simp add: while_gt_pi.simps)
  qed
qed

lemma while_lt_neg_pi_ge: "- pi \<le> while_lt_neg_pi a"
  by (induction a rule: while_lt_neg_pi.induct) (simp add: while_lt_neg_pi.simps)

lemma while_lt_neg_pi_id: "- pi \<le> a \<Longrightarrow> while_lt_neg_pi a = a"
  by (simp add: while_lt_neg_pi.simps)

lemma while_lt_neg_pi_le: "a \<le> pi \<Longrightarrow> while_lt_neg_pi a \<le> pi"
proof (induction a rule: while_lt_neg_pi.induct)
  case (1 a)
  show ?case
  proof (cases "a < - pi")
    case True
    then have "a + 2 * pi \<le> pi" by simp
    with 1 True show ?thesis by (simp add: while_lt_neg_pi.simps)
  next
    case False
    with 1 show ?thesis by (simp add: while_lt_neg_pi.simps)
  qed
qed

lemma normalised_range:
  "- pi \<le> while_lt_neg_pi (while_gt_pi a) \<and> while_lt_neg_pi (while_gt_pi a) \<le> pi"
  by (simp add: while_lt_neg_pi_ge while_lt_neg_pi_le while_gt_pi_le)

lemma easeInOutCubic_range:
  assumes "0 \<le> t" "t \<le> 1"
  shows "0 \<le> easeInOutCubic t \<and> easeInOutCubic t \<le> 1"
proof (cases "t < 0.5")
  case True
  have "t * t \<le> (1 / 2) * (1 / 2)" using assms True by (intro mult_mono) simp_all
  then have "t * t * t \<le> (1 / 4) * (1 / 2)" using assms True by (intro mult_mono) simp_all
  moreover have "0 \<le> t * t * t" using assms by simp
  ultimately show ?thesis using True by (simp add: easeInOutCubic_def)
next
  case False
  define u where "u = 1 - t"
  have u: "0 \<le> u" "u \<le> 1 / 2" using assms False by (simp_all add: u_def)
  have e: "easeInOutCubic t = 1 - 4 * (u * u * u)"
    using False by (simp add: easeInOutCubic_def u_def algebra_simps)
  have "u * u \<le> (1 / 2) * (1 / 2)" using u by (intro mult_mono) simp_all
  then have "u * u * u \<le> (1 / 4) * (1 / 2)" using u by (intro mult_mono) simp_all
  moreover have "0 \<le> u * u * u" using u by simp
  ultimately show ?thesis by (simp add: e)
qed

lemma lerpAngle_170:
  assumes "0 \<le> e" "e \<le> 1"
  shows "\<bar>lerpAngle (170 * pi / 180) (- 170 * pi / 180) e\<bar> \<ge> 170 * pi / 180"
proof -
  let ?a = "170 * pi / 180" and ?b = "- 170 * pi / 180"
  have d1: "while_gt_pi (?b - ?a) = ?b - ?a"
    using pi_gt_zero by (intro while_gt_pi_id) linarith
  have lt: "?b - ?a < - pi" using pi_gt_zero by linarith
  have "while_lt_neg_pi (?b - ?a) = while_lt_neg_pi (?b - ?a + 2 * pi)"
    using lt by (subst while_lt_neg_pi.simps) simp
  also have "\<dots> = ?b - ?a + 2 * pi"
    using pi_gt_zero by (intro while_lt_neg_pi_id) linarith
  also have "\<dots> = pi / 9" by simp
  finally have diff: "while_lt_neg_pi (while_gt_pi (?b - ?a)) = pi / 9" by (simp only: d1)
  define r where "r = ?a + pi / 9 * e"
  have r1: "?a \<le> r" using assms pi_gt_zero by (simp add: r_def)
  have "pi / 9 * e \<le> pi / 9 * 1" using assms pi_gt_zero by (intro mult_left_mono) simp_all
  then have r2: "r \<le> ?a + pi / 9" by (simp add: r_def)
  have res: "lerpAngle ?a ?b e = while_lt_neg_pi (while_gt_pi r)"
    by (simp only: lerpAngle_def Let_def diff r_def)
  show ?thesis
  proof (cases "r > pi")
    case True
    have "while_gt_pi r = while_gt_pi (r - 2 * pi)"
      using True by (subst while_gt_pi.simps) simp
    also have "\<dots> = r - 2 * pi" using r2 pi_gt_zero by (intro while_gt_pi_id) linarith
    finally have "while_lt_neg_pi (while_gt_pi r) = r - 2 * pi"
      using True by (simp add: while_lt_neg_pi_id)
    then show ?thesis using r2 True pi_gt_zero unfolding res by linarith
  next
    case False
    then have "while_gt_pi r = r" by (simp add: while_gt_pi_id)
    moreover have "- pi \<le> r" using r1 pi_gt_zero by linarith
    ultimately have "while_lt_neg_pi (while_gt_pi r) = r" by (simp add: while_lt_neg_pi_id)
    then show ?thesis using r1 pi_gt_zero unfolding res by linarith
  qed
qed


lemma lerpAngle_170_ends:
  "lerpAngle (170 * pi / 180) (- 170 * pi / 180) 0 = 170 * pi / 180"
  "lerpAngle (170 * pi / 180) (- 170 * pi / 180) (1 / 2) = pi"
  "lerpAngle (170 * pi / 180) (- 170 * pi / 180) 1 = - 170 * pi / 180"
proof -
  let ?a = "170 * pi / 180" and ?b = "- 170 * pi / 180"
  have d1: "while_gt_pi (?b - ?a) = ?b - ?a"
    using pi_gt_zero by (intro while_gt_pi_id) linarith
  have lt: "?b - ?a < - pi" using pi_gt_zero by linarith
  have "while_lt_neg_pi (?b - ?a) = while_lt_neg_pi (?b - ?a + 2 * pi)"
    using lt by (subst while_lt_neg_pi.simps) simp
  also have "\<dots> = ?b - ?a + 2 * pi"
    using pi_gt_zero by (intro while_lt_neg_pi_id) linarith
  also have "\<dots> = pi / 9" by simp
  finally have diff: "while_lt_neg_pi (while_gt_pi (?b - ?a)) = pi / 9" by (simp only: d1)
  have n0: "while_lt_neg_pi (while_gt_pi ?a) = ?a"
    using pi_gt_zero by (simp add: while_gt_pi_id while_lt_neg_pi_id)
  show "lerpAngle ?a ?b 0 = ?a"
    using n0 by (simp add: lerpAngle_def Let_def)
  have "?a + pi / 9 * (1 / 2) = pi" by simp
  moreover have "while_lt_neg_pi (while_gt_pi pi) = pi"
    using pi_gt_zero by (simp add: while_gt_pi_id while_lt_neg_pi_id)
  ultimately show "lerpAngle ?a ?b (1 / 2) = pi"
    by (simp only: lerpAngle_def Let_def diff)
  have e1: "?a + pi / 9 * 1 = 190 * pi / 180" by simp
  have "while_gt_pi (190 * pi / 180) = while_gt_pi (190 * pi / 180 - 2 * pi)"
    using pi_gt_zero by (subst while_gt_pi.simps) simp
  also have "\<dots> = 190 * pi / 180 - 2 * pi"
    using pi_gt_zero by (intro while_gt_pi_id) linarith
  also have "\<dots> = ?b" by simp
  finally have "while_lt_neg_pi (while_gt_pi (190 * pi / 180)) = ?b"
    using pi_gt_zero by (simp add: while_lt_neg_pi_id)
  then show "lerpAngle ?a ?b 1 = ?b"
    by (simp only: lerpAngle_def Let_def diff e1)
qed

lemma easeInOutCubic_vals:
  "easeInOutCubic 0 = 0" "easeInOutCubic (1 / 2) = 1 / 2" "easeInOutCubic 1 = 1"
  by (simp_all add: easeInOutCubic_def)

text \<open>
  Claim C5.  \<open>lerpAngle\<close> wraps the difference of its two angles into \<open>[-pi, pi]\<close> before
  it scales it by the progress, and normalises the result into \<open>[-pi, pi]\<close>.
  \<open>getAnglesAtProgress\<close> interpolates the base rotation and the wrist roll with
  \<open>lerpAngle\<close> and the shoulder, elbow and wrist linearly, all at the eased progress.
  From 170 degrees to -170 degrees the base starts at 170, is at 180 halfway, ends at
  -170, and for every progress in \<open>[0, 1]\<close> it stays at least 170 degrees away from 0: it
  goes through 180, never through 0.
\<close>

theorem lerpAngle_shortest_path:
  "(- pi \<le> lerpAngle_diff a b \<and> lerpAngle_diff a b \<le> pi) \<and>
   lerpAngle a b t = while_lt_neg_pi (while_gt_pi (a + lerpAngle_diff a b * t)) \<and>
   (- pi \<le> lerpAngle a b t \<and> lerpAngle a b t \<le> pi) \<and>
   base (getAnglesAtProgress s g p) = lerpAngle (base s) (base g) (easeInOutCubic p) \<and>
   wristRotate (getAnglesAtProgress s g p)
     = lerpAngle (wristRotate s) (wristRotate g) (easeInOutCubic p) \<and>
   shoulder (getAnglesAtProgress s g p) = lerp (shoulder s) (shoulder g) (easeInOutCubic p) \<and>
   elbow (getAnglesAtProgress s g p) = lerp (elbow s) (elbow g) (easeInOutCubic p) \<and>
   wrist (getAnglesAtProgress s g p) = lerp (wrist s) (wrist g) (easeInOutCubic p) \<and>
   lerp x y t = x + (y - x) * t \<and>
   (base s = 170 * pi / 180 \<and> base g = - 170 * pi / 180 \<longrightarrow>
      base (getAnglesAtProgress s g 0) = 170 * pi / 180 \<and>
      base (getAnglesAtProgress s g (1 / 2)) = pi \<and>
      base (getAnglesAtProgress s g 1) = - 170 * pi / 180 \<and>
      (0 \<le> p \<and> p \<le> 1 \<longrightarrow> 170 * pi / 180 \<le> \<bar>base (getAnglesAtProgress s g p)\<bar>))"
proof -
  have shape: "base (getAnglesAtProgress s g q) = lerpAngle (base s) (base g) (easeInOutCubic q)"
    for q by (simp add: getAnglesAtProgress_def Let_def)
  have c1: "- pi \<le> lerpAngle_diff a b \<and> lerpAngle_diff a b \<le> pi"
    unfolding lerpAngle_diff_def by (rule normalised_range)
  have c2: "lerpAngle a b t = while_lt_neg_pi (while_gt_pi (a + lerpAngle_diff a b * t))"
    by (simp only: lerpAngle_def lerpAngle_diff_def Let_def)
  have c3: "- pi \<le> lerpAngle a b t \<and> lerpAngle a b t \<le> pi"
    unfolding c2 by (rule normalised_range)
  have c4: "wristRotate (getAnglesAtProgress s g p)
       = lerpAngle (wristRotate s) (wristRotate g) (easeInOutCubic p)"
    "shoulder (getAnglesAtProgress s g p) = lerp (shoulder s) (shoulder g) (easeInOutCubic p)"
    "elbow (getAnglesAtProgress s g p) = lerp (elbow s) (elbow g) (easeInOutCubic p)"
    "wrist (getAnglesAtProgress s g p) = lerp (wrist s) (wrist g) (easeInOutCubic p)"
    by (simp_all add: getAnglesAtProgress_def Let_def)
  have c5: "lerp x y t = x + (y - x) * t" by (simp only: lerp_def)
  have c6: "base (getAnglesAtProgress s g 0) = 170 * pi / 180 \<and>
      base (getAnglesAtProgress s g (1 / 2)) = pi \<and>
      base (getAnglesAtProgress s g 1) = - 170 * pi / 180 \<and>
      (0 \<le> p \<and> p \<le> 1 \<longrightarrow> 170 * pi / 180 \<le> \<bar>base (getAnglesAtProgress s g p)\<bar>)"
    if bs: "base s = 170 * pi / 180" and bg: "base g = - 170 * pi / 180"
  proof (intro conjI impI)
    show "base (getAnglesAtProgress s g 0) = 170 * pi / 180"
      by (simp only: shape bs bg easeInOutCubic_vals lerpAngle_170_ends)
    show "base (getAnglesAtProgress s g (1 / 2)) = pi"
      by (simp only: shape bs bg easeInOutCubic_vals lerpAngle_170_ends)
    show "base (getAnglesAtProgress s g 1) = - 170 * pi / 180"
      by (simp only: shape bs bg easeInOutCubic_vals lerpAngle_170_ends)
    assume "0 \<le> p \<and> p \<le> 1"
    then have "0 \<le> easeInOutCubic p" "easeInOutCubic p \<le> 1"
      using easeInOutCubic_range [of p] by simp_all
    then have "170 * pi / 180
        \<le> \<bar>lerpAngle (170 * pi / 180) (- 170 * pi / 180) (easeInOutCubic p)\<bar>"
      by (rule lerpAngle_170)
    then show "170 * pi / 180 \<le> \<bar>base (getAnglesAtProgress s g p)\<bar>"
      by (simp only: shape bs bg)
  qed
  show ?thesis
    using c1 c2 c3 shape [of p] c4 c5 c6 by blast
qed

text \<open>The theorem at a quarter of the way from 170 to -170 degrees.\<close>

theorem lerpAngle_shortest_path_witness:
  "170 * pi / 180 \<le>
     \<bar>base (getAnglesAtProgress
        \<lparr>base = 170 * pi / 180, shoulder = 0, elbow = 0, wrist = 0, wristRotate = 0\<rparr>
        \<lparr>base = - 170 * pi / 180, shoulder = 0, elbow = 0, wrist = 0, wristRotate = 0\<rparr>
        (1 / 4))\<bar>"
proof -
  let ?s = "\<lparr>base = 170 * pi / 180, shoulder = 0, elbow = 0, wrist = 0, wristRotate = 0\<rparr>"
  let ?g = "\<lparr>base = - 170 * pi / 180, shoulder = 0, elbow = 0, wrist = 0, wristRotate = 0\<rparr>"
  have h: "base ?s = 170 * pi / 180 \<and> base ?g = - 170 * pi / 180"
    by (simp only: angles.select_convs simp_thms)
  have q: "(0::real) \<le> 1 / 4 \<and> (1 / 4 :: real) \<le> 1" by simp
  from lerpAngle_shortest_path [of 0 0 0 ?s ?g "1 / 4" 0 0] h q
  show ?thesis by blast
qed

section \<open>Inverse and forward kinematics agree\<close>






lemma rotateY_axis: "rotateY a (Vector3 0 h 0) = Vector3 0 h 0"
  by (simp add: rotateY_def)














text \<open>
  Height and horizontal distance alone do not make a target reachable: 10 cm from the
  base axis on the floor, both distance tests pass and both candidates break the elbow
  limit.
\<close>

lemma solveIK_near_base_cannot_reach:
  "solveIK (1 / 10) 0 0 = Inl (CannotReach 10 0)"
proof -
  let ?d = "sqrt (89 / 2500)"
  have dist: "ik_wristDist (1 / 10) 0 0 = ?d"
    by (simp add: ik_wristDist_val power2_eq_square)
  have lo: "1 / 10 < ?d" by (rule real_less_rsqrt) (simp add: power2_eq_square)
  have hi: "?d < 1" by (rule real_less_lsqrt) simp_all
  have "ik_elbowInternalAngle ?d = arccos (1 - 2 * ?d\<^sup>2 / 9)"
    using lo hi by (intro ik_elbowInternalAngle_closed) linarith+
  then have g: "ik_elbowInternalAngle ?d = arccos (11161 / 11250)" by simp
  have "(sqrt 2)\<^sup>2 < (11161 / 5625 :: real)\<^sup>2" by (simp add: power2_eq_square)
  then have "sqrt 2 < 11161 / 5625" by (rule power2_less_imp_less) simp
  then have lt: "sqrt 2 / 2 < (11161 / 11250 :: real)" by simp
  have "0 \<le> sqrt 2 / 2" by simp
  then have "- 1 \<le> sqrt 2 / 2" by linarith
  then have "arccos (11161 / 11250) < arccos (sqrt 2 / 2)"
    using lt by (rule arccos_less_arccos) simp
  then have small: "ik_elbowInternalAngle ?d < pi / 4"
    by (simp only: g arccos_half_sqrt2)
  have "\<not> config_ok (ik_elbow_down (1 / 10) 0 0)" "\<not> config_ok (ik_elbow_up (1 / 10) 0 0)"
    using small
    by (simp_all add: config_ok_def within_limit_def cfg_sel dist limits_elbow_def)
  moreover have "ik_r (1 / 10) 0 = 1 / 10"
  proof -
    have "ik_r (1 / 10) 0 = sqrt ((1 / 10)\<^sup>2)"
      by (simp add: ik_r_def power2_eq_square)
    also have "\<dots> = \<bar>1 / 10\<bar>" by (rule real_sqrt_abs)
    finally show ?thesis by simp
  qed
  moreover have "?d \<le> 147 / 50" by (rule real_le_lsqrt) (simp_all add: power2_eq_square)
  moreover have "1 / 50 \<le> ?d" by (rule real_le_rsqrt) (simp add: power2_eq_square)
  ultimately show ?thesis
    by (simp add: solveIK_unfold dist ik_armReach_val)
qed

section \<open>The grip invariant is preserved\<close>

lemma same_grip_refl: "same_grip s s"
  by (simp add: same_grip_def)

lemma same_grip_trans: "same_grip s t \<Longrightarrow> same_grip t u \<Longrightarrow> same_grip s u"
  by (simp add: same_grip_def)

lemma same_grip_modify:
  "(\<And>ob. isGripped (f ob) = isGripped ob) \<Longrightarrow> same_grip s (modify r f s)"
  by (simp add: same_grip_def modify_def)

lemma same_grip_foldl:
  "(\<And>x st. same_grip st (f st x)) \<Longrightarrow> same_grip s (foldl f s xs)"
proof (induction xs arbitrary: s)
  case Nil
  show ?case by (simp add: same_grip_refl)
next
  case (Cons x xs)
  have "same_grip s (f s x)" by (rule Cons.prems)
  moreover have "same_grip (f s x) (foldl f (f s x) xs)"
    by (rule Cons.IH) (rule Cons.prems)
  ultimately show ?case by (simp add: same_grip_trans)
qed

lemma same_grip_inv: "same_grip s s' \<Longrightarrow> grip_inv s \<Longrightarrow> grip_inv s'"
  by (simp add: same_grip_def grip_inv_def)

lemma same_grip_pushObject: "same_grip s (pushObject w r s)"
  by (simp add: pushObject_def Let_def same_grip_def modify_def)

lemma same_grip_pushObjectsFromArm: "same_grip s (pushObjectsFromArm w s)"
  unfolding pushObjectsFromArm_def
  by (rule same_grip_foldl) (rule same_grip_pushObject)


lemma same_grip_keepAboveFloor: "same_grip s (keepAboveFloor r h s)"
  by (simp add: keepAboveFloor_def same_grip_modify same_grip_refl)

lemma same_grip_correctPositions: "same_grip s (correctPositions a b ca cb ha hb s)"
  unfolding correctPositions_def
  by (intro same_grip_trans [OF _ same_grip_keepAboveFloor]
      same_grip_trans [OF _ same_grip_modify] same_grip_modify) simp_all

lemma same_grip_applyImpulse: "same_grip s (applyImpulse a b n ra rb s)"
  unfolding applyImpulse_def Let_def
  by (auto intro!: same_grip_trans [OF _ same_grip_modify] same_grip_modify same_grip_refl)

lemma same_grip_stackFriction: "same_grip s (stackFriction a b s)"
  unfolding stackFriction_def Let_def
  by (auto intro!: same_grip_trans [OF _ same_grip_modify] same_grip_modify same_grip_refl)

lemma same_grip_resolvePair: "same_grip s (resolvePair w iter a b s)"
  unfolding resolvePair_def Let_def
  by (auto split: option.split prod.split
      intro!: same_grip_refl same_grip_correctPositions
        same_grip_trans [OF _ same_grip_stackFriction]
        same_grip_trans [OF _ same_grip_applyImpulse])


lemma same_grip_resolvePass: "same_grip s (resolvePass w iter s)"
proof -
  have "same_grip s (foldl (\<lambda>st (a, b). resolvePair w iter a b st) s ps)" for ps
    by (rule same_grip_foldl) (simp add: same_grip_resolvePair split: prod.split)
  then show ?thesis by (simp add: resolvePass_def)
qed

lemma same_grip_resolveObjectCollisions: "same_grip s (resolveObjectCollisions w s)"
  unfolding resolveObjectCollisions_def Let_def
  by (rule same_grip_foldl) (rule same_grip_resolvePass)

lemma same_grip_updateGrippedObjectPosition: "same_grip s (updateGrippedObjectPosition w r s)"
  unfolding updateGrippedObjectPosition_def Let_def
  by (auto split: option.split intro!: same_grip_refl same_grip_modify)

lemma integrateObject_shape:
  "\<exists>p v. integrateObject dt obj = obj\<lparr>obj_position := p, velocity := v\<rparr>"
  unfolding integrateObject_def Let_def
  by (simp only: split_beta) blast

lemma isGripped_integrateObject [simp]: "isGripped (integrateObject dt obj) = isGripped obj"
  using integrateObject_shape [of dt obj] by auto

lemma same_grip_physicsObjectStep: "same_grip s (physicsObjectStep w dt r s)"
  by (simp add: physicsObjectStep_def same_grip_updateGrippedObjectPosition same_grip_modify)

lemma same_grip_physicsSubstep: "same_grip s (physicsSubstep w dt s)"
proof -
  have "same_grip s (foldl (\<lambda>st r. physicsObjectStep w dt r st) s (sceneObjects s))"
    by (rule same_grip_foldl) (rule same_grip_physicsObjectStep)
  then show ?thesis
    unfolding physicsSubstep_def
    by (rule same_grip_trans) (rule same_grip_resolveObjectCollisions)
qed

lemma same_grip_funpow: "(\<And>st. same_grip st (f st)) \<Longrightarrow> same_grip s ((f ^^ n) s)"
proof (induction n)
  case 0
  show ?case by (simp add: same_grip_refl)
next
  case (Suc n)
  have "same_grip ((f ^^ n) s) (f ((f ^^ n) s))" by (rule Suc.prems)
  with Suc.IH [OF Suc.prems] show ?case by (simp add: same_grip_trans)
qed

lemma same_grip_updatePhysics: "same_grip s (updatePhysics w deltaTime s)"
proof -
  have a: "same_grip s ((physicsSubstep w dt ^^ n) s)" for dt n
    by (rule same_grip_funpow) (rule same_grip_physicsSubstep)
  show ?thesis
    unfolding updatePhysics_def Let_def
    by (auto intro: a same_grip_trans [OF a same_grip_pushObjectsFromArm])
qed


lemma grip_inv_initial: "grip_inv initial_sim"
  by (simp add: grip_inv_def initial_sim_def)

lemma grip_inv_createObject: "grip_inv s \<Longrightarrow> grip_inv (snd (createObject t x y z sz s))"
  by (auto simp add: grip_inv_def createObject_def Let_def less_Suc_eq)

lemma grip_inv_removeObject: "grip_inv s \<Longrightarrow> grip_inv (removeObject obj s)"
  by (auto simp add: grip_inv_def removeObject_def dest: notin_set_remove1)

lemma grip_inv_removeAllObjects_loop: "grip_inv s \<Longrightarrow> grip_inv (removeAllObjects_loop s)"
proof (induction s rule: removeAllObjects_loop.induct)
  case (1 s)
  show ?case
  proof (cases "sceneObjects s")
    case Nil
    with 1 show ?thesis by (simp add: removeAllObjects_loop.simps)
  next
    case (Cons r rs)
    with 1 show ?thesis
      by (subst removeAllObjects_loop.simps) (simp add: grip_inv_removeObject)
  qed
qed

lemma grip_inv_removeAllObjects: "grip_inv s \<Longrightarrow> grip_inv (removeAllObjects s)"
  using grip_inv_removeAllObjects_loop [of s]
  by (simp add: removeAllObjects_def grip_inv_def)

lemma grip_inv_gripObject:
  "grip_inv s \<Longrightarrow> r \<in> set (sceneObjects s) \<Longrightarrow> grip_inv (gripObject w r s)"
  by (auto simp add: grip_inv_def gripObject_def Let_def modify_def terminal_print_def)

lemma grip_inv_releaseObject: "grip_inv s \<Longrightarrow> grip_inv (releaseObject s)"
  by (auto simp add: grip_inv_def releaseObject_def modify_def terminal_print_def
      split: option.split)

lemma grip_inv_applyGripperOpenness: "grip_inv (applyGripperOpenness s) = grip_inv s"
  by (simp add: grip_inv_def applyGripperOpenness_def Let_def)

lemma grip_inv_setGripperOpenness: "grip_inv s \<Longrightarrow> grip_inv (setGripperOpenness p animated s)"
proof -
  assume inv: "grip_inv s"
  define s1 where "s1 = (if grippedObject s \<noteq> None \<and> max 0 (min 100 p) > gripperOpenness s + 1
     then releaseObject s else s)"
  have "grip_inv s1" using inv by (simp add: s1_def grip_inv_releaseObject)
  then have "grip_inv (s1\<lparr>targetGripperOpenness := c, gripperAnimating := True\<rparr>)"
    "grip_inv (s1\<lparr>gripperOpenness := c, targetGripperOpenness := c, gripperAnimating := False\<rparr>)"
    for c by (simp_all add: grip_inv_def)
  then show ?thesis
    unfolding setGripperOpenness_def Let_def s1_def [symmetric]
    by (simp add: grip_inv_applyGripperOpenness)
qed

lemma same_grip_setJointAngles: "same_grip s (setJointAngles now b sh e wr animated s)"
  by (simp add: setJointAngles_def Let_def startAnimation_def applyJointAngles_def same_grip_def)

lemma same_grip_applyAnglesSet: "same_grip s (applyAnglesSet a s)"
  by (simp add: applyAnglesSet_def applyJointAngles_def same_grip_def)


lemma sceneObjects_gripObject [simp]: "sceneObjects (gripObject w r s) = sceneObjects s"
  by (simp add: gripObject_def Let_def modify_def terminal_print_def)

lemma same_grip_fingerPush: "same_grip s (fingerPush w r l m s)"
  unfolding fingerPush_def Let_def
  by (auto intro!: same_grip_refl same_grip_trans [OF same_grip_modify same_grip_keepAboveFloor])

lemma same_grip_warn:
  "same_grip s ((terminal_print t ty s)\<lparr>targetGripperOpenness := x\<rparr>)"
  by (simp add: same_grip_def terminal_print_def)

lemma gripperLoopBody_cases:
  "fst (gripperLoopBody w r s) = gripObject w r s \<or> same_grip s (fst (gripperLoopBody w r s))"
  unfolding gripperLoopBody_def Let_def
  by (simp add: same_grip_refl same_grip_fingerPush same_grip_warn)

lemma grip_inv_gripperLoopBody:
  assumes "grip_inv s" "r \<in> set (sceneObjects s)"
  shows "grip_inv (fst (gripperLoopBody w r s))"
    and "sceneObjects (fst (gripperLoopBody w r s)) = sceneObjects s"
proof -
  from gripperLoopBody_cases [of w r s]
  show "grip_inv (fst (gripperLoopBody w r s))"
  proof
    assume "fst (gripperLoopBody w r s) = gripObject w r s"
    with assms show ?thesis by (simp add: grip_inv_gripObject)
  next
    assume "same_grip s (fst (gripperLoopBody w r s))"
    then show ?thesis using assms(1) by (rule same_grip_inv)
  qed
  from gripperLoopBody_cases [of w r s]
  show "sceneObjects (fst (gripperLoopBody w r s)) = sceneObjects s"
    by (auto simp add: same_grip_def)
qed

lemma grip_inv_gripperLoop:
  "grip_inv s \<Longrightarrow> set rs \<subseteq> set (sceneObjects s) \<Longrightarrow>
     grip_inv (gripperLoop w rs s) \<and> sceneObjects (gripperLoop w rs s) = sceneObjects s"
proof (induction rs arbitrary: s)
  case Nil
  then show ?case by simp
next
  case (Cons r rs)
  from Cons.prems have r: "r \<in> set (sceneObjects s)" by simp
  note body = grip_inv_gripperLoopBody [OF Cons.prems(1) r, of w]
  have sub: "set rs \<subseteq> set (sceneObjects (fst (gripperLoopBody w r s)))"
    using Cons.prems(2) by (simp add: body(2))
  from Cons.IH [OF body(1) sub] body show ?case
    by (simp add: split_beta Let_def)
qed

lemma grip_inv_updateGripperAnimation: "grip_inv s \<Longrightarrow> grip_inv (updateGripperAnimation w s)"
proof -
  assume inv: "grip_inv s"
  define s1 where "s1 = (if targetGripperOpenness s - gripperOpenness s < 0 \<and> grippedObject s = None
     then gripperLoop w (sceneObjects s) s else s)"
  have "grip_inv s1"
    using inv grip_inv_gripperLoop [OF inv, of "sceneObjects s" w] by (simp add: s1_def)
  then have "grip_inv (s1\<lparr>gripperOpenness := c, gripperAnimating := False\<rparr>)"
    "grip_inv (s1\<lparr>gripperOpenness := c\<rparr>)" for c
    by (simp_all add: grip_inv_def)
  then show ?thesis
    using inv unfolding updateGripperAnimation_def Let_def s1_def [symmetric]
    by (simp add: grip_inv_applyGripperOpenness)
qed

lemma same_grip_update:
  "same_grip s (s'\<lparr>lastSafeAngles := a, lastSafeProgress := p\<rparr>) = same_grip s s'"
  "same_grip s (s'\<lparr>isAnimating := b\<rparr>) = same_grip s s'"
  "same_grip s (s'\<lparr>animationQueue := q\<rparr>) = same_grip s s'"
  "same_grip s (s'\<lparr>runningProgram := pr\<rparr>) = same_grip s s'"
  "same_grip s (terminal_print t ty s') = same_grip s s'"
  by (simp_all add: same_grip_def terminal_print_def)

lemma same_grip_substepLoop:
  "same_grip s (fst (substepLoop w progressDelta n step k s))"
proof (induction k arbitrary: s step)
  case 0
  show ?case by (simp add: same_grip_refl)
next
  case (Suc k)
  define sp where "sp = lastSafeProgress s + progressDelta * real step / real n"
  define pa where "pa = getAnglesAtProgress (animationStartAngles s) (targetAngles s) sp"
  define s2 where "s2 = pushObjectsFromArm w (applyAnglesSet pa s)"
  have s2: "same_grip s s2"
    unfolding s2_def
    by (rule same_grip_trans [OF same_grip_applyAnglesSet same_grip_pushObjectsFromArm])
  show ?case
  proof (cases "checkArmCollisionWithBlockedObject w s2")
    case None
    have "same_grip s2 (s2\<lparr>lastSafeAngles := Some pa, lastSafeProgress := sp\<rparr>)"
      by (simp add: same_grip_update same_grip_refl)
    from same_grip_trans [OF same_grip_trans [OF s2 this] Suc.IH]
    show ?thesis
      using None by (simp add: Let_def sp_def [symmetric] pa_def [symmetric] s2_def [symmetric])
  next
    case (Some c)
    have "same_grip s2 (applyAnglesSet x s2)" for x by (rule same_grip_applyAnglesSet)
    with s2 have "same_grip s (applyAnglesSet x s2)" for x by (rule same_grip_trans)
    then show ?thesis
      using Some
      by (simp add: Let_def sp_def [symmetric] pa_def [symmetric] s2_def [symmetric]
          same_grip_update)
  qed
qed

lemma same_grip_finishAnimation: "same_grip s s' \<Longrightarrow> same_grip s (fst (finishAnimation s'))"
  by (simp add: finishAnimation_def Let_def same_grip_def split: list.split)

lemma same_grip_updateAnimation: "same_grip s (fst (updateAnimation w now s))"
proof -
  have loop: "same_grip s (fst (substepLoop w d n 1 n s))" for d n
    by (rule same_grip_substepLoop)
  show ?thesis
    unfolding updateAnimation_def Let_def
    using loop
    by (auto simp add: split_beta same_grip_refl same_grip_finishAnimation same_grip_update
        split: option.split)
qed

section \<open>Single grip\<close>

lemma reachable_grip_inv: "reachable s \<Longrightarrow> grip_inv s"
proof (induction rule: reachable.induct)
  case r_initial
  show ?case by (rule grip_inv_initial)
next
  case (r_createObject s t x y z sz)
  then show ?case by (simp only: grip_inv_createObject)
next
  case (r_removeObject s obj)
  then show ?case by (simp only: grip_inv_removeObject)
next
  case (r_removeAllObjects s)
  then show ?case by (simp only: grip_inv_removeAllObjects)
next
  case (r_gripObject s obj w)
  then show ?case by (simp only: grip_inv_gripObject)
next
  case (r_releaseObject s)
  then show ?case by (simp only: grip_inv_releaseObject)
next
  case (r_setGripperOpenness s percent animated)
  then show ?case by (simp only: grip_inv_setGripperOpenness)
next
  case (r_setJointAngles s now b sh e wr animated)
  then show ?case by (simp only: same_grip_inv [OF same_grip_setJointAngles])
next
  case (r_updateGripperAnimation s w)
  then show ?case by (simp only: grip_inv_updateGripperAnimation)
next
  case (r_updateAnimation s w now)
  then show ?case by (simp only: same_grip_inv [OF same_grip_updateAnimation])
next
  case (r_pushObjectsFromArm s w)
  then show ?case by (simp only: same_grip_inv [OF same_grip_pushObjectsFromArm])
next
  case (r_updatePhysics s w deltaTime)
  then show ?case by (simp only: same_grip_inv [OF same_grip_updatePhysics])
qed

lemma grip_inv_card:
  assumes "grip_inv s"
  shows "card {r \<in> set (sceneObjects s). isGripped (heap s r)} \<le> 1"
proof (cases "grippedObject s")
  case None
  with assms have "{r \<in> set (sceneObjects s). isGripped (heap s r)} = {}"
    by (auto simp add: grip_inv_def)
  then have "card {r \<in> set (sceneObjects s). isGripped (heap s r)} = 0"
    by (simp only: card.empty)
  then show ?thesis by linarith
next
  case (Some g)
  with assms have "{r \<in> set (sceneObjects s). isGripped (heap s r)} \<subseteq> {g}"
    by (auto simp add: grip_inv_def)
  then have "card {r \<in> set (sceneObjects s). isGripped (heap s r)} \<le> card {g}"
    by (rule card_mono [rotated]) simp
  moreover have "card {g} = 1" by simp
  ultimately show ?thesis by linarith
qed

text \<open>
  Claim C9.  In every reachable state at most one object of the scene has its
  \<open>isGripped\<close> flag set.  \<open>gripObject\<close> on an object that is already gripped, or
  while any object is held, returns the state unchanged; \<open>releaseObject\<close> with no
  gripped object returns the state unchanged.
\<close>

theorem single_grip:
  "(reachable s \<longrightarrow> card {r \<in> set (sceneObjects s). isGripped (heap s r)} \<le> 1) \<and>
   (isGripped (heap s obj) \<or> grippedObject s \<noteq> None \<longrightarrow> gripObject w obj s = s) \<and>
   (grippedObject s = None \<longrightarrow> releaseObject s = s)"
proof (intro conjI impI)
  assume "reachable s"
  then show "card {r \<in> set (sceneObjects s). isGripped (heap s r)} \<le> 1"
    by (intro grip_inv_card reachable_grip_inv)
next
  assume "isGripped (heap s obj) \<or> grippedObject s \<noteq> None"
  then show "gripObject w obj s = s"
    unfolding gripObject_def by (simp only: if_True)
next
  assume "grippedObject s = None"
  then show "releaseObject s = s"
    by (simp add: releaseObject_def)
qed

lemma scenario_held_reachable: "reachable scenario_held"
  unfolding scenario_held_def
  by (intro r_gripObject r_createObject r_initial)
     (simp add: createObject_def initial_sim_def Let_def terminal_print_def)

lemma scenario_held_gripped:
  "grippedObject scenario_held = Some 0 \<and> isGripped (heap scenario_held 0) \<and>
   sceneObjects scenario_held = [0]"
  by (simp add: scenario_held_def gripObject_def createObject_def initial_sim_def Let_def
      terminal_print_def modify_def blank_object_def)

theorem single_grip_witness:
  "reachable scenario_held \<and> isGripped (heap scenario_held 0) \<and>
   card {r \<in> set (sceneObjects scenario_held). isGripped (heap scenario_held r)} \<le> 1 \<and>
   gripObject scenario_world 0 scenario_held = scenario_held \<and>
   grippedObject initial_sim = None \<and> releaseObject initial_sim = initial_sim"
  using single_grip [of scenario_held 0 scenario_world] single_grip [of initial_sim 0 scenario_world]
    scenario_held_reachable scenario_held_gripped
  by (simp add: initial_sim_def)

section \<open>Release on opening\<close>

lemma releaseObject_clears:
  assumes "grippedObject s = Some obj"
  shows "grippedObject (releaseObject s) = None"
    and "heap (releaseObject s) obj =
           (heap s obj)\<lparr>isGripped := False, grippedOffset := None, grippedRotation := None,
                         velocity := Vector3 0 (- 0.5) 0\<rparr>"
    and "gripperOpenness (releaseObject s) = gripperOpenness s"
  using assms by (simp_all add: releaseObject_def terminal_print_def modify_def)

lemma setGripperOpenness_frame:
  "heap (setGripperOpenness percent animated s) =
     heap (if grippedObject s \<noteq> None \<and> max 0 (min 100 percent) > gripperOpenness s + 1
           then releaseObject s else s)"
  "grippedObject (setGripperOpenness percent animated s) =
     grippedObject (if grippedObject s \<noteq> None \<and> max 0 (min 100 percent) > gripperOpenness s + 1
           then releaseObject s else s)"
  by (simp_all add: setGripperOpenness_def applyGripperOpenness_def Let_def)

lemma updateGrippedObjectPosition_released:
  "grippedOffset (heap s obj) = None \<Longrightarrow> updateGrippedObjectPosition w obj s = s"
  by (simp add: updateGrippedObjectPosition_def)

text \<open>
  Claim C10.  While an object is held, \<open>setGripperOpenness\<close> with a request that,
  clamped to [0, 100], exceeds the current openness by more than 1 releases the object:
  \<open>grippedObject\<close> is cleared, the object's \<open>isGripped\<close> flag, stored offset and stored
  orientation are cleared, its velocity is (0, -0.5, 0), and a following
  \<open>updateGrippedObjectPosition\<close> on it does nothing.  With any other request (closing,
  equal, lower, or at most 1 above) the held object and the whole store are unchanged.
\<close>

theorem release_on_opening:
  "grippedObject s = Some obj \<longrightarrow>
     (let s' = setGripperOpenness percent animated s in
      if max 0 (min 100 percent) > gripperOpenness s + 1 then
        grippedObject s' = None \<and> \<not> isGripped (heap s' obj) \<and>
        grippedOffset (heap s' obj) = None \<and> grippedRotation (heap s' obj) = None \<and>
        velocity (heap s' obj) = Vector3 0 (- 0.5) 0 \<and>
        updateGrippedObjectPosition w obj s' = s'
      else grippedObject s' = Some obj \<and> heap s' = heap s)"
proof
  assume g: "grippedObject s = Some obj"
  show "let s' = setGripperOpenness percent animated s in
      if max 0 (min 100 percent) > gripperOpenness s + 1 then
        grippedObject s' = None \<and> \<not> isGripped (heap s' obj) \<and>
        grippedOffset (heap s' obj) = None \<and> grippedRotation (heap s' obj) = None \<and>
        velocity (heap s' obj) = Vector3 0 (- 0.5) 0 \<and>
        updateGrippedObjectPosition w obj s' = s'
      else grippedObject s' = Some obj \<and> heap s' = heap s"
  proof (cases "max 0 (min 100 percent) > gripperOpenness s + 1")
    case True
    define s' where "s' = setGripperOpenness percent animated s"
    have h: "heap s' obj =
           (heap s obj)\<lparr>isGripped := False, grippedOffset := None, grippedRotation := None,
                         velocity := Vector3 0 (- 0.5) 0\<rparr>"
      and n: "grippedObject s' = None"
      using g True by (simp_all add: s'_def setGripperOpenness_frame releaseObject_clears)
    from h have "grippedOffset (heap s' obj) = None" by simp
    then have "updateGrippedObjectPosition w obj s' = s'"
      by (rule updateGrippedObjectPosition_released)
    with h n True show ?thesis
      by (simp add: Let_def s'_def [symmetric])
  next
    case False
    with g show ?thesis
      by (simp add: Let_def setGripperOpenness_frame)
  qed
qed

lemma scenario_held_openness: "gripperOpenness scenario_held = 50"
  by (simp add: scenario_held_def gripObject_def createObject_def initial_sim_def Let_def
      terminal_print_def modify_def blank_object_def)

theorem release_on_opening_witness:
  "grippedObject scenario_held = Some 0 \<and> gripperOpenness scenario_held = 50 \<and>
   grippedObject (setGripperOpenness 80 True scenario_held) = None \<and>
   \<not> isGripped (heap (setGripperOpenness 80 True scenario_held) 0) \<and>
   velocity (heap (setGripperOpenness 80 True scenario_held) 0) = Vector3 0 (- 0.5) 0 \<and>
   grippedObject (setGripperOpenness 30 True scenario_held) = Some 0 \<and>
   heap (setGripperOpenness 30 True scenario_held) = heap scenario_held"
  using release_on_opening [of scenario_held 0 80 True scenario_world]
    release_on_opening [of scenario_held 0 30 True scenario_world]
    scenario_held_gripped scenario_held_openness
  by (simp add: Let_def)

section \<open>Blocking contacts\<close>









lemma firstBlockingFinger_penetration:
  "firstBlockingFinger cols = Some c \<Longrightarrow>
     Some c \<in> set cols \<and> vec_y (mc_separationAxis c) < - 0.95 \<and> mc_penetration c > 0.02"
  by (induction cols) (auto split: option.splits if_splits)



section \<open>Distances to segments\<close>

lemma v_length_ge_y: "\<bar>vec_y a\<bar> \<le> v_length a"
proof -
  have "(vec_y a)\<^sup>2 \<le> lengthSq a"
    by (cases a) (simp add: lengthSq_def v_dot_def power2_eq_square)
  then have "sqrt ((vec_y a)\<^sup>2) \<le> sqrt (lengthSq a)" by (rule real_sqrt_le_mono)
  then show ?thesis by (simp add: v_length_def)
qed

lemma v_length_ge_x: "\<bar>vec_x a\<bar> \<le> v_length a"
proof -
  have "(vec_x a)\<^sup>2 \<le> lengthSq a"
    by (cases a) (simp add: lengthSq_def v_dot_def power2_eq_square)
  then have "sqrt ((vec_x a)\<^sup>2) \<le> sqrt (lengthSq a)" by (rule real_sqrt_le_mono)
  then show ?thesis by (simp add: v_length_def)
qed

lemma v_length_axis_y [simp]: "v_length (Vector3 0 y 0) = \<bar>y\<bar>"
  by (simp add: v_length_def lengthSq_def v_dot_def flip: power2_eq_square)

lemma v_length_axis_x [simp]: "v_length (Vector3 x 0 0) = \<bar>x\<bar>"
  by (simp add: v_length_def lengthSq_def v_dot_def flip: power2_eq_square)

lemma pointToSegmentDistance_param:
  "\<exists>t. 0 \<le> t \<and> t \<le> 1 \<and>
     pointToSegmentDistance p a b = distanceTo p (v_add a (multiplyScalar (v_sub b a) t))"
proof -
  define len where "len = v_length (v_sub b a)"
  define proj where "proj = v_dot (v_sub p a) (v_normalize (v_sub b a))"
  have z: "v_add a (multiplyScalar (v_sub b a) 0) = a"
    by (cases a; cases b) (simp add: v_add_def multiplyScalar_def v_sub_def)
  have o: "v_add a (multiplyScalar (v_sub b a) 1) = b"
    by (cases a; cases b) (simp add: v_add_def multiplyScalar_def v_sub_def)
  consider "len < 0.001" | "\<not> len < 0.001" "proj \<le> 0" | "\<not> len < 0.001" "\<not> proj \<le> 0" "proj \<ge> len"
    | "\<not> len < 0.001" "\<not> proj \<le> 0" "\<not> proj \<ge> len" by blast
  then show ?thesis
  proof cases
    case 1
    then have "pointToSegmentDistance p a b = distanceTo p a"
      by (simp add: pointToSegmentDistance_def Let_def len_def)
    with z show ?thesis by (intro exI [of _ 0]) simp
  next
    case 2
    then have "pointToSegmentDistance p a b = distanceTo p a"
      by (simp add: pointToSegmentDistance_def Let_def len_def proj_def)
    with z show ?thesis by (intro exI [of _ 0]) simp
  next
    case 3
    then have "pointToSegmentDistance p a b = distanceTo p b"
      by (simp add: pointToSegmentDistance_def Let_def len_def proj_def)
    with o show ?thesis by (intro exI [of _ 1]) simp
  next
    case 4
    then have pos: "0 < len" by simp
    from 4 have "pointToSegmentDistance p a b =
        distanceTo p (v_add a (multiplyScalar (v_normalize (v_sub b a)) proj))"
      by (simp add: pointToSegmentDistance_def Let_def len_def proj_def)
    moreover have "multiplyScalar (v_normalize (v_sub b a)) proj =
        multiplyScalar (v_sub b a) (proj / len)"
      using pos by (cases "v_sub b a") (simp add: v_normalize_def multiplyScalar_def len_def)
    moreover have "0 \<le> proj / len" "proj / len \<le> 1" using 4 pos by simp_all
    ultimately show ?thesis by (intro exI [of _ "proj / len"]) simp
  qed
qed

lemma pointToSegmentDistance_far_y:
  assumes "vec_y p + d \<le> vec_y a" "vec_y p + d \<le> vec_y b"
  shows "d \<le> pointToSegmentDistance p a b"
proof -
  obtain t where t: "0 \<le> t" "t \<le> 1"
    and eq: "pointToSegmentDistance p a b = distanceTo p (v_add a (multiplyScalar (v_sub b a) t))"
    using pointToSegmentDistance_param by blast
  define q where "q = v_add a (multiplyScalar (v_sub b a) t)"
  have "vec_y q = (1 - t) * vec_y a + t * vec_y b"
    by (cases a; cases b) (simp add: q_def v_add_def multiplyScalar_def v_sub_def algebra_simps)
  moreover have "(1 - t) * (vec_y p + d) \<le> (1 - t) * vec_y a"
    using assms(1) t by (intro mult_left_mono) simp_all
  moreover have "t * (vec_y p + d) \<le> t * vec_y b"
    using assms(2) t by (intro mult_left_mono) simp_all
  ultimately have "vec_y p + d \<le> vec_y q" by (simp add: algebra_simps)
  then have "d \<le> \<bar>vec_y (v_sub p q)\<bar>"
    by (cases p; cases q) (simp add: v_sub_def)
  also have "\<dots> \<le> distanceTo p q" unfolding distanceTo_def by (rule v_length_ge_y)
  finally show ?thesis by (simp add: eq q_def)
qed

lemma pointToSegmentDistance_far_x:
  assumes "vec_x a + d \<le> vec_x p" "vec_x b + d \<le> vec_x p"
  shows "d \<le> pointToSegmentDistance p a b"
proof -
  obtain t where t: "0 \<le> t" "t \<le> 1"
    and eq: "pointToSegmentDistance p a b = distanceTo p (v_add a (multiplyScalar (v_sub b a) t))"
    using pointToSegmentDistance_param by blast
  define q where "q = v_add a (multiplyScalar (v_sub b a) t)"
  have "vec_x q = (1 - t) * vec_x a + t * vec_x b"
    by (cases a; cases b) (simp add: q_def v_add_def multiplyScalar_def v_sub_def algebra_simps)
  moreover have "(1 - t) * (vec_x a + d) \<le> (1 - t) * vec_x p"
    using assms(1) t by (intro mult_left_mono) simp_all
  moreover have "t * (vec_x b + d) \<le> t * vec_x p"
    using assms(2) t by (intro mult_left_mono) simp_all
  ultimately have "vec_x q + d \<le> vec_x p" by (simp add: algebra_simps)
  then have "d \<le> \<bar>vec_x (v_sub p q)\<bar>"
    by (cases p; cases q) (simp add: v_sub_def)
  also have "\<dots> \<le> distanceTo p q" unfolding distanceTo_def by (rule v_length_ge_x)
  finally show ?thesis by (simp add: eq q_def)
qed

lemma distanceTo_far_y: "vec_y p + d \<le> vec_y a \<Longrightarrow> d \<le> distanceTo a p"
proof -
  assume "vec_y p + d \<le> vec_y a"
  then have "d \<le> \<bar>vec_y (v_sub a p)\<bar>" by (cases p; cases a) (simp add: v_sub_def)
  also have "\<dots> \<le> distanceTo a p" unfolding distanceTo_def by (rule v_length_ge_y)
  finally show ?thesis .
qed

lemma distanceTo_far_x: "vec_x a + d \<le> vec_x p \<Longrightarrow> d \<le> distanceTo a p"
proof -
  assume "vec_x a + d \<le> vec_x p"
  then have "d \<le> \<bar>vec_x (v_sub a p)\<bar>" by (cases p; cases a) (simp add: v_sub_def)
  also have "\<dots> \<le> distanceTo a p" unfolding distanceTo_def by (rule v_length_ge_x)
  finally show ?thesis .
qed

text \<open>A vertical segment that ends above the point, right over it.\<close>

lemma segment_above:
  assumes "lo \<le> mid" "mid + 0.001 \<le> hi"
  shows "pointToSegmentDistance (Vector3 x lo z) (Vector3 x hi z) (Vector3 x mid z) = mid - lo"
    and "closestPointOnSegment (Vector3 x lo z) (Vector3 x hi z) (Vector3 x mid z) = Vector3 x mid z"
proof -
  have len: "v_length (v_sub (Vector3 x mid z) (Vector3 x hi z)) = hi - mid"
    using assms by (simp add: v_sub_def)
  have n: "v_normalize (v_sub (Vector3 x mid z) (Vector3 x hi z)) = Vector3 0 (- 1) 0"
    using assms by (simp add: v_normalize_def v_sub_def multiplyScalar_def field_simps)
  have proj: "v_dot (v_sub (Vector3 x lo z) (Vector3 x hi z)) (Vector3 0 (- 1) 0) = hi - lo"
    by (simp add: v_dot_def v_sub_def)
  have d: "distanceTo (Vector3 x lo z) (Vector3 x mid z) = mid - lo"
    using assms by (simp add: distanceTo_def v_sub_def)
  show "pointToSegmentDistance (Vector3 x lo z) (Vector3 x hi z) (Vector3 x mid z) = mid - lo"
    unfolding pointToSegmentDistance_def Let_def len n proj d using assms by simp
  show "closestPointOnSegment (Vector3 x lo z) (Vector3 x hi z) (Vector3 x mid z) = Vector3 x mid z"
    unfolding closestPointOnSegment_def Let_def len n proj using assms by simp
qed

section \<open>The scene evaluated\<close>

lemma isGripperMeshName_scenario:
  "isGripperMeshName ''left_bar''" "isGripperMeshName ''right_bar''"
  "\<not> isGripperMeshName ''wrist''"
  by (simp_all add: isGripperMeshName_def toLowerCase_def str_includes_def Let_def)

lemma over_cubeD:
  assumes "over_cube s d"
  shows "sceneObjects s = [0]" "obj_position (heap s 0) = Vector3 1.32 0.055 0"
    "obj_size (heap s 0) = Vector3 0.11 0.11 0.11" "isGripped (heap s 0) = False"
    "gripperOpenness s = 0" "leftFingerX s = - 0.03" "rightFingerX s = 0.03"
    "scenario_drop (pivots s) = d"
  using assms unfolding over_cube_def by blast+

lemma over_cube_pose:
  assumes "over_cube s d"
  shows "pose_of scenario_world s =
      \<lparr>basePivotPos = Vector3 0 0.15 0,
       elbowPivotPos = Vector3 0.42 1.99 0,
       wristPivotPos = Vector3 1.32 (0.79 - d) 0,
       wristRotatePivotPos = Vector3 1.32 (0.39 - d) 0,
       leftTip = Vector3 1.35 (0.08 - d) 0,
       rightTip = Vector3 1.29 (0.08 - d) 0,
       gripperCenter = Vector3 1.32 (0.08 - d) 0,
       gripperQuat = Rotation (Vector3 (- 1) 0 0) (Vector3 0 (- 1) 0) (Vector3 0 0 1),
       gripperMeshes_left = [scenario_bar ''left_bar'' (- 0.03) d],
       gripperMeshes_right = [scenario_bar ''right_bar'' 0.03 d],
       robotArmMeshes =
         [scenario_wrist d, scenario_bar ''left_bar'' (- 0.03) d, scenario_bar ''right_bar'' 0.03 d]\<rparr>"
  by (simp add: over_cubeD [OF assms] pose_of_def scenario_world_def scenario_pose_def Let_def)

lemma over_cube_box:
  assumes "over_cube s d"
  shows "objectBox scenario_world (heap s 0) = scenario_cube_box"
  by (simp add: over_cubeD [OF assms] scenario_world_def uprightBox_def v_sub_def v_add_def
      multiplyScalar_def scenario_cube_box_def)

lemma over_cube_radius:
  assumes "over_cube s d"
  shows "getRadius (heap s 0) = 0.055" "getHalfHeight (heap s 0) = 0.055"
  by (simp_all add: over_cubeD [OF assms] getRadius_def getHalfHeight_def)

lemma bar_contact:
  assumes "\<bar>f\<bar> = 0.03" "d < 0.01"
  shows "checkMeshObjectCollision [scenario_bar n f d] scenario_cube_box 0 =
     (if - 0.03 < d then
        Some \<lparr>mc_mesh = scenario_bar n f d, mc_penetration = 0.03 + d,
               mc_point = Vector3 (1.32 - f) (0.08 - d) 0, mc_pushDirection = Vector3 0 (- 1) 0,
               mc_separationAxis = Vector3 0 (- 1) 0\<rparr>
      else None)"
proof -
  have fb: "f \<le> 0.03" "- 0.03 \<le> f" using assms(1) by linarith+
  have c: "getCenter (mesh_box (scenario_bar n f d)) = Vector3 (1.32 - f) (0.205 - d) 0"
    "getSize (mesh_box (scenario_bar n f d)) = Vector3 0.03 0.25 0.08"
    by (simp_all add: scenario_bar_def getCenter_def getSize_def v_add_def v_sub_def
        multiplyScalar_def)
  have c': "getCenter scenario_cube_box = Vector3 1.32 0.055 0"
    "getSize scenario_cube_box = Vector3 0.11 0.11 0.11"
    by (simp_all add: scenario_cube_box_def getCenter_def getSize_def v_add_def v_sub_def
        multiplyScalar_def)
  have ox: "(0.03 + 0.11) / 2 - \<bar>1.32 - (1.32 - f)\<bar> = (0.04 :: real)"
    using assms(1) by simp
  have oy: "(0.25 + 0.11) / 2 - \<bar>0.055 - (0.205 - d)\<bar> = 0.03 + d"
    using assms(2) by simp
  have oz: "(0.08 + 0.11) / 2 - \<bar>0 - 0\<bar> = (0.095 :: real)" by simp
  have s: "computeAABBSeparation (mesh_box (scenario_bar n f d)) scenario_cube_box =
      (if - 0.03 < d then Some \<lparr>sep_axis = Vector3 0 (- 1) 0, sep_depth = 0.03 + d\<rparr> else None)"
    unfolding computeAABBSeparation_def Let_def c c' v_sub_def vec3.sel ox oy oz
    using assms(2) by simp
  have i: "- 0.03 < d \<Longrightarrow> intersectsBox (mesh_box (scenario_bar n f d)) scenario_cube_box"
    using assms(2) fb by (simp add: intersectsBox_def scenario_bar_def scenario_cube_box_def)
  show ?thesis
    by (simp add: checkMeshObjectCollision_def Let_def s i c v_add_def multiplyScalar_def
        v_dot_def v_multiply_def)
qed

lemma over_cube_gripper_contact:
  assumes "over_cube s d" "d < 0.01"
  shows "checkGripperMeshCollision scenario_world s (heap s 0) =
     \<lparr>leftCollision =
        (if - 0.03 < d then
           Some \<lparr>mc_mesh = scenario_bar ''left_bar'' (- 0.03) d, mc_penetration = 0.03 + d,
                  mc_point = Vector3 1.35 (0.08 - d) 0, mc_pushDirection = Vector3 0 (- 1) 0,
                  mc_separationAxis = Vector3 0 (- 1) 0\<rparr>
         else None),
      rightCollision =
        (if - 0.03 < d then
           Some \<lparr>mc_mesh = scenario_bar ''right_bar'' 0.03 d, mc_penetration = 0.03 + d,
                  mc_point = Vector3 1.29 (0.08 - d) 0, mc_pushDirection = Vector3 0 (- 1) 0,
                  mc_separationAxis = Vector3 0 (- 1) 0\<rparr>
         else None)\<rparr>"
  using assms(2)
  by (simp add: checkGripperMeshCollision_def over_cube_pose [OF assms(1)]
      over_cube_box [OF assms(1)] bar_contact)

lemma over_cube_arm_mesh:
  assumes "over_cube s d" "d < 0.01"
  shows "checkArmMeshCollision scenario_world s (heap s 0) = None"
proof -
  have "\<not> intersectsBox (mesh_box (scenario_wrist d)) scenario_cube_box"
    using assms(2) by (simp add: intersectsBox_def scenario_wrist_def scenario_cube_box_def)
  then show ?thesis
    by (simp add: checkArmMeshCollision_def over_cube_pose [OF assms(1)]
        over_cube_box [OF assms(1)] Let_def isGripperMeshName_scenario scenario_bar_def
        scenario_wrist_def)
qed

lemma over_cube_not_in_zone:
  assumes "over_cube s d"
  shows "isObjectInGripZone scenario_world s (heap s 0) = False"
  by (simp add: isObjectInGripZone_def Let_def over_cube_pose [OF assms]
      over_cubeD [OF assms] over_cube_radius [OF assms] gripperXAxis_def v_sub_def v_dot_def
      applyQuaternion_def)

lemma over_cube_segment:
  assumes "over_cube s d" "d < 0.01"
  shows "checkArmObjectCollision scenario_world s (heap s 0) =
     (if 0.025 - d < 0.095 then
        Some \<lparr>sc_distance = 0.025 - d, sc_segment_name = ''gripper'', sc_segment_radius = 0.04,
               sc_point = Vector3 1.32 (0.08 - d) 0, sc_penetration = 0.095 - (0.025 - d)\<rparr>
      else None)"
proof -
  define P where "P = Vector3 1.32 0.055 0"
  define Sh where "Sh = Vector3 0 0.55 0"
  define E where "E = Vector3 0.42 1.99 0"
  define W where "W = Vector3 1.32 (0.79 - d) 0"
  define G where "G = Vector3 1.32 (0.39 - d) 0"
  define C where "C = Vector3 1.32 (0.08 - d) 0"
  have pos: "getArmJointPositions scenario_world s =
      [(''shoulder'', Sh), (''elbow'', E), (''wrist'', W), (''gripperBase'', G),
       (''leftTip'', Vector3 1.35 (0.08 - d) 0), (''rightTip'', Vector3 1.29 (0.08 - d) 0),
       (''gripperCenter'', C)]"
    by (simp add: getArmJointPositions_def over_cube_pose [OF assms(1)] Let_def v_add_def
        baseHeight_def Sh_def E_def W_def G_def C_def)
  have obj: "obj_position (heap s 0) = P" "getRadius (heap s 0) = 0.055"
    by (simp_all add: over_cubeD [OF assms(1)] over_cube_radius [OF assms(1)] P_def)
  have f1: "0.135 \<le> pointToSegmentDistance P Sh E"
    by (rule pointToSegmentDistance_far_x) (simp_all add: P_def Sh_def E_def)
  have f2: "0.115 \<le> pointToSegmentDistance P E W"
    using assms(2) by (intro pointToSegmentDistance_far_y) (simp_all add: P_def W_def E_def)
  have f3: "0.105 \<le> pointToSegmentDistance P W G"
    using assms(2) by (intro pointToSegmentDistance_far_y) (simp_all add: P_def W_def G_def)
  have f4: "pointToSegmentDistance P G C = 0.025 - d" "closestPointOnSegment P G C = C"
    using assms(2) segment_above [of "0.055" "0.08 - d" "0.39 - d" "1.32" "0"]
    by (simp_all add: P_def G_def C_def)
  have j1: "0.255 \<le> distanceTo E P"
    by (rule distanceTo_far_y) (simp add: P_def E_def)
  have j2: "0.205 \<le> distanceTo W P"
    using assms(2) by (intro distanceTo_far_y) (simp add: P_def W_def)
  have "checkArmObjectCollision scenario_world s (heap s 0) =
     (if 0.025 - d < 0.095 then
        Some \<lparr>sc_distance = 0.025 - d, sc_segment_name = ''gripper'', sc_segment_radius = 0.04,
               sc_point = C, sc_penetration = 0.095 - (0.025 - d)\<rparr>
      else None)"
    using f1 f2 f3 j1 j2 assms(2)
    by (simp add: checkArmObjectCollision_def Let_def pos obj armSegments_def jointRadii_def
        f4 closer_def)
  then show ?thesis unfolding C_def .
qed

lemma addPushForce_down:
  "addPushForce True (Vector3 0 y 0) pen src fs = fs" if "y < 0"
  using that by (simp add: addPushForce_def Let_def set_y_def lengthSq_def v_dot_def)

lemma over_cube_forces:
  assumes "over_cube s d" "d < 0.01"
  shows "collectPushForces scenario_world s (heap s 0) = []"
  unfolding collectPushForces_def Let_def
  using assms(2)
  by (simp add: over_cubeD [OF assms(1)] over_cube_radius [OF assms(1)]
      over_cube_not_in_zone [OF assms(1)] over_cube_gripper_contact [OF assms]
      over_cube_arm_mesh [OF assms] over_cube_segment [OF assms] gc_collision_def
      gc_bothContact_def penetration_or_0_def v_sub_def addPushForce_down)

lemma over_cube_push:
  assumes "over_cube s d" "d < 0.01"
  shows "pushObjectsFromArm scenario_world s = s"
  by (simp add: pushObjectsFromArm_def pushObject_def Let_def over_cubeD [OF assms(1)]
      over_cube_forces [OF assms])

lemma over_cube_check:
  assumes "over_cube s d" "d < 0.01"
  shows "checkArmCollisionWithBlockedObject scenario_world s =
     (if - 0.01 < d
      then Some \<lparr>blk_object = 0, blk_segment = ''gripper'', blk_penetration = 0.03 + d\<rparr>
      else None)"
  unfolding checkArmCollisionWithBlockedObject_def
  using assms(2)
  by (simp add: over_cubeD [OF assms(1)] over_cube_radius [OF assms(1)] checkBlockedObject_def
      Let_def over_cube_not_in_zone [OF assms(1)] over_cube_gripper_contact [OF assms]
      over_cube_arm_mesh [OF assms] gc_collision_def)















lemma over_cube_applyAnglesSet:
  "over_cube s d \<Longrightarrow> over_cube (applyAnglesSet a s) (scenario_drop a)"
  by (simp add: over_cube_def applyAnglesSet_def applyJointAngles_def scenario_drop_def)

lemma over_cube_lastSafe:
  "over_cube (s\<lparr>lastSafeAngles := a, lastSafeProgress := p\<rparr>) d = over_cube s d"
  by (simp add: over_cube_def)

lemma applyAnglesSet_fields:
  "animationStartAngles (applyAnglesSet a s) = animationStartAngles s"
  "targetAngles (applyAnglesSet a s) = targetAngles s"
  "lastSafeProgress (applyAnglesSet a s) = lastSafeProgress s"
  "jointAngles (applyAnglesSet a s) = a"
  "pivots (applyAnglesSet a s) = a"
  by (simp_all add: applyAnglesSet_def applyJointAngles_def)

lemma substep_safe:
  assumes "over_cube s d0"
    and "scenario_drop (getAnglesAtProgress (animationStartAngles s) (targetAngles s)
           (lastSafeProgress s + (progressDelta * real step / real SUBSTEPS))) \<le> - 0.01"
  shows "substepLoop scenario_world progressDelta SUBSTEPS step (Suc n) s =
     substepLoop scenario_world progressDelta SUBSTEPS (Suc step) n
       ((applyAnglesSet (getAnglesAtProgress (animationStartAngles s) (targetAngles s)
           (lastSafeProgress s + (progressDelta * real step / real SUBSTEPS))) s)
         \<lparr>lastSafeAngles := Some (getAnglesAtProgress (animationStartAngles s) (targetAngles s)
             (lastSafeProgress s + (progressDelta * real step / real SUBSTEPS))),
          lastSafeProgress := lastSafeProgress s + (progressDelta * real step / real SUBSTEPS)\<rparr>)"
proof -
  define a where "a = getAnglesAtProgress (animationStartAngles s) (targetAngles s)
           (lastSafeProgress s + (progressDelta * real step / real SUBSTEPS))"
  have oc: "over_cube (applyAnglesSet a s) (scenario_drop a)"
    using assms(1) by (rule over_cube_applyAnglesSet)
  have d: "scenario_drop a < 0.01" "\<not> - 0.01 < scenario_drop a"
    using assms(2) by (simp_all add: a_def)
  have p: "pushObjectsFromArm scenario_world (applyAnglesSet a s) = applyAnglesSet a s"
    using oc d(1) by (rule over_cube_push)
  have c: "checkArmCollisionWithBlockedObject scenario_world (applyAnglesSet a s) = None"
    using over_cube_check [OF oc d(1)] d(2) by simp
  show ?thesis
    unfolding substepLoop.simps Let_def a_def [symmetric] p c by simp
qed

lemma substep_blocked:
  assumes "over_cube s d0"
    and "- 0.01 < scenario_drop (getAnglesAtProgress (animationStartAngles s) (targetAngles s)
           (lastSafeProgress s + (progressDelta * real step / real SUBSTEPS)))"
    and "scenario_drop (getAnglesAtProgress (animationStartAngles s) (targetAngles s)
           (lastSafeProgress s + (progressDelta * real step / real SUBSTEPS))) < 0.01"
  shows "substepLoop scenario_world progressDelta SUBSTEPS step (Suc n) s =
     ((applyAnglesSet (getAnglesAtProgress (animationStartAngles s) (targetAngles s)
          (max (lastSafeProgress s)
             (lastSafeProgress s + (progressDelta * real step / real SUBSTEPS)
                - (progressDelta / real SUBSTEPS) * 0.5))) s)
        \<lparr>lastSafeAngles := Some (getAnglesAtProgress (animationStartAngles s) (targetAngles s)
          (max (lastSafeProgress s)
             (lastSafeProgress s + (progressDelta * real step / real SUBSTEPS)
                - (progressDelta / real SUBSTEPS) * 0.5))),
         lastSafeProgress := max (lastSafeProgress s)
             (lastSafeProgress s + (progressDelta * real step / real SUBSTEPS)
                - (progressDelta / real SUBSTEPS) * 0.5)\<rparr>,
      Some \<lparr>blk_object = 0, blk_segment = ''gripper'',
            blk_penetration = 0.03 + scenario_drop
              (getAnglesAtProgress (animationStartAngles s) (targetAngles s)
                 (lastSafeProgress s + (progressDelta * real step / real SUBSTEPS)))\<rparr>)"
proof -
  define a where "a = getAnglesAtProgress (animationStartAngles s) (targetAngles s)
           (lastSafeProgress s + (progressDelta * real step / real SUBSTEPS))"
  have oc: "over_cube (applyAnglesSet a s) (scenario_drop a)"
    using assms(1) by (rule over_cube_applyAnglesSet)
  have d: "scenario_drop a < 0.01" "- 0.01 < scenario_drop a"
    using assms(2,3) by (simp_all add: a_def)
  have p: "pushObjectsFromArm scenario_world (applyAnglesSet a s) = applyAnglesSet a s"
    using oc d(1) by (rule over_cube_push)
  have c: "checkArmCollisionWithBlockedObject scenario_world (applyAnglesSet a s) =
      Some \<lparr>blk_object = 0, blk_segment = ''gripper'', blk_penetration = 0.03 + scenario_drop a\<rparr>"
    using over_cube_check [OF oc d(1)] d(2) by simp
  show ?thesis
    unfolding substepLoop.simps Let_def a_def [symmetric] p c
    by (simp add: applyAnglesSet_fields applyAnglesSet_def applyJointAngles_def)
qed

lemma scenario_beneath_over_cube: "over_cube scenario_beneath 0"
  by (simp add: over_cube_def scenario_beneath_def setGripperOpenness_def createObject_def
      initial_sim_def applyGripperOpenness_def Let_def scenario_drop_def zero_angles_def)

lemma scenario_descending_fields:
  "animationStartAngles scenario_descending = descent_start"
  "targetAngles scenario_descending = descent_target"
  "jointAngles scenario_descending = descent_start"
  "lastSafeProgress scenario_descending = 0"
  "isAnimating scenario_descending = True"
  "animationStartTime scenario_descending = 0"
  "animationDuration scenario_descending = 1000"
  "animationQueue scenario_descending = []"
  "runningProgram scenario_descending = None"
  by (simp_all add: scenario_descending_def setJointAngles_def startAnimation_def
      applyJointAngles_def clampAngle_def limits_base_def limits_shoulder_def limits_elbow_def
      limits_wrist_def Let_def scenario_beneath_def setGripperOpenness_def createObject_def
      initial_sim_def applyGripperOpenness_def zero_angles_def descent_start_def
      descent_target_def)

lemma scenario_descending_over_cube: "over_cube scenario_descending (- 0.1)"
proof -
  have "over_cube (setJointAngles 0 0 (- 10) 0 0 False scenario_beneath) (- 0.1)"
    using scenario_beneath_over_cube
    by (simp add: over_cube_def setJointAngles_def applyJointAngles_def clampAngle_def
        limits_base_def limits_shoulder_def limits_elbow_def limits_wrist_def Let_def
        scenario_drop_def)
  then show ?thesis
    by (simp add: scenario_descending_def over_cube_def setJointAngles_def startAnimation_def
        Let_def)
qed

lemma descent_drop:
  "scenario_drop (getAnglesAtProgress descent_start descent_target p) =
     (- 10 + 100 * easeInOutCubic p) / 100"
  by (simp add: scenario_drop_def getAnglesAtProgress_def Let_def lerp_def descent_start_def
      descent_target_def field_simps)

lemma ease_values:
  "easeInOutCubic 0.1 = 0.004" "easeInOutCubic 0.2 = 0.032" "easeInOutCubic 0.25 = 0.0625"
  "easeInOutCubic 0.3 = 0.108"
  by (simp_all add: easeInOutCubic_def)

lemma descent_first_substep:
  "substepLoop scenario_world 0.2 2 1 (Suc (Suc 0)) scenario_descending =
     substepLoop scenario_world 0.2 2 2 (Suc 0) descent_step1"
proof -
  have p: "lastSafeProgress scenario_descending + (0.2 * real 1 / real 2) = 0.1"
    by (simp add: scenario_descending_fields)
  have "scenario_drop (getAnglesAtProgress (animationStartAngles scenario_descending)
           (targetAngles scenario_descending)
           (lastSafeProgress scenario_descending + (0.2 * real 1 / real 2))) \<le> - 0.01"
    unfolding p by (simp add: scenario_descending_fields descent_drop ease_values)
  from substep_safe [OF scenario_descending_over_cube this, of "Suc 0"]
  show ?thesis
    unfolding p by (simp add: scenario_descending_fields descent_step1_def numeral_2_eq_2)
qed

lemma descent_step1_fields:
  "animationStartAngles descent_step1 = descent_start"
  "targetAngles descent_step1 = descent_target"
  "lastSafeProgress descent_step1 = 0.1"
  by (simp_all add: descent_step1_def applyAnglesSet_fields scenario_descending_fields)

lemma descent_step1_over_cube: "over_cube descent_step1 (- 0.096)"
  using over_cube_applyAnglesSet [OF scenario_descending_over_cube,
      of "getAnglesAtProgress descent_start descent_target 0.1"]
  by (simp add: descent_step1_def over_cube_lastSafe descent_drop ease_values)

lemma descent_second_substep:
  "substepLoop scenario_world 0.2 2 2 (Suc 0) descent_step1 =
     (descent_blocked,
      Some \<lparr>blk_object = 0, blk_segment = ''gripper'', blk_penetration = 0.038\<rparr>)"
proof -
  have p: "lastSafeProgress descent_step1 + (0.2 * real 2 / real 2) = 0.3"
    by (simp add: descent_step1_fields)
  have r: "max (lastSafeProgress descent_step1) (0.3 - (0.2 / real 2) * 0.5) = 0.25"
    by (simp add: descent_step1_fields)
  have d: "scenario_drop (getAnglesAtProgress (animationStartAngles descent_step1)
           (targetAngles descent_step1) 0.3) = 0.008"
    by (simp add: descent_step1_fields descent_drop ease_values)
  have "- 0.01 < scenario_drop (getAnglesAtProgress (animationStartAngles descent_step1)
           (targetAngles descent_step1)
           (lastSafeProgress descent_step1 + (0.2 * real 2 / real 2)))"
    and "scenario_drop (getAnglesAtProgress (animationStartAngles descent_step1)
           (targetAngles descent_step1)
           (lastSafeProgress descent_step1 + (0.2 * real 2 / real 2))) < 0.01"
    unfolding p d by simp_all
  from substep_blocked [OF descent_step1_over_cube this, of 0]
  show ?thesis
    unfolding p r d by (simp add: descent_step1_fields descent_blocked_def)
qed

lemma descent_loop:
  "substepLoop scenario_world 0.2 2 1 2 scenario_descending =
     (descent_blocked,
      Some \<lparr>blk_object = 0, blk_segment = ''gripper'', blk_penetration = 0.038\<rparr>)"
  using descent_first_substep descent_second_substep
  by (simp add: numeral_2_eq_2)

section \<open>The executor when a sub-step blocks\<close>

lemma same_motion_refl: "same_motion s s"
  by (simp add: same_motion_def)

lemma same_motion_trans: "same_motion s t \<Longrightarrow> same_motion t u \<Longrightarrow> same_motion s u"
  unfolding same_motion_def
proof -
  assume a: "t = s\<lparr>heap := heap t, randomIndex := randomIndex t\<rparr>"
    and b: "u = t\<lparr>heap := heap u, randomIndex := randomIndex u\<rparr>"
  have "u = (s\<lparr>heap := heap t, randomIndex := randomIndex t\<rparr>)\<lparr>heap := heap u, randomIndex := randomIndex u\<rparr>"
    using a b by simp
  then show "u = s\<lparr>heap := heap u, randomIndex := randomIndex u\<rparr>" by simp
qed

lemma same_motion_pushObject: "same_motion s (pushObject w r s)"
  by (simp add: pushObject_def Let_def same_motion_def modify_def)

lemma same_motion_foldl:
  "(\<And>x st. same_motion st (f st x)) \<Longrightarrow> same_motion s (foldl f s xs)"
proof (induction xs arbitrary: s)
  case Nil
  show ?case by (simp add: same_motion_refl)
next
  case (Cons x xs)
  have "same_motion s (f s x)" by (rule Cons.prems)
  moreover have "same_motion (f s x) (foldl f (f s x) xs)"
    by (rule Cons.IH) (rule Cons.prems)
  ultimately show ?case by (simp add: same_motion_trans)
qed

lemma same_motion_pushObjectsFromArm: "same_motion s (pushObjectsFromArm w s)"
  unfolding pushObjectsFromArm_def
  by (rule same_motion_foldl) (rule same_motion_pushObject)

lemma same_motion_fields:
  assumes "same_motion s s'"
  shows "animationStartAngles s' = animationStartAngles s" "targetAngles s' = targetAngles s"
    "lastSafeProgress s' = lastSafeProgress s" "jointAngles s' = jointAngles s"
    "pivots s' = pivots s" "isAnimating s' = isAnimating s"
    "animationQueue s' = animationQueue s" "runningProgram s' = runningProgram s"
    "terminalOutput s' = terminalOutput s"
proof -
  from assms have e: "s' = s\<lparr>heap := heap s', randomIndex := randomIndex s'\<rparr>"
    by (simp only: same_motion_def)
  show "animationStartAngles s' = animationStartAngles s" by (subst e) simp
  show "targetAngles s' = targetAngles s" by (subst e) simp
  show "lastSafeProgress s' = lastSafeProgress s" by (subst e) simp
  show "jointAngles s' = jointAngles s" by (subst e) simp
  show "pivots s' = pivots s" by (subst e) simp
  show "isAnimating s' = isAnimating s" by (subst e) simp
  show "animationQueue s' = animationQueue s" by (subst e) simp
  show "runningProgram s' = runningProgram s" by (subst e) simp
  show "terminalOutput s' = terminalOutput s" by (subst e) simp
qed

text \<open>The sub-step that blocks.\<close>

lemma substepLoop_blocking_step:
  fixes w s progressDelta SUBSTEPS step n
  defines "stepProgress \<equiv> lastSafeProgress s + (progressDelta * real step / real SUBSTEPS)"
  defines "safeProgress \<equiv>
             max (lastSafeProgress s) (stepProgress - (progressDelta / real SUBSTEPS) * 0.5)"
  assumes "checkArmCollisionWithBlockedObject w
             (pushObjectsFromArm w
                (applyAnglesSet
                   (getAnglesAtProgress (animationStartAngles s) (targetAngles s) stepProgress) s))
           = Some c"
  shows "snd (substepLoop w progressDelta SUBSTEPS step (Suc n) s) = Some c"
    and "lastSafeProgress (fst (substepLoop w progressDelta SUBSTEPS step (Suc n) s)) = safeProgress"
    and "jointAngles (fst (substepLoop w progressDelta SUBSTEPS step (Suc n) s)) =
           getAnglesAtProgress (animationStartAngles s) (targetAngles s) safeProgress"
    and "pivots (fst (substepLoop w progressDelta SUBSTEPS step (Suc n) s)) =
           getAnglesAtProgress (animationStartAngles s) (targetAngles s) safeProgress"
    and "lastSafeAngles (fst (substepLoop w progressDelta SUBSTEPS step (Suc n) s)) =
           Some (getAnglesAtProgress (animationStartAngles s) (targetAngles s) safeProgress)"
proof -
  define pa where "pa = getAnglesAtProgress (animationStartAngles s) (targetAngles s) stepProgress"
  define s2 where "s2 = pushObjectsFromArm w (applyAnglesSet pa s)"
  have m: "same_motion (applyAnglesSet pa s) s2"
    unfolding s2_def by (rule same_motion_pushObjectsFromArm)
  have f: "animationStartAngles s2 = animationStartAngles s" "targetAngles s2 = targetAngles s"
    "lastSafeProgress s2 = lastSafeProgress s"
    by (simp_all add: same_motion_fields [OF m] applyAnglesSet_fields)
  have c: "checkArmCollisionWithBlockedObject w s2 = Some c"
    using assms(3) by (simp add: s2_def pa_def)
  have loop: "substepLoop w progressDelta SUBSTEPS step (Suc n) s =
      ((applyAnglesSet (getAnglesAtProgress (animationStartAngles s) (targetAngles s) safeProgress) s2)
         \<lparr>lastSafeAngles :=
            Some (getAnglesAtProgress (animationStartAngles s) (targetAngles s) safeProgress),
          lastSafeProgress := safeProgress\<rparr>, Some c)"
    unfolding substepLoop.simps Let_def stepProgress_def [symmetric] pa_def [symmetric]
      s2_def [symmetric] c f
    by (simp add: safeProgress_def)
  show "snd (substepLoop w progressDelta SUBSTEPS step (Suc n) s) = Some c"
    and "lastSafeProgress (fst (substepLoop w progressDelta SUBSTEPS step (Suc n) s)) = safeProgress"
    and "jointAngles (fst (substepLoop w progressDelta SUBSTEPS step (Suc n) s)) =
           getAnglesAtProgress (animationStartAngles s) (targetAngles s) safeProgress"
    and "pivots (fst (substepLoop w progressDelta SUBSTEPS step (Suc n) s)) =
           getAnglesAtProgress (animationStartAngles s) (targetAngles s) safeProgress"
    and "lastSafeAngles (fst (substepLoop w progressDelta SUBSTEPS step (Suc n) s)) =
           Some (getAnglesAtProgress (animationStartAngles s) (targetAngles s) safeProgress)"
    unfolding loop by (simp_all add: applyAnglesSet_fields)
qed

lemma updateAnimation_blocked:
  assumes "isAnimating s"
    and "\<not> min ((now - animationStartTime s) / animationDuration s) 1 - lastSafeProgress s < 0.0001"
    and "snd (substepLoop w (min ((now - animationStartTime s) / animationDuration s) 1
                               - lastSafeProgress s)
               (max 2 (nat \<lceil>(min ((now - animationStartTime s) / animationDuration s) 1
                                 - lastSafeProgress s) * 10\<rceil>)) 1
               (max 2 (nat \<lceil>(min ((now - animationStartTime s) / animationDuration s) 1
                                 - lastSafeProgress s) * 10\<rceil>)) s) = Some c"
  shows "isAnimating (fst (updateAnimation w now s)) = False"
    and "animationQueue (fst (updateAnimation w now s)) = []"
    and "runningProgram (fst (updateAnimation w now s)) = None"
    and "snd (updateAnimation w now s) = None"
    and "jointAngles (fst (updateAnimation w now s)) =
           jointAngles (fst (substepLoop w
              (min ((now - animationStartTime s) / animationDuration s) 1 - lastSafeProgress s)
              (max 2 (nat \<lceil>(min ((now - animationStartTime s) / animationDuration s) 1
                                 - lastSafeProgress s) * 10\<rceil>)) 1
              (max 2 (nat \<lceil>(min ((now - animationStartTime s) / animationDuration s) 1
                                 - lastSafeProgress s) * 10\<rceil>)) s))"
    and "pivots (fst (updateAnimation w now s)) =
           pivots (fst (substepLoop w
              (min ((now - animationStartTime s) / animationDuration s) 1 - lastSafeProgress s)
              (max 2 (nat \<lceil>(min ((now - animationStartTime s) / animationDuration s) 1
                                 - lastSafeProgress s) * 10\<rceil>)) 1
              (max 2 (nat \<lceil>(min ((now - animationStartTime s) / animationDuration s) 1
                                 - lastSafeProgress s) * 10\<rceil>)) s))"
    and "lastSafeProgress (fst (updateAnimation w now s)) =
           lastSafeProgress (fst (substepLoop w
              (min ((now - animationStartTime s) / animationDuration s) 1 - lastSafeProgress s)
              (max 2 (nat \<lceil>(min ((now - animationStartTime s) / animationDuration s) 1
                                 - lastSafeProgress s) * 10\<rceil>)) 1
              (max 2 (nat \<lceil>(min ((now - animationStartTime s) / animationDuration s) 1
                                 - lastSafeProgress s) * 10\<rceil>)) s))"
    and "\<exists>name. take 2 (rev (terminalOutput (fst (updateAnimation w now s)))) =
           [(''Object cannot be pushed through floor. Try a different approach.'', ''warning''),
            (''COLLISION: Arm blocked by '' @ name, ''error'')]"
proof -
  define d where "d = min ((now - animationStartTime s) / animationDuration s) 1 - lastSafeProgress s"
  define S where "S = max 2 (nat \<lceil>d * 10\<rceil>)"
  obtain s1 where loop: "substepLoop w d S 1 S s = (s1, Some c)"
    using assms(3) unfolding d_def [symmetric] S_def [symmetric]
    by (cases "substepLoop w d S 1 S s") simp
  have u: "updateAnimation w now s =
      (let s2 = s1\<lparr>isAnimating := False, animationQueue := []\<rparr>;
           s3 = (case runningProgram s2 of
                   Some prog \<Rightarrow>
                     (terminal_print
                        (''Program \"'' @ prog_name prog @ ''\" cancelled due to collision.'')
                        ''warning'' s2)\<lparr>runningProgram := None\<rparr>
                 | None \<Rightarrow> s2);
           objName = (if obj_name (heap s3 (blk_object c)) = [] then ''object''
                      else obj_name (heap s3 (blk_object c)));
           s4 = terminal_print (''COLLISION: Arm blocked by '' @ objName) ''error'' s3
       in (terminal_print
             ''Object cannot be pushed through floor. Try a different approach.''
             ''warning'' s4, None))"
    using assms(1,2)
    unfolding updateAnimation_def Let_def d_def [symmetric] S_def [symmetric] loop
    by simp
  show "isAnimating (fst (updateAnimation w now s)) = False"
    and "animationQueue (fst (updateAnimation w now s)) = []"
    and "runningProgram (fst (updateAnimation w now s)) = None"
    and "snd (updateAnimation w now s) = None"
    unfolding u by (simp_all add: Let_def terminal_print_def split: option.split)
  show "jointAngles (fst (updateAnimation w now s)) = jointAngles (fst (substepLoop w
              (min ((now - animationStartTime s) / animationDuration s) 1 - lastSafeProgress s)
              (max 2 (nat \<lceil>(min ((now - animationStartTime s) / animationDuration s) 1
                                 - lastSafeProgress s) * 10\<rceil>)) 1
              (max 2 (nat \<lceil>(min ((now - animationStartTime s) / animationDuration s) 1
                                 - lastSafeProgress s) * 10\<rceil>)) s))"
    and "pivots (fst (updateAnimation w now s)) = pivots (fst (substepLoop w
              (min ((now - animationStartTime s) / animationDuration s) 1 - lastSafeProgress s)
              (max 2 (nat \<lceil>(min ((now - animationStartTime s) / animationDuration s) 1
                                 - lastSafeProgress s) * 10\<rceil>)) 1
              (max 2 (nat \<lceil>(min ((now - animationStartTime s) / animationDuration s) 1
                                 - lastSafeProgress s) * 10\<rceil>)) s))"
    and "lastSafeProgress (fst (updateAnimation w now s)) = lastSafeProgress (fst (substepLoop w
              (min ((now - animationStartTime s) / animationDuration s) 1 - lastSafeProgress s)
              (max 2 (nat \<lceil>(min ((now - animationStartTime s) / animationDuration s) 1
                                 - lastSafeProgress s) * 10\<rceil>)) 1
              (max 2 (nat \<lceil>(min ((now - animationStartTime s) / animationDuration s) 1
                                 - lastSafeProgress s) * 10\<rceil>)) s))"
    unfolding d_def [symmetric] S_def [symmetric] loop u
    by (simp_all add: Let_def terminal_print_def split: option.split)
  show "\<exists>name. take 2 (rev (terminalOutput (fst (updateAnimation w now s)))) =
           [(''Object cannot be pushed through floor. Try a different approach.'', ''warning''),
            (''COLLISION: Arm blocked by '' @ name, ''error'')]"
    unfolding u by (simp add: Let_def terminal_print_def split: option.split)
qed

lemma setJointAngles_restarts:
  assumes "\<not> isAnimating s"
  shows "isAnimating (setJointAngles now b sh e wr True s)"
    and "lastSafeProgress (setJointAngles now b sh e wr True s) = 0"
    and "animationStartTime (setJointAngles now b sh e wr True s) = now"
    and "animationStartAngles (setJointAngles now b sh e wr True s) = jointAngles s"
    and "shoulder (targetAngles (setJointAngles now b sh e wr True s)) =
           clampAngle sh limits_shoulder * pi / 180"
  using assms by (simp_all add: setJointAngles_def startAnimation_def Let_def)

lemma descent_update:
  "fst (updateAnimation scenario_world 200 scenario_descending) =
     terminal_print ''Object cannot be pushed through floor. Try a different approach.'' ''warning''
       (terminal_print (''COLLISION: Arm blocked by '' @ obj_name (heap descent_blocked 0)) ''error''
          (descent_blocked\<lparr>isAnimating := False, animationQueue := []\<rparr>))"
proof -
  have rp: "runningProgram descent_blocked = None"
    by (simp add: descent_blocked_def descent_step1_def applyAnglesSet_def applyJointAngles_def
        scenario_descending_fields)
  have nm: "obj_name (heap descent_blocked 0) \<noteq> []"
    by (simp add: descent_blocked_def descent_step1_def applyAnglesSet_def applyJointAngles_def
        scenario_descending_def setJointAngles_def startAnimation_def Let_def
        scenario_beneath_def setGripperOpenness_def applyGripperOpenness_def createObject_def
        initial_sim_def)
  have S: "max 2 (nat \<lceil>(0.2 :: real) * 10\<rceil>) = 2" by simp
  show ?thesis
    unfolding updateAnimation_def Let_def
    using descent_loop rp nm
    by (simp add: scenario_descending_fields S)
qed

section \<open>Blocking classification\<close>





section \<open>Roll-back on a blocking sub-step\<close>

text \<open>
  Claim C7.  When the collision check of a sub-step reports a blocking collision, the
  sub-step loop ends with that collision; the progress it rolls back to is the larger of
  the last safe progress and the blocking sub-step's progress less half of
  \<open>progressDelta / SUBSTEPS\<close>, so never earlier than the last safe sub-step; the joint
  angles and the pivots are those of that progress.  \<open>updateAnimation\<close> then clears
  \<open>isAnimating\<close>, empties the queue, clears the running program, dispatches no command,
  keeps the rolled-back angles and prints the collision error and the warning.  On a
  state that is not animating, an animated \<open>setJointAngles\<close> starts a new animation from
  the current angles.
\<close>

theorem blocked_substep_rollback:
  "(checkArmCollisionWithBlockedObject w
      (pushObjectsFromArm w
         (applyAnglesSet
            (getAnglesAtProgress (animationStartAngles s) (targetAngles s)
               (lastSafeProgress s + (progressDelta * real step / real SUBSTEPS))) s)) = Some c \<longrightarrow>
      snd (substepLoop w progressDelta SUBSTEPS step (Suc n) s) = Some c \<and>
      lastSafeProgress (fst (substepLoop w progressDelta SUBSTEPS step (Suc n) s)) =
        max (lastSafeProgress s)
          (lastSafeProgress s + (progressDelta * real step / real SUBSTEPS)
             - (progressDelta / real SUBSTEPS) * 0.5) \<and>
      lastSafeProgress s \<le> lastSafeProgress (fst (substepLoop w progressDelta SUBSTEPS step (Suc n) s)) \<and>
      jointAngles (fst (substepLoop w progressDelta SUBSTEPS step (Suc n) s)) =
        getAnglesAtProgress (animationStartAngles s) (targetAngles s)
          (lastSafeProgress (fst (substepLoop w progressDelta SUBSTEPS step (Suc n) s))) \<and>
      pivots (fst (substepLoop w progressDelta SUBSTEPS step (Suc n) s)) =
        jointAngles (fst (substepLoop w progressDelta SUBSTEPS step (Suc n) s))) \<and>
   (isAnimating s \<and> \<not> progressDelta_at now s < 0.0001 \<and>
    snd (substepLoop w (progressDelta_at now s) (SUBSTEPS_at now s) 1 (SUBSTEPS_at now s) s) = Some c \<longrightarrow>
      \<not> isAnimating (fst (updateAnimation w now s)) \<and>
      animationQueue (fst (updateAnimation w now s)) = [] \<and>
      runningProgram (fst (updateAnimation w now s)) = None \<and>
      snd (updateAnimation w now s) = None \<and>
      jointAngles (fst (updateAnimation w now s)) =
        jointAngles (fst (substepLoop w (progressDelta_at now s) (SUBSTEPS_at now s) 1
                            (SUBSTEPS_at now s) s)) \<and>
      pivots (fst (updateAnimation w now s)) =
        pivots (fst (substepLoop w (progressDelta_at now s) (SUBSTEPS_at now s) 1
                       (SUBSTEPS_at now s) s)) \<and>
      lastSafeProgress (fst (updateAnimation w now s)) =
        lastSafeProgress (fst (substepLoop w (progressDelta_at now s) (SUBSTEPS_at now s) 1
                       (SUBSTEPS_at now s) s)) \<and>
      (\<exists>name. take 2 (rev (terminalOutput (fst (updateAnimation w now s)))) =
         [(''Object cannot be pushed through floor. Try a different approach.'', ''warning''),
          (''COLLISION: Arm blocked by '' @ name, ''error'')])) \<and>
   (\<not> isAnimating s \<longrightarrow>
      isAnimating (setJointAngles now b sh e wr True s) \<and>
      lastSafeProgress (setJointAngles now b sh e wr True s) = 0 \<and>
      animationStartAngles (setJointAngles now b sh e wr True s) = jointAngles s)"
proof (intro conjI impI)
  assume c: "checkArmCollisionWithBlockedObject w
      (pushObjectsFromArm w
         (applyAnglesSet
            (getAnglesAtProgress (animationStartAngles s) (targetAngles s)
               (lastSafeProgress s + (progressDelta * real step / real SUBSTEPS))) s)) = Some c"
  note r = substepLoop_blocking_step [OF c, of n]
  show "snd (substepLoop w progressDelta SUBSTEPS step (Suc n) s) = Some c" by (rule r(1))
  show l: "lastSafeProgress (fst (substepLoop w progressDelta SUBSTEPS step (Suc n) s)) =
        max (lastSafeProgress s)
          (lastSafeProgress s + (progressDelta * real step / real SUBSTEPS)
             - (progressDelta / real SUBSTEPS) * 0.5)" by (rule r(2))
  show "lastSafeProgress s \<le> lastSafeProgress (fst (substepLoop w progressDelta SUBSTEPS step (Suc n) s))"
    unfolding l by (rule max.cobounded1)
  show j: "jointAngles (fst (substepLoop w progressDelta SUBSTEPS step (Suc n) s)) =
        getAnglesAtProgress (animationStartAngles s) (targetAngles s)
          (lastSafeProgress (fst (substepLoop w progressDelta SUBSTEPS step (Suc n) s)))"
    unfolding l by (rule r(3))
  show "pivots (fst (substepLoop w progressDelta SUBSTEPS step (Suc n) s)) =
        jointAngles (fst (substepLoop w progressDelta SUBSTEPS step (Suc n) s))"
    unfolding r(3) by (rule r(4))
next
  assume a: "isAnimating s \<and> \<not> progressDelta_at now s < 0.0001 \<and>
    snd (substepLoop w (progressDelta_at now s) (SUBSTEPS_at now s) 1 (SUBSTEPS_at now s) s) = Some c"
  note r = updateAnimation_blocked [of s now w c, folded progressDelta_at_def,
      folded SUBSTEPS_at_def, OF a [THEN conjunct1] a [THEN conjunct2, THEN conjunct1]
      a [THEN conjunct2, THEN conjunct2]]
  show "\<not> isAnimating (fst (updateAnimation w now s))" using r(1) by simp
  show "animationQueue (fst (updateAnimation w now s)) = []" by (rule r(2))
  show "runningProgram (fst (updateAnimation w now s)) = None" by (rule r(3))
  show "snd (updateAnimation w now s) = None" by (rule r(4))
  show "jointAngles (fst (updateAnimation w now s)) =
        jointAngles (fst (substepLoop w (progressDelta_at now s) (SUBSTEPS_at now s) 1
                            (SUBSTEPS_at now s) s))" by (rule r(5))
  show "pivots (fst (updateAnimation w now s)) =
        pivots (fst (substepLoop w (progressDelta_at now s) (SUBSTEPS_at now s) 1
                       (SUBSTEPS_at now s) s))" by (rule r(6))
  show "lastSafeProgress (fst (updateAnimation w now s)) =
        lastSafeProgress (fst (substepLoop w (progressDelta_at now s) (SUBSTEPS_at now s) 1
                       (SUBSTEPS_at now s) s))" by (rule r(7))
  show "\<exists>name. take 2 (rev (terminalOutput (fst (updateAnimation w now s)))) =
         [(''Object cannot be pushed through floor. Try a different approach.'', ''warning''),
          (''COLLISION: Arm blocked by '' @ name, ''error'')]" by (rule r(8))
next
  assume n: "\<not> isAnimating s"
  show "isAnimating (setJointAngles now b sh e wr True s)"
    and "lastSafeProgress (setJointAngles now b sh e wr True s) = 0"
    and "animationStartAngles (setJointAngles now b sh e wr True s) = jointAngles s"
    by (rule setJointAngles_restarts [OF n])+
qed

lemma descent_step1_probe:
  assumes "(- 10 + 100 * easeInOutCubic p) / 100 < 0.01"
  shows "checkArmCollisionWithBlockedObject scenario_world
           (pushObjectsFromArm scenario_world
              (applyAnglesSet (getAnglesAtProgress descent_start descent_target p) descent_step1)) =
         (if - 0.01 < (- 10 + 100 * easeInOutCubic p) / 100
          then Some \<lparr>blk_object = 0, blk_segment = ''gripper'',
                     blk_penetration = 0.03 + (- 10 + 100 * easeInOutCubic p) / 100\<rparr>
          else None)"
proof -
  define a where "a = getAnglesAtProgress descent_start descent_target p"
  have oc: "over_cube (applyAnglesSet a descent_step1) (scenario_drop a)"
    using descent_step1_over_cube by (rule over_cube_applyAnglesSet)
  have d: "scenario_drop a = (- 10 + 100 * easeInOutCubic p) / 100"
    unfolding a_def by (rule descent_drop)
  have lt: "scenario_drop a < 0.01" unfolding d by (rule assms)
  show ?thesis
    unfolding a_def [symmetric] over_cube_push [OF oc lt] over_cube_check [OF oc lt] d ..
qed

text \<open>
  The run of \<open>scenario_descending\<close> at time 200: \<open>progressDelta\<close> is 0.2 and \<open>SUBSTEPS\<close>
  is 2.  The first sub-step, at progress 0.1, is safe.  The second sub-step adds
  \<open>progressDelta * 2 / 2\<close> to the last safe progress 0.1, which the first sub-step has
  written: it proposes progress 0.3, where the gripper blocks, while at the target
  progress 0.2 of this call nothing blocks.  The roll-back is to progress 0.25.
\<close>

theorem blocked_substep_rollback_witness:
  "lastSafeProgress descent_step1 = 0.1 \<and>
   checkArmCollisionWithBlockedObject scenario_world
     (pushObjectsFromArm scenario_world
        (applyAnglesSet (getAnglesAtProgress descent_start descent_target 0.2) descent_step1)) = None \<and>
   checkArmCollisionWithBlockedObject scenario_world
     (pushObjectsFromArm scenario_world
        (applyAnglesSet (getAnglesAtProgress descent_start descent_target 0.3) descent_step1)) =
     Some \<lparr>blk_object = 0, blk_segment = ''gripper'', blk_penetration = 0.038\<rparr> \<and>
   lastSafeProgress (fst (substepLoop scenario_world 0.2 2 2 (Suc 0) descent_step1)) = 0.25 \<and>
   isAnimating scenario_descending \<and>
   progressDelta_at 200 scenario_descending = 0.2 \<and>
   SUBSTEPS_at 200 scenario_descending = 2 \<and>
   lastSafeProgress (fst (updateAnimation scenario_world 200 scenario_descending)) = 0.25 \<and>
   \<not> isAnimating (fst (updateAnimation scenario_world 200 scenario_descending)) \<and>
   animationQueue (fst (updateAnimation scenario_world 200 scenario_descending)) = [] \<and>
   runningProgram (fst (updateAnimation scenario_world 200 scenario_descending)) = None \<and>
   isAnimating (setJointAngles 300 0 0 0 0 True
                  (fst (updateAnimation scenario_world 200 scenario_descending)))"
proof -
  have 1: "lastSafeProgress descent_step1 = 0.1" by (rule descent_step1_fields)
  have 2: "checkArmCollisionWithBlockedObject scenario_world
     (pushObjectsFromArm scenario_world
        (applyAnglesSet (getAnglesAtProgress descent_start descent_target 0.2) descent_step1)) = None"
    by (subst descent_step1_probe) (simp_all add: easeInOutCubic_def)
  have 3: "checkArmCollisionWithBlockedObject scenario_world
     (pushObjectsFromArm scenario_world
        (applyAnglesSet (getAnglesAtProgress descent_start descent_target 0.3) descent_step1)) =
     Some \<lparr>blk_object = 0, blk_segment = ''gripper'', blk_penetration = 0.038\<rparr>"
    by (subst descent_step1_probe) (simp_all add: easeInOutCubic_def)
  have p: "lastSafeProgress descent_step1 + (0.2 * real 2 / real 2) = 0.3"
    by (simp add: descent_step1_fields)
  have p3: "checkArmCollisionWithBlockedObject scenario_world
     (pushObjectsFromArm scenario_world
        (applyAnglesSet
           (getAnglesAtProgress (animationStartAngles descent_step1) (targetAngles descent_step1)
              (lastSafeProgress descent_step1 + (0.2 * real 2 / real 2))) descent_step1)) =
     Some \<lparr>blk_object = 0, blk_segment = ''gripper'', blk_penetration = 0.038\<rparr>"
    using 3 by (simp add: descent_step1_fields)
  note A = blocked_substep_rollback [where w = scenario_world and s = descent_step1
      and progressDelta = "0.2" and step = 2 and SUBSTEPS = 2 and n = 0
      and c = "\<lparr>blk_object = 0, blk_segment = ''gripper'', blk_penetration = 0.038\<rparr>",
      THEN conjunct1, THEN mp, OF p3]
  from A [THEN conjunct2, THEN conjunct1]
  have 4: "lastSafeProgress (fst (substepLoop scenario_world 0.2 2 2 (Suc 0) descent_step1)) = 0.25"
    by (simp add: descent_step1_fields)
  have 5: "isAnimating scenario_descending" by (simp add: scenario_descending_fields)
  have 6: "progressDelta_at 200 scenario_descending = 0.2"
    by (simp add: progressDelta_at_def scenario_descending_fields)
  have 7: "SUBSTEPS_at 200 scenario_descending = 2"
    by (simp add: SUBSTEPS_at_def 6)
  have l: "snd (substepLoop scenario_world (progressDelta_at 200 scenario_descending)
      (SUBSTEPS_at 200 scenario_descending) 1 (SUBSTEPS_at 200 scenario_descending)
      scenario_descending) =
      Some \<lparr>blk_object = 0, blk_segment = ''gripper'', blk_penetration = 0.038\<rparr>"
    unfolding 6 7 descent_loop by simp
  have g: "isAnimating scenario_descending \<and> \<not> progressDelta_at 200 scenario_descending < 0.0001 \<and>
      snd (substepLoop scenario_world (progressDelta_at 200 scenario_descending)
      (SUBSTEPS_at 200 scenario_descending) 1 (SUBSTEPS_at 200 scenario_descending)
      scenario_descending) =
      Some \<lparr>blk_object = 0, blk_segment = ''gripper'', blk_penetration = 0.038\<rparr>"
    using 5 l by (simp add: 6)
  note B = blocked_substep_rollback [where w = scenario_world and s = scenario_descending
      and now = 200
      and c = "\<lparr>blk_object = 0, blk_segment = ''gripper'', blk_penetration = 0.038\<rparr>",
      THEN conjunct2, THEN conjunct1, THEN mp, OF g]
  have 8: "lastSafeProgress (fst (updateAnimation scenario_world 200 scenario_descending)) = 0.25"
    by (simp add: descent_update terminal_print_def descent_blocked_def)
  have 9: "\<not> isAnimating (fst (updateAnimation scenario_world 200 scenario_descending))"
    by (rule B [THEN conjunct1])
  have 10: "animationQueue (fst (updateAnimation scenario_world 200 scenario_descending)) = []"
    by (rule B [THEN conjunct2, THEN conjunct1])
  have 11: "runningProgram (fst (updateAnimation scenario_world 200 scenario_descending)) = None"
    by (rule B [THEN conjunct2, THEN conjunct2, THEN conjunct1])
  note C = blocked_substep_rollback [where s = "fst (updateAnimation scenario_world 200 scenario_descending)"
      and now = 300 and b = 0 and sh = 0 and e = 0 and wr = 0,
      THEN conjunct2, THEN conjunct2, THEN mp, OF 9]
  have 12: "isAnimating (setJointAngles 300 0 0 0 0 True
                  (fst (updateAnimation scenario_world 200 scenario_descending)))"
    by (rule C [THEN conjunct1])
  from 1 2 3 4 5 6 7 8 9 10 11 12 show ?thesis by (intro conjI)
qed

end
